theory Spec2Isabelle
  imports Complex_Main
begin

section \<open>Values with identity\<close>

text \<open>
  The viewer is a React component. Its hooks compare dependencies with \<open>Object.is\<close>:
  primitives (booleans, numbers, strings) by value, objects by reference. An object is
  therefore modelled together with the address it was allocated at.

  The hooks themselves belong to React and are modelled as React documents them:
  \<open>useMemo\<close> recomputes when a dependency differs from the previous pass, \<open>useEffect\<close>
  runs after the pass is committed, on the first pass and whenever a dependency differs,
  after the cleanup of its previous run, and the cleanup also runs at unmount. Every render
  pass is taken to be committed, once.
\<close>

type_synonym addr = nat
type_synonym number = real

text \<open>A value of TypeScript type \<open>T | false\<close>, where \<open>T\<close> is an object type.\<close>

datatype 'a or_false = Off | Obj addr 'a

fun object_is :: "'a or_false \<Rightarrow> 'a or_false \<Rightarrow> bool" where
  "object_is Off Off = True"
| "object_is (Obj a x) (Obj b y) = (a = b)"
| "object_is Off (Obj b y) = False"
| "object_is (Obj a x) Off = False"

text \<open>Equality by value: the contents agree, wherever the objects live.\<close>

fun value_eq :: "'a or_false \<Rightarrow> 'a or_false \<Rightarrow> bool" where
  "value_eq Off Off = True"
| "value_eq (Obj a x) (Obj b y) = (x = y)"
| "value_eq Off (Obj b y) = False"
| "value_eq (Obj a x) Off = False"

section \<open>Options, primitives and the external builders\<close>

datatype representation = Spheres | RibbonTube | RibbonFlat
datatype material_kind = Basic | Lambert | Standard

text \<open>A parsed scene is an opaque object of the loader; only its identity is used here.\<close>

type_synonym MolScene = addr

record AtomMeshOptions =
  sphereDetail :: "number option"
  materialKind :: "material_kind option"
  radiusScale :: "number option"

record BackboneLineOptions =
  color :: "nat option"

record SceneBuildOptions =
  atoms :: "AtomMeshOptions or_false"
  bonds :: bool
  backbone :: "BackboneLineOptions or_false"

text \<open>
  A material, as \<open>useSceneObjects\<close> looks at it: a GPU resource, and three properties that
  may each be absent (\<open>undefined\<close>). Lines 33 and 53 to 57 take the material of a primitive
  to be one \<open>Material\<close>, and so does the model.
\<close>

record material =
  mat_res :: addr
  mat_vertexColors :: "bool option"
  mat_color :: "string option"
  mat_needsUpdate :: "bool option"

text \<open>An \<open>InstancedMesh\<close> or \<open>LineSegments\<close>: its identity, its geometry resource, its material.\<close>

record prim =
  prim_id :: addr
  geometry :: addr
  material :: material

record objects =
  obj_atoms :: "prim option"
  obj_bonds :: "prim option"
  obj_backbone :: "prim option"

text \<open>A material of a ribbon mesh is one material or an array of them.\<close>

datatype mats = Single addr | Multi "addr list"

text \<open>
  A node of a three.js object tree: a \<open>Mesh\<close> carries a geometry and material(s); any other
  \<open>Object3D\<close> carries none.
\<close>

datatype obj3d = Obj3d (mesh_of: "(addr \<times> mats) option") (children: "obj3d list")

text \<open>
  Modelled from the spec: the mesh builders of package \<open>pdb-parser\<close> are not part of the
  sources. They are pure functions of the scene and the options that return a primitive or
  nothing (section 6 of the specification); each primitive they return is a new object that
  owns its geometry and material (section 3). A builder is therefore a parameter that yields
  the material it would give the new primitive, and the model allocates the identities.
\<close>

record builders =
  makeAtomsMesh :: "MolScene \<Rightarrow> number \<Rightarrow> material_kind \<Rightarrow> number \<Rightarrow> material option"
  makeBondLines :: "MolScene \<Rightarrow> material option"
  makeBackboneLines :: "MolScene \<Rightarrow> nat \<Rightarrow> material option"
  makeRibbonMesh :: "MolScene \<Rightarrow> material_kind \<Rightarrow> obj3d option"
  makeFlatRibbonMesh :: "MolScene \<Rightarrow> material_kind \<Rightarrow> number \<Rightarrow> obj3d option"

datatype builder_call =
    MakeAtoms MolScene number material_kind number
  | MakeBonds MolScene
  | MakeBackbone MolScene nat
  | MakeRibbon MolScene material_kind
  | MakeFlatRibbon MolScene material_kind number

section \<open>useSceneObjects\<close>

text \<open>
  The state of one mounted \<open>useSceneObjects\<close>: the allocator, what was asked of the builders,
  which resources were created and which were disposed (in order), the cell of \<open>useMemo\<close>
  (dependencies and value) and the cell of \<open>useEffect\<close> (the objects its cleanup closes over).
\<close>

type_synonym memo_deps =
  "MolScene option \<times> AtomMeshOptions or_false \<times> bool \<times> BackboneLineOptions or_false"

record cache_state =
  next_addr :: addr
  calls :: "builder_call list"
  created :: "addr list"
  disposed :: "addr list"
  memo :: "(memo_deps \<times> objects) option"
  effect :: "objects option"

definition cache_init :: cache_state where
  "cache_init = \<lparr> next_addr = 0, calls = [], created = [], disposed = [], memo = None,
     effect = None \<rparr>"

fun deps_same :: "memo_deps \<Rightarrow> memo_deps \<Rightarrow> bool" where
  "deps_same (sc, a, b, k) (sc', a', b', k') =
     (sc = sc' \<and> object_is a a' \<and> b = b' \<and> object_is k k')"

text \<open>Lines 33 to 36: the white override, each assignment guarded by the property's presence.\<close>

definition force_white :: "material \<Rightarrow> material" where
  "force_white mat =
     (let m1 = (case mat_vertexColors mat of
                  None \<Rightarrow> mat
                | Some b \<Rightarrow> mat\<lparr>mat_vertexColors := Some False\<rparr>);
          m2 = (case mat_color m1 of
                  None \<Rightarrow> m1
                | Some c \<Rightarrow> m1\<lparr>mat_color := Some ''#ffffff''\<rparr>)
      in (case mat_needsUpdate m2 of
            None \<Rightarrow> m2
          | Some u \<Rightarrow> m2\<lparr>mat_needsUpdate := Some True\<rparr>))"

text \<open>
  One call of a builder: the call is recorded; a returned primitive gets a fresh identity,
  a fresh geometry and a fresh material resource.
\<close>

definition build_prim ::
  "builder_call \<Rightarrow> material option \<Rightarrow> cache_state \<Rightarrow> prim option \<times> cache_state" where
  "build_prim c r s =
     (case r of
        None \<Rightarrow> (None, s\<lparr>calls := calls s @ [c]\<rparr>)
      | Some m \<Rightarrow>
          (let n = next_addr s in
           (Some \<lparr> prim_id = n, geometry = n + 1, material = m\<lparr>mat_res := n + 2\<rparr> \<rparr>,
            s\<lparr> next_addr := n + 3, calls := calls s @ [c],
               created := created s @ [n + 1, n + 2] \<rparr>)))"

definition map_material :: "(material \<Rightarrow> material) \<Rightarrow> prim \<Rightarrow> prim" where
  "map_material f p = p\<lparr>material := f (material p)\<rparr>"

text \<open>Lines 27 to 29: the arguments given to \<open>makeAtomsMesh\<close>, with their defaults.\<close>

definition atoms_args :: "AtomMeshOptions \<Rightarrow> number \<times> material_kind \<times> number" where
  "atoms_args ao =
     ((case sphereDetail ao of None \<Rightarrow> 16 | Some v \<Rightarrow> v),
      (case materialKind ao of None \<Rightarrow> Standard | Some v \<Rightarrow> v),
      (case radiusScale ao of None \<Rightarrow> 1 | Some v \<Rightarrow> v))"

text \<open>Lines 25 to 38: the atoms, built and then forced white.\<close>

definition build_atoms ::
  "builders \<Rightarrow> MolScene \<Rightarrow> AtomMeshOptions or_false \<Rightarrow> cache_state \<Rightarrow> prim option \<times> cache_state" where
  "build_atoms B sc a s =
     (case a of
        Off \<Rightarrow> (None, s)
      | Obj i ao \<Rightarrow>
          (case atoms_args ao of (d, k, r) \<Rightarrow>
             (let (p, s') = build_prim (MakeAtoms sc d k r) (makeAtomsMesh B sc d k r) s
              in (map_option (map_material force_white) p, s'))))"

text \<open>Lines 39 to 41.\<close>

definition build_bonds ::
  "builders \<Rightarrow> MolScene \<Rightarrow> bool \<Rightarrow> cache_state \<Rightarrow> prim option \<times> cache_state" where
  "build_bonds B sc b s =
     (if b then build_prim (MakeBonds sc) (makeBondLines B sc) s else (None, s))"

text \<open>Lines 42 to 44; the default colour is \<open>0xffffff\<close>.\<close>

definition build_backbone ::
  "builders \<Rightarrow> MolScene \<Rightarrow> BackboneLineOptions or_false \<Rightarrow> cache_state \<Rightarrow> prim option \<times> cache_state" where
  "build_backbone B sc k s =
     (case k of
        Off \<Rightarrow> (None, s)
      | Obj i bo \<Rightarrow>
          (let c = (case color bo of None \<Rightarrow> 16777215 | Some v \<Rightarrow> v)
           in build_prim (MakeBackbone sc c) (makeBackboneLines B sc c) s))"

text \<open>Lines 18 to 46: the function given to \<open>useMemo\<close>.\<close>

definition factory ::
  "builders \<Rightarrow> MolScene option \<Rightarrow> SceneBuildOptions \<Rightarrow> cache_state \<Rightarrow> objects \<times> cache_state" where
  "factory B scene opts s =
     (case scene of
        None \<Rightarrow> (\<lparr> obj_atoms = None, obj_bonds = None, obj_backbone = None \<rparr>, s)
      | Some sc \<Rightarrow>
          (let (a, s1) = build_atoms B sc (atoms opts) s;
               (b, s2) = build_bonds B sc (bonds opts) s1;
               (k, s3) = build_backbone B sc (backbone opts) s2
           in (\<lparr> obj_atoms = a, obj_bonds = b, obj_backbone = k \<rparr>, s3)))"

text \<open>Lines 51 to 58: the cleanup, for the objects it closes over.\<close>

definition prim_resources :: "prim option \<Rightarrow> addr list" where
  "prim_resources p = (case p of None \<Rightarrow> [] | Some q \<Rightarrow> [geometry q, mat_res (material q)])"

definition objects_resources :: "objects \<Rightarrow> addr list" where
  "objects_resources v =
     prim_resources (obj_atoms v) @ prim_resources (obj_bonds v) @ prim_resources (obj_backbone v)"

definition cleanup :: "objects \<Rightarrow> cache_state \<Rightarrow> cache_state" where
  "cleanup v s = s\<lparr>disposed := disposed s @ objects_resources v\<rparr>"

text \<open>The dependencies of the effect, line 59: the three primitives, by reference.\<close>

definition same_prims :: "objects \<Rightarrow> objects \<Rightarrow> bool" where
  "same_prims v w =
     (map_option prim_id (obj_atoms v) = map_option prim_id (obj_atoms w) \<and>
      map_option prim_id (obj_bonds v) = map_option prim_id (obj_bonds w) \<and>
      map_option prim_id (obj_backbone v) = map_option prim_id (obj_backbone w))"

text \<open>
  \<open>useMemo\<close>: the first pass computes; a later pass recomputes when a dependency differs
  under \<open>Object.is\<close> and otherwise returns the cached value.
\<close>

definition use_memo ::
  "builders \<Rightarrow> MolScene option \<Rightarrow> SceneBuildOptions \<Rightarrow> cache_state \<Rightarrow> objects \<times> cache_state" where
  "use_memo B scene opts s =
     (let d = (scene, atoms opts, bonds opts, backbone opts) in
      (case memo s of
         None \<Rightarrow> (let (v, s') = factory B scene opts s in (v, s'\<lparr>memo := Some (d, v)\<rparr>))
       | Some (d0, v0) \<Rightarrow>
           (if deps_same d0 d then (v0, s)
            else (let (v, s') = factory B scene opts s in (v, s'\<lparr>memo := Some (d, v)\<rparr>)))))"

text \<open>
  \<open>useEffect\<close> at commit: the first pass installs the cleanup; a later pass whose
  dependencies differ runs the previous cleanup and installs the new one.
\<close>

definition use_effect :: "objects \<Rightarrow> cache_state \<Rightarrow> cache_state" where
  "use_effect v s =
     (case effect s of
        None \<Rightarrow> s\<lparr>effect := Some v\<rparr>
      | Some v0 \<Rightarrow> (if same_prims v0 v then s else (cleanup v0 s)\<lparr>effect := Some v\<rparr>))"

text \<open>One render pass of \<open>useSceneObjects\<close>, committed.\<close>

definition useSceneObjects ::
  "builders \<Rightarrow> MolScene option \<Rightarrow> SceneBuildOptions \<Rightarrow> cache_state \<Rightarrow> objects \<times> cache_state" where
  "useSceneObjects B scene opts s =
     (let (v, s') = use_memo B scene opts s in (v, use_effect v s'))"

text \<open>Unmounting runs the installed cleanup.\<close>

definition cache_unmount :: "cache_state \<Rightarrow> cache_state" where
  "cache_unmount s =
     (case effect s of None \<Rightarrow> s | Some v \<Rightarrow> (cleanup v s)\<lparr>effect := None\<rparr>)"

section \<open>The ribbon group\<close>

text \<open>A \<open>Group\<close> with its identity, or \<open>null\<close>.\<close>

type_synonym cartoon = "(addr \<times> obj3d) option"

type_synonym cartoon_deps = "MolScene option \<times> representation \<times> material_kind \<times> number"

text \<open>
  The state of the ribbon path of \<open>MoleculeView\<close>: the allocator of group identities, the
  builder calls, the groups built, the cleanups run (the group and the resources each
  released, in order), and the cells of \<open>useMemo\<close> and \<open>useEffect\<close>.
\<close>

record ribbon_state =
  next_group :: addr
  r_calls :: "builder_call list"
  r_built :: "(addr \<times> obj3d) list"
  r_disposed :: "(addr \<times> addr list) list"
  cartoon_memo :: "(cartoon_deps \<times> cartoon) option"
  cartoon_effect :: "cartoon option"

definition ribbon_init :: ribbon_state where
  "ribbon_init = \<lparr> next_group = 0, r_calls = [], r_built = [], r_disposed = [],
     cartoon_memo = None, cartoon_effect = None \<rparr>"

definition build_group ::
  "builder_call \<Rightarrow> obj3d option \<Rightarrow> ribbon_state \<Rightarrow> cartoon \<times> ribbon_state" where
  "build_group c r s =
     (case r of
        None \<Rightarrow> (None, s\<lparr>r_calls := r_calls s @ [c]\<rparr>)
      | Some t \<Rightarrow>
          (let n = next_group s in
           (Some (n, t),
            s\<lparr> next_group := n + 1, r_calls := r_calls s @ [c], r_built := r_built s @ [(n, t)] \<rparr>)))"

text \<open>Lines 124 to 145: the function given to \<open>useMemo\<close> for the ribbon.\<close>

definition cartoon_factory ::
  "builders \<Rightarrow> cartoon_deps \<Rightarrow> ribbon_state \<Rightarrow> cartoon \<times> ribbon_state" where
  "cartoon_factory B d s =
     (case d of (scene, rep, kind, thickness) \<Rightarrow>
        (case scene of
           None \<Rightarrow> (None, s)
         | Some sc \<Rightarrow>
             (if rep = RibbonTube then build_group (MakeRibbon sc kind) (makeRibbonMesh B sc kind) s
              else if rep = RibbonFlat then
                build_group (MakeFlatRibbon sc kind thickness) (makeFlatRibbonMesh B sc kind thickness) s
              else (None, s))))"

text \<open>\<open>Object3D.traverse\<close>: the node itself, then each child's subtree.\<close>

fun traverse :: "obj3d \<Rightarrow> obj3d list" where
  "traverse (Obj3d m cs) = Obj3d m cs # concat (map traverse cs)"

fun mats_list :: "mats \<Rightarrow> addr list" where
  "mats_list (Single a) = [a]"
| "mats_list (Multi xs) = xs"

text \<open>Lines 153 to 159: what the cleanup's callback releases at one node.\<close>

definition dispose_node :: "obj3d \<Rightarrow> addr list" where
  "dispose_node n = (case mesh_of n of None \<Rightarrow> [] | Some (g, ms) \<Rightarrow> g # mats_list ms)"

definition dispose_tree :: "obj3d \<Rightarrow> addr list" where
  "dispose_tree t = concat (map dispose_node (traverse t))"

definition cartoon_cleanup :: "cartoon \<Rightarrow> ribbon_state \<Rightarrow> ribbon_state" where
  "cartoon_cleanup c s =
     (case c of
        None \<Rightarrow> s
      | Some (n, t) \<Rightarrow> s\<lparr>r_disposed := r_disposed s @ [(n, dispose_tree t)]\<rparr>)"

definition cartoon_memo_step ::
  "builders \<Rightarrow> cartoon_deps \<Rightarrow> ribbon_state \<Rightarrow> cartoon \<times> ribbon_state" where
  "cartoon_memo_step B d s =
     (case cartoon_memo s of
        None \<Rightarrow> (let (v, s') = cartoon_factory B d s in (v, s'\<lparr>cartoon_memo := Some (d, v)\<rparr>))
      | Some (d0, v0) \<Rightarrow>
          (if d0 = d then (v0, s)
           else (let (v, s') = cartoon_factory B d s in (v, s'\<lparr>cartoon_memo := Some (d, v)\<rparr>))))"

definition cartoon_effect_step :: "cartoon \<Rightarrow> ribbon_state \<Rightarrow> ribbon_state" where
  "cartoon_effect_step v s =
     (case cartoon_effect s of
        None \<Rightarrow> s\<lparr>cartoon_effect := Some v\<rparr>
      | Some v0 \<Rightarrow>
          (if map_option fst v0 = map_option fst v then s
           else (cartoon_cleanup v0 s)\<lparr>cartoon_effect := Some v\<rparr>))"

definition useCartoon :: "builders \<Rightarrow> cartoon_deps \<Rightarrow> ribbon_state \<Rightarrow> cartoon \<times> ribbon_state" where
  "useCartoon B d s = (let (v, s') = cartoon_memo_step B d s in (v, cartoon_effect_step v s'))"

definition ribbon_unmount :: "ribbon_state \<Rightarrow> ribbon_state" where
  "ribbon_unmount s =
     (case cartoon_effect s of
        None \<Rightarrow> s
      | Some v \<Rightarrow> (cartoon_cleanup v s)\<lparr>cartoon_effect := None\<rparr>)"

section \<open>The controls of MoleculeView and what it derives from them\<close>

record controls =
  common_representation :: representation
  common_materialKind :: material_kind
  overlays_atoms :: bool
  overlays_bonds :: bool
  overlays_backbone :: bool
  spheres_sphereDetail :: number
  spheres_radiusScale :: number
  ribbon_thickness :: number

text \<open>
  Lines 115 to 121: the argument of \<open>useSceneObjects\<close>. Each object literal is evaluated
  anew in every render pass, so each pass allocates it at a fresh address \<open>n\<close>.
\<close>

definition derive_opts :: "controls \<Rightarrow> addr \<Rightarrow> SceneBuildOptions \<times> addr" where
  "derive_opts c n =
     (let (a, n1) =
            (if overlays_atoms c \<and> common_representation c = Spheres then
               (Obj n \<lparr> sphereDetail = Some (spheres_sphereDetail c),
                         materialKind = Some (common_materialKind c),
                         radiusScale = Some (spheres_radiusScale c) \<rparr>, n + 1)
             else (Off, n));
          (k, n2) =
            (if overlays_backbone c \<and> common_representation c = Spheres then
               (Obj n1 \<lparr> color = None \<rparr>, n1 + 1)
             else (Off, n1))
      in (\<lparr> atoms = a, bonds = overlays_bonds c, backbone = k \<rparr>, n2))"

definition cartoon_deps_of :: "MolScene option \<Rightarrow> controls \<Rightarrow> cartoon_deps" where
  "cartoon_deps_of scene c =
     (scene, common_representation c, common_materialKind c, ribbon_thickness c)"

text \<open>Lines 246 to 261: the children handed to the content group.\<close>

datatype child = ShowCartoon addr | ShowAtoms prim | ShowBonds prim | ShowBackbone prim

definition shown :: "(prim \<Rightarrow> child) \<Rightarrow> prim option \<Rightarrow> child list" where
  "shown f p = (case p of None \<Rightarrow> [] | Some q \<Rightarrow> [f q])"

definition displayed :: "controls \<Rightarrow> cartoon \<Rightarrow> objects \<Rightarrow> child list" where
  "displayed c cartoon v =
     (case cartoon of
        None \<Rightarrow> []
      | Some (n, t) \<Rightarrow>
          (if common_representation c \<noteq> Spheres then
             ShowCartoon n
             # (if overlays_bonds c then shown ShowBonds (obj_bonds v) else [])
             @ (if overlays_backbone c then shown ShowBackbone (obj_backbone v) else [])
           else []))
     @ (if common_representation c = Spheres then
          shown ShowAtoms (obj_atoms v) @ shown ShowBonds (obj_bonds v)
          @ shown ShowBackbone (obj_backbone v)
        else [])"

section \<open>The camera-fit controller\<close>

text \<open>The object returned by \<open>useBounds\<close>; the effects depend on its identity only.\<close>

type_synonym api = addr

text \<open>
  What \<open>api.refresh(...).fit()\<close> does is decided outside the component: it throws, or it
  frames the camera at some pose. The outcome is an input of the event that runs the call.
\<close>

datatype fit_outcome = FitThrows | FitOk nat

datatype origin = Initial | Reload
datatype scope = Whole | Content

datatype fit_event =
    ComputeBoundingBox addr
  | ComputeBoundingSphere addr
  | Fit origin scope fit_outcome

text \<open>How a piece of code ends: it returns, or an exception leaves it.\<close>

datatype completion = Returned | Threw

text \<open>The callbacks given to \<open>requestAnimationFrame\<close>, each with the closure it belongs to.\<close>

datatype raf_cb = Raf1 nat | DoFit nat

text \<open>The variables one run of the reload effect declares (line 186) and closes over.\<close>

record raf_env =
  raf1 :: nat
  raf2 :: nat
  raf3 :: nat
  env_sourceUrl :: string

type_synonym reload_deps = "MolScene option \<times> string \<times> bool \<times> api"

text \<open>
  The refs \<open>did\<close> and \<open>lastFittedSource\<close>, the camera pose, the browser's pending timeouts
  and animation-frame callbacks (handles are positive), the closures of the reload effect,
  the two effect cells (dependencies, and what the installed cleanup closes over; \<open>None\<close>
  there when the effect returned no cleanup), the calls made, and the number of exceptions
  that left a callback.
\<close>

record fit_state =
  did :: bool
  lastFittedSource :: "string option"
  camera :: nat
  next_handle :: nat
  timeouts :: "nat list"
  rafs :: "(nat \<times> raf_cb) list"
  envs :: "nat \<Rightarrow> raf_env"
  next_env :: nat
  initial_effect :: "(api \<times> nat option) option"
  reload_effect :: "(reload_deps \<times> nat option) option"
  fit_log :: "fit_event list"
  uncaught :: nat

definition fit_init :: fit_state where
  "fit_init = \<lparr> did = False, lastFittedSource = None, camera = 0, next_handle = 1,
     timeouts = [], rafs = [],
     envs = (\<lambda>g. \<lparr> raf1 = 0, raf2 = 0, raf3 = 0, env_sourceUrl = [] \<rparr>), next_env = 0,
     initial_effect = None, reload_effect = None, fit_log = [], uncaught = 0 \<rparr>"

definition request_frame :: "raf_cb \<Rightarrow> fit_state \<Rightarrow> nat \<times> fit_state" where
  "request_frame cb s =
     (let h = next_handle s in (h, s\<lparr>rafs := rafs s @ [(h, cb)], next_handle := h + 1\<rparr>))"

definition cancel_frame :: "nat \<Rightarrow> fit_state \<Rightarrow> fit_state" where
  "cancel_frame h s = s\<lparr>rafs := filter (\<lambda>p. fst p \<noteq> h) (rafs s)\<rparr>"

definition set_timeout :: "fit_state \<Rightarrow> nat \<times> fit_state" where
  "set_timeout s =
     (let t = next_handle s in (t, s\<lparr>timeouts := timeouts s @ [t], next_handle := t + 1\<rparr>))"

definition clear_timeout :: "nat \<Rightarrow> fit_state \<Rightarrow> fit_state" where
  "clear_timeout t s = s\<lparr>timeouts := filter (\<lambda>h. h \<noteq> t) (timeouts s)\<rparr>"

definition api_refresh_fit ::
  "origin \<Rightarrow> scope \<Rightarrow> fit_outcome \<Rightarrow> fit_state \<Rightarrow> completion \<times> fit_state" where
  "api_refresh_fit og sc out s =
     (case out of
        FitThrows \<Rightarrow> (Threw, s\<lparr>fit_log := fit_log s @ [Fit og sc out]\<rparr>)
      | FitOk pose \<Rightarrow> (Returned, s\<lparr>camera := pose, fit_log := fit_log s @ [Fit og sc out]\<rparr>))"

text \<open>Sequencing: the rest runs only when the first part returned.\<close>

definition then_do ::
  "completion \<times> fit_state \<Rightarrow> (fit_state \<Rightarrow> completion \<times> fit_state) \<Rightarrow> completion \<times> fit_state" where
  "then_do r f = (case r of (Threw, s) \<Rightarrow> (Threw, s) | (Returned, s) \<Rightarrow> f s)"

text \<open>\<open>try { ... } catch { }\<close> with an empty handler.\<close>

definition try_catch :: "completion \<times> fit_state \<Rightarrow> completion \<times> fit_state" where
  "try_catch r = (case r of (Threw, s) \<Rightarrow> (Returned, s) | (Returned, s) \<Rightarrow> (Returned, s))"

text \<open>Lines 174 to 177: the callback of the initial fit's timeout.\<close>

definition initial_fit_callback :: "fit_outcome \<Rightarrow> fit_state \<Rightarrow> completion \<times> fit_state" where
  "initial_fit_callback out s =
     then_do (try_catch (api_refresh_fit Initial Whole out s))
       (\<lambda>s1. (Returned, s1\<lparr>did := True\<rparr>))"

text \<open>Lines 196 to 202: the bounds recomputed at each mesh of the content subtree.\<close>

definition bounds_node :: "obj3d \<Rightarrow> fit_event list" where
  "bounds_node n =
     (case mesh_of n of None \<Rightarrow> [] | Some (g, ms) \<Rightarrow> [ComputeBoundingBox g, ComputeBoundingSphere g])"

definition compute_bounds :: "obj3d \<Rightarrow> fit_state \<Rightarrow> fit_state" where
  "compute_bounds r s = s\<lparr>fit_log := fit_log s @ concat (map bounds_node (traverse r))\<rparr>"

definition set_raf2 :: "nat \<Rightarrow> nat \<Rightarrow> fit_state \<Rightarrow> fit_state" where
  "set_raf2 g h s = s\<lparr>envs := (envs s)(g := (envs s g)\<lparr>raf2 := h\<rparr>)\<rparr>"

definition set_raf3 :: "nat \<Rightarrow> nat \<Rightarrow> fit_state \<Rightarrow> fit_state" where
  "set_raf3 g h s = s\<lparr>envs := (envs s)(g := (envs s g)\<lparr>raf3 := h\<rparr>)\<rparr>"

definition record_fitted :: "nat \<Rightarrow> fit_state \<Rightarrow> fit_state" where
  "record_fitted g s = s\<lparr>lastFittedSource := Some (env_sourceUrl (envs s g))\<rparr>"

text \<open>
  Lines 189 to 207, the body of the \<open>try\<close> in \<open>doFit\<close>, for closure \<open>g\<close>; \<open>cur\<close> is
  \<open>contentRef.current\<close> when the callback runs.
\<close>

definition doFit_try ::
  "nat \<Rightarrow> obj3d option \<Rightarrow> fit_outcome \<Rightarrow> fit_state \<Rightarrow> completion \<times> fit_state" where
  "doFit_try g cur out s =
     (case cur of
        Some r \<Rightarrow>
          (if children r = [] then
             (let (h, s1) = request_frame (DoFit g) s in (Returned, set_raf3 g h s1))
           else
             then_do (api_refresh_fit Reload Content out (compute_bounds r s))
               (\<lambda>s2. (Returned, record_fitted g s2)))
      | None \<Rightarrow>
          then_do (api_refresh_fit Reload Whole out s) (\<lambda>s2. (Returned, record_fitted g s2)))"

definition doFit :: "nat \<Rightarrow> obj3d option \<Rightarrow> fit_outcome \<Rightarrow> fit_state \<Rightarrow> completion \<times> fit_state" where
  "doFit g cur out s = try_catch (doFit_try g cur out s)"

text \<open>Lines 211 to 213: the first frame's callback requests the second frame.\<close>

definition raf1_callback :: "nat \<Rightarrow> fit_state \<Rightarrow> completion \<times> fit_state" where
  "raf1_callback g s = (let (h, s1) = request_frame (DoFit g) s in (Returned, set_raf2 g h s1))"

definition run_raf_cb ::
  "obj3d option \<Rightarrow> fit_outcome \<Rightarrow> raf_cb \<Rightarrow> fit_state \<Rightarrow> completion \<times> fit_state" where
  "run_raf_cb cur out cb s =
     (case cb of Raf1 g \<Rightarrow> raf1_callback g s | DoFit g \<Rightarrow> doFit g cur out s)"

text \<open>The event loop: an exception that leaves a callback is reported, and counted here.\<close>

definition dispatch :: "completion \<times> fit_state \<Rightarrow> fit_state" where
  "dispatch r = (case r of (Threw, s) \<Rightarrow> s\<lparr>uncaught := uncaught s + 1\<rparr> | (Returned, s) \<Rightarrow> s)"

text \<open>
  An animation frame runs the callbacks that were pending when it began; what they request
  waits for the next frame.
\<close>

definition frame :: "obj3d option \<Rightarrow> fit_outcome \<Rightarrow> fit_state \<Rightarrow> fit_state" where
  "frame cur out s =
     fold (\<lambda>p s'. dispatch (run_raf_cb cur out (snd p) s')) (rafs s) (s\<lparr>rafs := []\<rparr>)"

definition timeout_fire :: "fit_outcome \<Rightarrow> fit_state \<Rightarrow> fit_state" where
  "timeout_fire out s =
     fold (\<lambda>t s'. dispatch (initial_fit_callback out s')) (timeouts s) (s\<lparr>timeouts := []\<rparr>)"

text \<open>Lines 172 to 179: the initial-fit effect; it returns the handle its cleanup clears.\<close>

definition initial_effect_body :: "fit_state \<Rightarrow> fit_state \<times> nat option" where
  "initial_effect_body s =
     (if did s then (s, None) else (let (t, s1) = set_timeout s in (s1, Some t)))"

definition initial_cleanup :: "nat option \<Rightarrow> fit_state \<Rightarrow> fit_state" where
  "initial_cleanup cl s = (case cl of None \<Rightarrow> s | Some t \<Rightarrow> clear_timeout t s)"

text \<open>Lines 183 to 219: the reload effect; it returns the closure its cleanup reads.\<close>

definition reload_effect_body :: "reload_deps \<Rightarrow> fit_state \<Rightarrow> fit_state \<times> nat option" where
  "reload_effect_body d s =
     (case d of (scene, sourceUrl, loading, a) \<Rightarrow>
        (if scene = None \<or> loading then (s, None)
         else if lastFittedSource s = Some sourceUrl then (s, None)
         else
           (let g = next_env s;
                s0 = s\<lparr> envs := (envs s)(g := \<lparr> raf1 = 0, raf2 = 0, raf3 = 0,
                                                  env_sourceUrl = sourceUrl \<rparr>),
                        next_env := g + 1 \<rparr>;
                (h, s1) = request_frame (Raf1 g) s0
            in (s1\<lparr>envs := (envs s1)(g := (envs s1 g)\<lparr>raf1 := h\<rparr>)\<rparr>, Some g))))"

definition cancel_if :: "nat \<Rightarrow> fit_state \<Rightarrow> fit_state" where
  "cancel_if h s = (if h \<noteq> 0 then cancel_frame h s else s)"

definition reload_cleanup :: "nat option \<Rightarrow> fit_state \<Rightarrow> fit_state" where
  "reload_cleanup cl s =
     (case cl of
        None \<Rightarrow> s
      | Some g \<Rightarrow>
          cancel_if (raf3 (envs s g)) (cancel_if (raf2 (envs s g)) (cancel_if (raf1 (envs s g)) s)))"

text \<open>
  Committing a render pass: an effect runs on the first pass and whenever one of its
  dependencies differs from the previous pass; the cleanups of the effects that run again
  come first, then their bodies.
\<close>

definition initial_changed :: "api \<Rightarrow> fit_state \<Rightarrow> bool" where
  "initial_changed a s = (case initial_effect s of None \<Rightarrow> True | Some (a0, cl) \<Rightarrow> a0 \<noteq> a)"

definition reload_changed :: "reload_deps \<Rightarrow> fit_state \<Rightarrow> bool" where
  "reload_changed d s = (case reload_effect s of None \<Rightarrow> True | Some (d0, cl) \<Rightarrow> d0 \<noteq> d)"

definition installed_initial :: "fit_state \<Rightarrow> nat option" where
  "installed_initial s = (case initial_effect s of None \<Rightarrow> None | Some (a0, cl) \<Rightarrow> cl)"

definition installed_reload :: "fit_state \<Rightarrow> nat option" where
  "installed_reload s = (case reload_effect s of None \<Rightarrow> None | Some (d0, cl) \<Rightarrow> cl)"

definition run_initial :: "api \<Rightarrow> fit_state \<Rightarrow> fit_state" where
  "run_initial a s = (let (s1, cl) = initial_effect_body s in s1\<lparr>initial_effect := Some (a, cl)\<rparr>)"

definition run_reload :: "reload_deps \<Rightarrow> fit_state \<Rightarrow> fit_state" where
  "run_reload d s = (let (s1, cl) = reload_effect_body d s in s1\<lparr>reload_effect := Some (d, cl)\<rparr>)"

definition fit_commit :: "reload_deps \<Rightarrow> fit_state \<Rightarrow> fit_state" where
  "fit_commit d s =
     (let a = snd (snd (snd d));
          ci = initial_changed a s;
          cr = reload_changed d s;
          s1 = (if ci then initial_cleanup (installed_initial s) s else s);
          s2 = (if cr then reload_cleanup (installed_reload s1) s1 else s1);
          s3 = (if ci then run_initial a s2 else s2)
      in (if cr then run_reload d s3 else s3))"

definition fit_unmount :: "fit_state \<Rightarrow> fit_state" where
  "fit_unmount s =
     (reload_cleanup (installed_reload s) (initial_cleanup (installed_initial s) s))
       \<lparr>initial_effect := None, reload_effect := None\<rparr>"

section \<open>MoleculeView\<close>

text \<open>
  What a render pass reads: the controls, the source identifier (component state), what
  \<open>useMolScene\<close> returned, and the object \<open>useBounds\<close> returned. The parse controls
  only feed \<open>useMolScene\<close>, and the background colour only feeds the page and the canvas
  (lines 164 to 166 and 238); neither is modelled.
\<close>

record render_input =
  in_controls :: controls
  in_sourceUrl :: string
  in_scene :: "MolScene option"
  in_loading :: bool
  in_api :: api

record view_state =
  next_obj :: addr
  cache :: cache_state
  ribbon :: ribbon_state
  fitc :: fit_state
  cur_objects :: objects
  cur_cartoon :: cartoon
  content :: "child list"

definition view_init :: view_state where
  "view_init = \<lparr> next_obj = 0, cache = cache_init, ribbon = ribbon_init, fitc = fit_init,
     cur_objects = \<lparr> obj_atoms = None, obj_bonds = None, obj_backbone = None \<rparr>,
     cur_cartoon = None, content = [] \<rparr>"

definition reload_deps_of :: "render_input \<Rightarrow> reload_deps" where
  "reload_deps_of i = (in_scene i, in_sourceUrl i, in_loading i, in_api i)"

text \<open>One render pass of \<open>MoleculeView\<close>, committed.\<close>

definition MoleculeView :: "builders \<Rightarrow> render_input \<Rightarrow> view_state \<Rightarrow> view_state" where
  "MoleculeView B i s =
     (let (opts, n) = derive_opts (in_controls i) (next_obj s);
          (v, c) = useSceneObjects B (in_scene i) opts (cache s);
          (k, r) = useCartoon B (cartoon_deps_of (in_scene i) (in_controls i)) (ribbon s)
      in \<lparr> next_obj = n, cache = c, ribbon = r, fitc = fit_commit (reload_deps_of i) (fitc s),
           cur_objects = v, cur_cartoon = k, content = displayed (in_controls i) k v \<rparr>)"

datatype event = Render render_input | Timeout fit_outcome | Frame "obj3d option" fit_outcome

fun step :: "builders \<Rightarrow> event \<Rightarrow> view_state \<Rightarrow> view_state" where
  "step B (Render i) s = MoleculeView B i s"
| "step B (Timeout out) s = s\<lparr>fitc := timeout_fire out (fitc s)\<rparr>"
| "step B (Frame cur out) s = s\<lparr>fitc := frame cur out (fitc s)\<rparr>"

definition run :: "builders \<Rightarrow> event list \<Rightarrow> view_state \<Rightarrow> view_state" where
  "run B evs s = fold (step B) evs s"

definition view_unmount :: "view_state \<Rightarrow> view_state" where
  "view_unmount s =
     s\<lparr> cache := cache_unmount (cache s), ribbon := ribbon_unmount (ribbon s),
        fitc := fit_unmount (fitc s), content := [] \<rparr>"

section \<open>Notions used in the statements\<close>

subsection \<open>What the memo cells hold\<close>

text \<open>
  An atom primitive without per-vertex colours and with no colour but white.
\<close>

definition white_ok :: "prim option \<Rightarrow> bool" where
  "white_ok p =
     (case p of
        None \<Rightarrow> True
      | Some q \<Rightarrow>
          mat_vertexColors (material q) \<noteq> Some True \<and>
          (mat_color (material q) = None \<or> mat_color (material q) = Some ''#ffffff''))"

text \<open>
  Whether bonds come out of a build: there is a scene, the flag is on and \<open>makeBondLines\<close>
  returns them.
\<close>

definition bonds_built :: "builders \<Rightarrow> MolScene option \<Rightarrow> bool \<Rightarrow> bool" where
  "bonds_built B scene b =
     (case scene of None \<Rightarrow> False | Some sc \<Rightarrow> b \<and> makeBondLines B sc \<noteq> None)"

text \<open>
  The objects fit the dependencies they were built for: atoms and backbone exist only
  with a scene and enabled options, bonds exist exactly when they are built, atoms are
  white.
\<close>

fun slots_ok :: "builders \<Rightarrow> memo_deps \<Rightarrow> objects \<Rightarrow> bool" where
  "slots_ok B (scene, a, b, k) v =
     ((obj_atoms v \<noteq> None \<longrightarrow> scene \<noteq> None \<and> a \<noteq> Off) \<and>
      (obj_backbone v \<noteq> None \<longrightarrow> scene \<noteq> None \<and> k \<noteq> Off) \<and>
      (obj_bonds v \<noteq> None) = bonds_built B scene b \<and>
      white_ok (obj_atoms v))"

definition memo_ok :: "builders \<Rightarrow> cache_state \<Rightarrow> bool" where
  "memo_ok B s = (case memo s of None \<Rightarrow> True | Some (d, v) \<Rightarrow> slots_ok B d v)"

text \<open>
  The ribbon group exists only with a scene and a ribbon representation.
\<close>

fun cartoon_ok :: "cartoon_deps \<Rightarrow> cartoon \<Rightarrow> bool" where
  "cartoon_ok (scene, rep, kind, thickness) v =
     (v \<noteq> None \<longrightarrow> scene \<noteq> None \<and> (rep = RibbonTube \<or> rep = RibbonFlat))"

definition cartoon_memo_ok :: "ribbon_state \<Rightarrow> bool" where
  "cartoon_memo_ok s = (case cartoon_memo s of None \<Rightarrow> True | Some (d, v) \<Rightarrow> cartoon_ok d v)"

definition gate_inv :: "builders \<Rightarrow> view_state \<Rightarrow> bool" where
  "gate_inv B s = (memo_ok B (cache s) \<and> cartoon_memo_ok (ribbon s))"

text \<open>Whether the ribbon factory yields a group for its dependencies.\<close>

fun group_built :: "builders \<Rightarrow> cartoon_deps \<Rightarrow> bool" where
  "group_built B (scene, rep, kind, thickness) =
     (case scene of
        None \<Rightarrow> False
      | Some sc \<Rightarrow>
          (rep = RibbonTube \<and> makeRibbonMesh B sc kind \<noteq> None) \<or>
          (rep = RibbonFlat \<and> makeFlatRibbonMesh B sc kind thickness \<noteq> None))"

definition cartoon_exact :: "builders \<Rightarrow> ribbon_state \<Rightarrow> bool" where
  "cartoon_exact B s =
     (\<forall>d v. cartoon_memo s = Some (d, v) \<longrightarrow> (v \<noteq> None) = group_built B d)"

text \<open>
  The builder calls one run of the factory makes, and those of the ribbon factory.
\<close>

definition requested :: "MolScene option \<Rightarrow> SceneBuildOptions \<Rightarrow> builder_call list" where
  "requested scene opts =
     (case scene of
        None \<Rightarrow> []
      | Some sc \<Rightarrow>
          (case atoms opts of
             Off \<Rightarrow> []
           | Obj i ao \<Rightarrow> (case atoms_args ao of (d, k, r) \<Rightarrow> [MakeAtoms sc d k r]))
          @ (if bonds opts then [MakeBonds sc] else [])
          @ (case backbone opts of
               Off \<Rightarrow> []
             | Obj i bo \<Rightarrow> [MakeBackbone sc (case color bo of None \<Rightarrow> 16777215 | Some c \<Rightarrow> c)]))"

fun ribbon_requested :: "cartoon_deps \<Rightarrow> builder_call list" where
  "ribbon_requested (scene, rep, kind, thickness) =
     (case scene of
        None \<Rightarrow> []
      | Some sc \<Rightarrow>
          (if rep = RibbonTube then [MakeRibbon sc kind]
           else if rep = RibbonFlat then [MakeFlatRibbon sc kind thickness]
           else []))"

text \<open>
  Whether \<open>useMemo\<close> finds its dependencies unchanged under \<open>Object.is\<close>.
\<close>

definition memo_hit :: "memo_deps \<Rightarrow> cache_state \<Rightarrow> bool" where
  "memo_hit d s = (case memo s of None \<Rightarrow> False | Some (d0, v0) \<Rightarrow> deps_same d0 d)"

definition cartoon_hit :: "cartoon_deps \<Rightarrow> ribbon_state \<Rightarrow> bool" where
  "cartoon_hit d s = (case cartoon_memo s of None \<Rightarrow> False | Some (d0, v0) \<Rightarrow> d0 = d)"

subsection \<open>Who holds which resources\<close>

text \<open>
  What one build step leaves behind: it touches neither cell nor the disposals, and what
  it returns is allocated at the next three addresses.
\<close>

definition built :: "prim option \<Rightarrow> cache_state \<Rightarrow> cache_state \<Rightarrow> bool" where
  "built p s s' =
     (memo s' = memo s \<and> effect s' = effect s \<and> disposed s' = disposed s \<and>
      created s' = created s @ prim_resources p \<and>
      (case p of
         None \<Rightarrow> next_addr s' = next_addr s
       | Some q \<Rightarrow>
           prim_id q = next_addr s \<and> geometry q = next_addr s + 1 \<and>
           mat_res (material q) = next_addr s + 2 \<and> next_addr s' = next_addr s + 3))"

text \<open>
  The identities of the primitives lie below, or from, an address.
\<close>

definition prims_below :: "addr \<Rightarrow> objects \<Rightarrow> bool" where
  "prims_below n v =
     ((case obj_atoms v of None \<Rightarrow> True | Some p \<Rightarrow> prim_id p < n) \<and>
      (case obj_bonds v of None \<Rightarrow> True | Some p \<Rightarrow> prim_id p < n) \<and>
      (case obj_backbone v of None \<Rightarrow> True | Some p \<Rightarrow> prim_id p < n))"

definition prims_from :: "addr \<Rightarrow> objects \<Rightarrow> bool" where
  "prims_from n v =
     ((case obj_atoms v of None \<Rightarrow> True | Some p \<Rightarrow> n \<le> prim_id p) \<and>
      (case obj_bonds v of None \<Rightarrow> True | Some p \<Rightarrow> n \<le> prim_id p) \<and>
      (case obj_backbone v of None \<Rightarrow> True | Some p \<Rightarrow> n \<le> prim_id p))"

text \<open>
  What one run of the factory leaves behind: the objects are new and their resources are
  new, distinct and appended to the creations.
\<close>

definition fresh :: "objects \<Rightarrow> cache_state \<Rightarrow> cache_state \<Rightarrow> bool" where
  "fresh v s s' =
     (memo s' = memo s \<and> effect s' = effect s \<and> disposed s' = disposed s \<and>
      created s' = created s @ objects_resources v \<and>
      next_addr s \<le> next_addr s' \<and>
      prims_from (next_addr s) v \<and> prims_below (next_addr s') v \<and>
      (\<forall>a \<in> set (objects_resources v). next_addr s \<le> a \<and> a < next_addr s') \<and>
      distinct (objects_resources v))"

text \<open>
  Some primitive has the same identity in both sets.
\<close>

definition shares_prim :: "objects \<Rightarrow> objects \<Rightarrow> bool" where
  "shares_prim v w =
     ((\<exists>p q. obj_atoms v = Some p \<and> obj_atoms w = Some q \<and> prim_id p = prim_id q) \<or>
      (\<exists>p q. obj_bonds v = Some p \<and> obj_bonds w = Some q \<and> prim_id p = prim_id q) \<or>
      (\<exists>p q. obj_backbone v = Some p \<and> obj_backbone w = Some q \<and> prim_id p = prim_id q))"

text \<open>
  What the installed cleanup closes over: its resources, the objects, the ribbon group and
  what its traversal will release.
\<close>

definition held :: "cache_state \<Rightarrow> addr list" where
  "held s = (case effect s of None \<Rightarrow> [] | Some v \<Rightarrow> objects_resources v)"

definition held_objects :: "cache_state \<Rightarrow> objects" where
  "held_objects s =
     (case effect s of
        None \<Rightarrow> \<lparr> obj_atoms = None, obj_bonds = None, obj_backbone = None \<rparr>
      | Some v \<Rightarrow> v)"

definition held_cartoon :: "ribbon_state \<Rightarrow> cartoon" where
  "held_cartoon s = (case cartoon_effect s of None \<Rightarrow> None | Some k \<Rightarrow> k)"

definition group_release :: "cartoon \<Rightarrow> (addr \<times> addr list) list" where
  "group_release k = (case k of None \<Rightarrow> [] | Some (n, t) \<Rightarrow> [(n, dispose_tree t)])"

text \<open>
  The cleanup closes over the memoized objects; every resource created is either disposed
  or held, never both and never twice; nothing created lies beyond the allocator.
\<close>

definition res_inv :: "cache_state \<Rightarrow> bool" where
  "res_inv s =
     (effect s = map_option snd (memo s) \<and>
      created s = disposed s @ held s \<and>
      distinct (created s) \<and>
      (\<forall>a \<in> set (created s). a < next_addr s) \<and>
      (case effect s of None \<Rightarrow> True | Some v \<Rightarrow> prims_below (next_addr s) v))"

definition ribbon_inv :: "ribbon_state \<Rightarrow> bool" where
  "ribbon_inv s =
     (cartoon_effect s = map_option snd (cartoon_memo s) \<and>
      map (\<lambda>g. (fst g, dispose_tree (snd g))) (r_built s) =
        r_disposed s @ group_release (held_cartoon s) \<and>
      distinct (map fst (r_built s)) \<and>
      (\<forall>n \<in> set (map fst (r_built s)). n < next_group s))"

definition own_inv :: "view_state \<Rightarrow> bool" where
  "own_inv s =
     (res_inv (cache s) \<and> ribbon_inv (ribbon s) \<and>
      cur_objects s = held_objects (cache s) \<and> cur_cartoon s = held_cartoon (ribbon s))"

text \<open>The group a pass returns is one of the groups built.\<close>

definition group_kept :: "view_state \<Rightarrow> bool" where
  "group_kept s =
     (\<forall>g. cur_cartoon s = Some g \<longrightarrow> g \<in> set (r_built (ribbon s)))"

subsection \<open>The state of the fit controller\<close>

text \<open>
  The number of initial fits in a log.
\<close>

fun is_initial :: "fit_event \<Rightarrow> bool" where
  "is_initial (Fit og sc out) = (og = Initial)"
| "is_initial (ComputeBoundingBox g) = False"
| "is_initial (ComputeBoundingSphere g) = False"

definition count_initial :: "fit_event list \<Rightarrow> nat" where
  "count_initial l = length (filter is_initial l)"

text \<open>
  The closure of a callback, and whether that closure's variables hold a handle for it.
\<close>

fun cb_env :: "raf_cb \<Rightarrow> nat" where
  "cb_env (Raf1 g) = g"
| "cb_env (DoFit g) = g"

fun handle_held :: "raf_cb \<Rightarrow> raf_env \<Rightarrow> nat \<Rightarrow> bool" where
  "handle_held (Raf1 g) e h = (raf1 e = h)"
| "handle_held (DoFit g) e h = (raf2 e = h \<or> raf3 e = h)"

text \<open>
  The source of the last run of the reload effect.
\<close>

definition current_source :: "fit_state \<Rightarrow> string" where
  "current_source s =
     (case reload_effect s of None \<Rightarrow> [] | Some (d, cl) \<Rightarrow> fst (snd d))"

text \<open>
  The pending timeout, if any, is the one the installed cleanup clears; none is pending
  once \<open>did\<close> is set; the log holds one initial fit if \<open>did\<close> is set and none otherwise.
\<close>

definition timeout_ok :: "fit_state \<Rightarrow> bool" where
  "timeout_ok s =
     ((timeouts s = [] \<or> (\<exists>t. installed_initial s = Some t \<and> timeouts s = [t] \<and> t < next_handle s)) \<and>
      (did s \<longrightarrow> timeouts s = []) \<and>
      count_initial (fit_log s) = (if did s then 1 else 0))"

text \<open>
  The pending animation-frame callback, if any, belongs to the closure the installed
  cleanup reads, which holds its handle; the closure's source is the current one and has
  not been fitted.
\<close>

definition raf_ok :: "fit_state \<Rightarrow> bool" where
  "raf_ok s =
     (rafs s = [] \<or>
      (\<exists>h cb. rafs s = [(h, cb)] \<and> h \<noteq> 0 \<and> h < next_handle s \<and>
         installed_reload s = Some (cb_env cb) \<and>
         handle_held cb (envs s (cb_env cb)) h \<and>
         env_sourceUrl (envs s (cb_env cb)) = current_source s \<and>
         lastFittedSource s \<noteq> Some (current_source s)))"

definition fit_inv :: "fit_state \<Rightarrow> bool" where
  "fit_inv s = (timeout_ok s \<and> raf_ok s \<and> 0 < next_handle s \<and> uncaught s = 0)"

text \<open>
  The three conditions of the reload effect, lines 184 and 185.
\<close>

definition fit_wanted :: "reload_deps \<Rightarrow> fit_state \<Rightarrow> bool" where
  "fit_wanted d s =
     (fst d \<noteq> None \<and> \<not> fst (snd (snd d)) \<and> lastFittedSource s \<noteq> Some (fst (snd d)))"

text \<open>
  The handles a cleanup cancels, lines 215 to 217.
\<close>

definition cancelled :: "raf_env \<Rightarrow> nat \<Rightarrow> bool" where
  "cancelled e h = (h \<noteq> 0 \<and> (h = raf1 e \<or> h = raf2 e \<or> h = raf3 e))"

text \<open>
  An event that loads no new source: a render pass with the given source, a tick.
\<close>

fun keeps_source :: "string \<Rightarrow> event \<Rightarrow> bool" where
  "keeps_source src (Render i) = (in_sourceUrl i = src)"
| "keeps_source src (Timeout out) = True"
| "keeps_source src (Frame cur out) = True"

text \<open>
  The source has been fitted, the initial fit has fired, and nothing is pending.
\<close>

definition settled :: "string \<Rightarrow> fit_state \<Rightarrow> bool" where
  "settled src s =
     (fit_inv s \<and> did s \<and> lastFittedSource s = Some src \<and> timeouts s = [] \<and> rafs s = [])"

subsection \<open>Example inputs\<close>

text \<open>
  Builders that always succeed and colour by vertex, the default controls of the view, a
  loaded scene, a ribbon variant of the same input, other dependencies for the reload
  effect, a content group of one mesh, and some traces.
\<close>

definition demo_material :: material where
  "demo_material = \<lparr> mat_res = 0, mat_vertexColors = Some True, mat_color = Some ''#ff00ff'',
     mat_needsUpdate = Some False \<rparr>"

definition demo_builders :: builders where
  "demo_builders =
     \<lparr> makeAtomsMesh = (\<lambda>sc d k r. Some demo_material),
       makeBondLines = (\<lambda>sc. Some demo_material),
       makeBackboneLines = (\<lambda>sc c. Some demo_material),
       makeRibbonMesh = (\<lambda>sc k. Some (Obj3d None [Obj3d (Some (100, Single 101)) [],
                                                     Obj3d (Some (102, Multi [103, 104])) []])),
       makeFlatRibbonMesh = (\<lambda>sc k t. None) \<rparr>"

definition demo_controls :: controls where
  "demo_controls = \<lparr> common_representation = Spheres, common_materialKind = Standard,
     overlays_atoms = True, overlays_bonds = True, overlays_backbone = True,
     spheres_sphereDetail = 16, spheres_radiusScale = 3 / 10, ribbon_thickness = 18 / 100 \<rparr>"

definition demo_input :: render_input where
  "demo_input = \<lparr> in_controls = demo_controls, in_sourceUrl = ''/models/1IGY.pdb'',
     in_scene = Some 7, in_loading = False, in_api = 1 \<rparr>"

definition demo_ribbon_input :: render_input where
  "demo_ribbon_input = demo_input\<lparr>in_controls := demo_controls\<lparr>common_representation := RibbonTube\<rparr>\<rparr>"

definition demo_flat_input :: render_input where
  "demo_flat_input = demo_input\<lparr>in_controls := demo_controls\<lparr>common_representation := RibbonFlat\<rparr>\<rparr>"

definition demo_other_deps :: reload_deps where
  "demo_other_deps = (Some 8, ''/models/other.pdb'', False, 1)"

definition demo_content :: obj3d where
  "demo_content = Obj3d None [Obj3d (Some (1, Single 2)) []]"

definition demo_fitted :: "event list" where
  "demo_fitted = [Render demo_input, Timeout (FitOk 1), Frame None FitThrows,
     Frame (Some demo_content) (FitOk 2)]"

definition demo_option_changes :: "event list" where
  "demo_option_changes = [Render demo_ribbon_input, Frame None (FitOk 9), Timeout (FitOk 9),
     Render demo_input]"

definition demo_waiting :: "event list" where
  "demo_waiting = [Render demo_input, Frame None FitThrows]"

definition demo_loading_input :: render_input where
  "demo_loading_input = demo_input\<lparr>in_scene := None, in_loading := True\<rparr>"

definition demo_reload_input :: render_input where
  "demo_reload_input =
     demo_input\<lparr>in_sourceUrl := ''/models/other.pdb'', in_scene := Some 8, in_loading := True\<rparr>"

definition demo_failed :: "event list" where
  "demo_failed = [Render demo_input, Frame None FitThrows, Frame None FitThrows]"

section \<open>Properties\<close>

subsection \<open>Build steps and memoization\<close>

lemma run_induct:
  assumes "P s0" and "\<And>e s. P s \<Longrightarrow> P (step B e s)"
  shows "P (run B evs s0)"
  using assms(1) unfolding run_def
  by (induction evs arbitrary: s0) (simp_all add: assms(2))

lemma force_white_fields:
  "mat_res (force_white m) = mat_res m"
  "mat_vertexColors (force_white m) = map_option (\<lambda>b. False) (mat_vertexColors m)"
  "mat_color (force_white m) = map_option (\<lambda>c. ''#ffffff'') (mat_color m)"
  "mat_needsUpdate (force_white m) = map_option (\<lambda>u. True) (mat_needsUpdate m)"
  by (cases "mat_vertexColors m"; cases "mat_color m"; cases "mat_needsUpdate m";
      simp add: force_white_def)+

lemma white_ok_force_white:
  "white_ok (Some (map_material force_white q))"
  by (cases "mat_vertexColors (material q)"; cases "mat_color (material q)")
     (simp_all add: white_ok_def force_white_fields map_material_def)

lemma built_refl: "built None s s"
  by (simp add: built_def prim_resources_def)

lemma build_prim_built:
  assumes "build_prim c r s = (p, s')"
  shows "built p s s'" and "(p \<noteq> None) = (r \<noteq> None)" and "calls s' = calls s @ [c]"
  using assms
  by (cases r; auto simp add: build_prim_def built_def prim_resources_def Let_def)+

lemma built_map_material:
  "built p s s' \<Longrightarrow> built (map_option (map_material force_white) p) s s'"
  by (cases p) (simp_all add: built_def prim_resources_def map_material_def force_white_fields)

lemma build_atoms_built:
  assumes "build_atoms B sc a s = (p, s')"
  shows "built p s s'" and "white_ok p" and "p \<noteq> None \<longrightarrow> a \<noteq> Off"
proof -
  show "p \<noteq> None \<longrightarrow> a \<noteq> Off"
    using assms by (cases a) (auto simp add: build_atoms_def)
  show "built p s s'"
  proof (cases a)
    case Off
    with assms show ?thesis by (auto simp add: build_atoms_def built_refl)
  next
    case (Obj i ao)
    obtain d k r where ar: "atoms_args ao = (d, k, r)" by (cases "atoms_args ao")
    obtain q t where bp: "build_prim (MakeAtoms sc d k r) (makeAtomsMesh B sc d k r) s = (q, t)"
      by (cases "build_prim (MakeAtoms sc d k r) (makeAtomsMesh B sc d k r) s")
    with assms Obj ar have "p = map_option (map_material force_white) q" "s' = t"
      by (auto simp add: build_atoms_def)
    with build_prim_built(1)[OF bp] show ?thesis by (simp add: built_map_material)
  qed
  show "white_ok p"
  proof (cases a)
    case Off
    with assms show ?thesis by (auto simp add: build_atoms_def white_ok_def)
  next
    case (Obj i ao)
    obtain d k r where ar: "atoms_args ao = (d, k, r)" by (cases "atoms_args ao")
    obtain q t where bp: "build_prim (MakeAtoms sc d k r) (makeAtomsMesh B sc d k r) s = (q, t)"
      by (cases "build_prim (MakeAtoms sc d k r) (makeAtomsMesh B sc d k r) s")
    with assms Obj ar have "p = map_option (map_material force_white) q"
      by (auto simp add: build_atoms_def)
    then show ?thesis by (cases q) (simp_all add: white_ok_force_white, simp add: white_ok_def)
  qed
qed

lemma build_bonds_built:
  assumes "build_bonds B sc b s = (p, s')"
  shows "built p s s'" and "(p \<noteq> None) = (b \<and> makeBondLines B sc \<noteq> None)"
  using assms build_prim_built(1,2)[of "MakeBonds sc" "makeBondLines B sc" s p s']
  by (cases b; auto simp add: build_bonds_def built_refl)+

lemma build_backbone_built:
  assumes "build_backbone B sc k s = (p, s')"
  shows "built p s s'" and "p \<noteq> None \<longrightarrow> k \<noteq> Off"
proof -
  show "p \<noteq> None \<longrightarrow> k \<noteq> Off"
    using assms by (cases k) (auto simp add: build_backbone_def)
  show "built p s s'"
  proof (cases k)
    case Off
    with assms show ?thesis by (auto simp add: build_backbone_def built_refl)
  next
    case (Obj i bo)
    with assms show ?thesis
      by (auto simp add: build_backbone_def Let_def dest: build_prim_built(1))
  qed
qed

text \<open>The three steps of the factory, named.\<close>

lemma factory_SomeE:
  assumes "factory B (Some sc) opts s = (v, s')"
  obtains a b k s1 s2 where
    "build_atoms B sc (atoms opts) s = (a, s1)"
    "build_bonds B sc (bonds opts) s1 = (b, s2)"
    "build_backbone B sc (backbone opts) s2 = (k, s')"
    "v = \<lparr> obj_atoms = a, obj_bonds = b, obj_backbone = k \<rparr>"
proof -
  obtain a s1 where 1: "build_atoms B sc (atoms opts) s = (a, s1)"
    by (cases "build_atoms B sc (atoms opts) s")
  obtain b s2 where 2: "build_bonds B sc (bonds opts) s1 = (b, s2)"
    by (cases "build_bonds B sc (bonds opts) s1")
  obtain k s3 where 3: "build_backbone B sc (backbone opts) s2 = (k, s3)"
    by (cases "build_backbone B sc (backbone opts) s2")
  from assms 1 2 3 have "v = \<lparr> obj_atoms = a, obj_bonds = b, obj_backbone = k \<rparr>" "s' = s3"
    by (auto simp add: factory_def)
  with 1 2 3 that show ?thesis by blast
qed

lemma factory_slots_ok:
  assumes "factory B scene opts s = (v, s')"
  shows "slots_ok B (scene, atoms opts, bonds opts, backbone opts) v"
proof (cases scene)
  case None
  with assms show ?thesis by (auto simp add: factory_def bonds_built_def white_ok_def)
next
  case (Some sc)
  from assms Some obtain a b k s1 s2 where
    1: "build_atoms B sc (atoms opts) s = (a, s1)" and
    2: "build_bonds B sc (bonds opts) s1 = (b, s2)" and
    3: "build_backbone B sc (backbone opts) s2 = (k, s')" and
    v: "v = \<lparr> obj_atoms = a, obj_bonds = b, obj_backbone = k \<rparr>"
    by (auto elim: factory_SomeE)
  from build_atoms_built(2,3)[OF 1] build_bonds_built(2)[OF 2] build_backbone_built(2)[OF 3]
  show ?thesis using Some v by (simp add: bonds_built_def)
qed

lemma build_atoms_calls:
  "build_atoms B sc a s = (p, s') \<Longrightarrow>
   calls s' = calls s @ (case a of Off \<Rightarrow> []
      | Obj i ao \<Rightarrow> (case atoms_args ao of (d, k, r) \<Rightarrow> [MakeAtoms sc d k r]))"
  by (cases a)
     (auto simp add: build_atoms_def dest: build_prim_built(3) split: prod.splits)

lemma build_bonds_calls:
  "build_bonds B sc b s = (p, s') \<Longrightarrow>
   calls s' = calls s @ (if b then [MakeBonds sc] else [])"
  by (cases b) (auto simp add: build_bonds_def dest: build_prim_built(3))

lemma build_backbone_calls:
  "build_backbone B sc k s = (p, s') \<Longrightarrow>
   calls s' = calls s @ (case k of Off \<Rightarrow> []
      | Obj i bo \<Rightarrow> [MakeBackbone sc (case color bo of None \<Rightarrow> 16777215 | Some c \<Rightarrow> c)])"
  by (cases k) (auto simp add: build_backbone_def Let_def dest: build_prim_built(3))

lemma factory_calls:
  assumes "factory B scene opts s = (v, s')"
  shows "calls s' = calls s @ requested scene opts"
proof (cases scene)
  case None
  with assms show ?thesis by (auto simp add: factory_def requested_def)
next
  case (Some sc)
  from assms Some obtain a b k s1 s2 where
    1: "build_atoms B sc (atoms opts) s = (a, s1)" and
    2: "build_bonds B sc (bonds opts) s1 = (b, s2)" and
    3: "build_backbone B sc (backbone opts) s2 = (k, s')"
    by (auto elim: factory_SomeE)
  from build_atoms_calls[OF 1] build_bonds_calls[OF 2] build_backbone_calls[OF 3] Some
  show ?thesis by (simp add: requested_def)
qed

text \<open>What \<open>useMemo\<close> does, by cases.\<close>

lemma use_memo_hit:
  assumes "memo_hit (scene, atoms opts, bonds opts, backbone opts) s"
  shows "\<exists>d0 v0. memo s = Some (d0, v0) \<and> use_memo B scene opts s = (v0, s)"
  using assms by (auto simp add: memo_hit_def use_memo_def Let_def split: option.splits)

lemma use_memo_miss:
  assumes "\<not> memo_hit (scene, atoms opts, bonds opts, backbone opts) s"
    and "factory B scene opts s = (v, t)"
  shows "use_memo B scene opts s =
           (v, t\<lparr>memo := Some ((scene, atoms opts, bonds opts, backbone opts), v)\<rparr>)"
  using assms by (auto simp add: memo_hit_def use_memo_def Let_def split: option.splits)

lemma object_is_Off: "object_is a b \<Longrightarrow> (a = Off) = (b = Off)"
  by (cases a; cases b) simp_all

lemma slots_ok_deps_same:
  "deps_same d0 d \<Longrightarrow> slots_ok B d0 v \<Longrightarrow> slots_ok B d v"
  by (cases d0; cases d) (auto dest: object_is_Off)

lemma use_memo_gating:
  assumes "memo_ok B s" and "use_memo B scene opts s = (v, s')"
  shows "memo_ok B s' \<and> slots_ok B (scene, atoms opts, bonds opts, backbone opts) v"
proof (cases "memo_hit (scene, atoms opts, bonds opts, backbone opts) s")
  case True
  from use_memo_hit[OF True, of B] assms(2) obtain d0 where
    m: "memo s = Some (d0, v)" and s': "s' = s" by auto
  from True m have "deps_same d0 (scene, atoms opts, bonds opts, backbone opts)"
    by (simp add: memo_hit_def)
  moreover from assms(1) m have "slots_ok B d0 v" by (simp add: memo_ok_def)
  ultimately show ?thesis using assms(1) s' slots_ok_deps_same by blast
next
  case False
  obtain w t where f: "factory B scene opts s = (w, t)" by (cases "factory B scene opts s")
  from use_memo_miss[OF False f] assms(2)
  have "v = w" "s' = t\<lparr>memo := Some ((scene, atoms opts, bonds opts, backbone opts), w)\<rparr>"
    by auto
  with factory_slots_ok[OF f] show ?thesis by (simp add: memo_ok_def)
qed

lemma use_memo_calls:
  assumes "use_memo B scene opts s = (v, s')"
  shows "calls s' = calls s @
           (if memo_hit (scene, atoms opts, bonds opts, backbone opts) s then []
            else requested scene opts)"
proof (cases "memo_hit (scene, atoms opts, bonds opts, backbone opts) s")
  case True
  from use_memo_hit[OF True, of B] assms True show ?thesis by auto
next
  case False
  obtain w t where f: "factory B scene opts s = (w, t)" by (cases "factory B scene opts s")
  from use_memo_miss[OF False f] assms factory_calls[OF f] False show ?thesis by auto
qed

lemma use_effect_fields:
  "memo (use_effect v s) = memo s" "calls (use_effect v s) = calls s"
  "created (use_effect v s) = created s" "next_addr (use_effect v s) = next_addr s"
  by (simp_all add: use_effect_def cleanup_def split: option.splits)

lemma useSceneObjectsE:
  assumes "useSceneObjects B scene opts s = (v, s')"
  obtains t where "use_memo B scene opts s = (v, t)" "s' = use_effect v t"
  using assms by (cases "use_memo B scene opts s") (auto simp add: useSceneObjects_def)

lemma useSceneObjects_gating:
  assumes "memo_ok B s" and "useSceneObjects B scene opts s = (v, s')"
  shows "memo_ok B s' \<and> slots_ok B (scene, atoms opts, bonds opts, backbone opts) v"
proof -
  from assms(2) obtain t where m: "use_memo B scene opts s = (v, t)" and s': "s' = use_effect v t"
    by (rule useSceneObjectsE)
  with use_memo_gating[OF assms(1) m] show ?thesis by (simp add: memo_ok_def use_effect_fields)
qed

lemma useSceneObjects_calls:
  assumes "useSceneObjects B scene opts s = (v, s')"
  shows "calls s' = calls s @
           (if memo_hit (scene, atoms opts, bonds opts, backbone opts) s then []
            else requested scene opts)"
proof -
  from assms obtain t where m: "use_memo B scene opts s = (v, t)" and s': "s' = use_effect v t"
    by (rule useSceneObjectsE)
  with use_memo_calls[OF m] show ?thesis by (simp add: use_effect_fields)
qed

text \<open>The ribbon path.\<close>

lemma build_group_facts:
  assumes "build_group c r s = (g, s')"
  shows "r_calls s' = r_calls s @ [c]" and "cartoon_memo s' = cartoon_memo s"
    and "cartoon_effect s' = cartoon_effect s" and "r_disposed s' = r_disposed s"
  using assms by (cases r; auto simp add: build_group_def Let_def)+

lemma cartoon_factory_facts:
  assumes "cartoon_factory B d s = (g, s')"
  shows "cartoon_ok d g" and "r_calls s' = r_calls s @ ribbon_requested d"
    and "cartoon_memo s' = cartoon_memo s"
proof -
  obtain scene rep kind th where d: "d = (scene, rep, kind, th)" by (cases d)
  show "cartoon_ok d g"
    using assms d by (cases scene) (auto simp add: cartoon_factory_def split: if_splits)
  show "r_calls s' = r_calls s @ ribbon_requested d"
    using assms d
    by (cases scene) (auto simp add: cartoon_factory_def dest: build_group_facts(1) split: if_splits)
  show "cartoon_memo s' = cartoon_memo s"
    using assms d
    by (cases scene) (auto simp add: cartoon_factory_def dest: build_group_facts(2) split: if_splits)
qed

lemma cartoon_memo_step_hit:
  assumes "cartoon_hit d s"
  shows "\<exists>v0. cartoon_memo s = Some (d, v0) \<and> cartoon_memo_step B d s = (v0, s)"
  using assms by (auto simp add: cartoon_hit_def cartoon_memo_step_def split: option.splits)

lemma cartoon_memo_step_miss:
  assumes "\<not> cartoon_hit d s" and "cartoon_factory B d s = (v, t)"
  shows "cartoon_memo_step B d s = (v, t\<lparr>cartoon_memo := Some (d, v)\<rparr>)"
  using assms by (auto simp add: cartoon_hit_def cartoon_memo_step_def split: option.splits)

lemma cartoon_effect_step_fields:
  "cartoon_memo (cartoon_effect_step v s) = cartoon_memo s"
  "r_calls (cartoon_effect_step v s) = r_calls s"
  by (auto simp add: cartoon_effect_step_def cartoon_cleanup_def split: option.splits)

lemma useCartoonE:
  assumes "useCartoon B d s = (v, s')"
  obtains t where "cartoon_memo_step B d s = (v, t)" "s' = cartoon_effect_step v t"
  using assms by (cases "cartoon_memo_step B d s") (auto simp add: useCartoon_def)

lemma useCartoon_gating:
  assumes "cartoon_memo_ok s" and "useCartoon B d s = (v, s')"
  shows "cartoon_memo_ok s'" and "cartoon_ok d v"
    and "r_calls s' = r_calls s @ (if cartoon_hit d s then [] else ribbon_requested d)"
proof -
  from assms(2) obtain t where m: "cartoon_memo_step B d s = (v, t)"
    and s': "s' = cartoon_effect_step v t" by (rule useCartoonE)
  have "cartoon_memo_ok t \<and> cartoon_ok d v \<and>
        r_calls t = r_calls s @ (if cartoon_hit d s then [] else ribbon_requested d)"
  proof (cases "cartoon_hit d s")
    case True
    from cartoon_memo_step_hit[OF True, of B] m assms(1) True show ?thesis
      by (auto simp add: cartoon_memo_ok_def)
  next
    case False
    obtain w u where f: "cartoon_factory B d s = (w, u)" by (cases "cartoon_factory B d s")
    from cartoon_memo_step_miss[OF False f] m
    have "v = w" "t = u\<lparr>cartoon_memo := Some (d, w)\<rparr>" by auto
    with cartoon_factory_facts[OF f] False show ?thesis by (simp add: cartoon_memo_ok_def)
  qed
  with s' show "cartoon_memo_ok s'" and "cartoon_ok d v"
    and "r_calls s' = r_calls s @ (if cartoon_hit d s then [] else ribbon_requested d)"
    by (simp_all add: cartoon_memo_ok_def cartoon_effect_step_fields)
qed

lemma derive_opts_facts:
  assumes "derive_opts c n = (opts, n')"
  shows "(atoms opts \<noteq> Off) = (overlays_atoms c \<and> common_representation c = Spheres)"
    and "(backbone opts \<noteq> Off) = (overlays_backbone c \<and> common_representation c = Spheres)"
    and "bonds opts = overlays_bonds c"
  using assms by (auto simp add: derive_opts_def Let_def split: if_splits)

lemma MoleculeViewE:
  obtains opts n v c k r where
    "derive_opts (in_controls i) (next_obj s) = (opts, n)"
    "useSceneObjects B (in_scene i) opts (cache s) = (v, c)"
    "useCartoon B (cartoon_deps_of (in_scene i) (in_controls i)) (ribbon s) = (k, r)"
    "MoleculeView B i s =
       \<lparr> next_obj = n, cache = c, ribbon = r, fitc = fit_commit (reload_deps_of i) (fitc s),
         cur_objects = v, cur_cartoon = k, content = displayed (in_controls i) k v \<rparr>"
proof -
  obtain opts n where 1: "derive_opts (in_controls i) (next_obj s) = (opts, n)"
    by (cases "derive_opts (in_controls i) (next_obj s)")
  obtain v c where 2: "useSceneObjects B (in_scene i) opts (cache s) = (v, c)"
    by (cases "useSceneObjects B (in_scene i) opts (cache s)")
  obtain k r where 3: "useCartoon B (cartoon_deps_of (in_scene i) (in_controls i)) (ribbon s) = (k, r)"
    by (cases "useCartoon B (cartoon_deps_of (in_scene i) (in_controls i)) (ribbon s)")
  from 1 2 3 that show ?thesis by (simp add: MoleculeView_def)
qed

lemma gate_inv_init: "gate_inv B view_init"
  by (simp add: gate_inv_def view_init_def memo_ok_def cartoon_memo_ok_def cache_init_def
      ribbon_init_def)

lemma gate_inv_step:
  assumes "gate_inv B s"
  shows "gate_inv B (step B e s)"
proof (cases e)
  case (Render i)
  obtain opts n v c k r where
    2: "useSceneObjects B (in_scene i) opts (cache s) = (v, c)" and
    3: "useCartoon B (cartoon_deps_of (in_scene i) (in_controls i)) (ribbon s) = (k, r)" and
    4: "MoleculeView B i s =
       \<lparr> next_obj = n, cache = c, ribbon = r, fitc = fit_commit (reload_deps_of i) (fitc s),
         cur_objects = v, cur_cartoon = k, content = displayed (in_controls i) k v \<rparr>"
    by (rule MoleculeViewE)
  from assms have "memo_ok B (cache s)" "cartoon_memo_ok (ribbon s)" by (simp_all add: gate_inv_def)
  with useSceneObjects_gating[OF _ 2] useCartoon_gating(1)[OF _ 3] Render 4
  show ?thesis by (simp add: gate_inv_def)
next
  case (Timeout out)
  with assms show ?thesis by (simp add: gate_inv_def)
next
  case (Frame cur out)
  with assms show ?thesis by (simp add: gate_inv_def)
qed

lemma gate_inv_run: "gate_inv B (run B evs view_init)"
  by (rule run_induct) (simp_all add: gate_inv_init gate_inv_step)

text \<open>What one committed render pass yields, from any state the view can reach.\<close>

lemma render_pass:
  assumes "s = run B evs view_init" and "s' = MoleculeView B i s"
  obtains opts n where
    "derive_opts (in_controls i) (next_obj s) = (opts, n)"
    "slots_ok B (in_scene i, atoms opts, bonds opts, backbone opts) (cur_objects s')"
    "cartoon_ok (cartoon_deps_of (in_scene i) (in_controls i)) (cur_cartoon s')"
    "calls (cache s') = calls (cache s) @
       (if memo_hit (in_scene i, atoms opts, bonds opts, backbone opts) (cache s) then []
        else requested (in_scene i) opts)"
    "r_calls (ribbon s') = r_calls (ribbon s) @
       (if cartoon_hit (cartoon_deps_of (in_scene i) (in_controls i)) (ribbon s) then []
        else ribbon_requested (cartoon_deps_of (in_scene i) (in_controls i)))"
    "content s' = displayed (in_controls i) (cur_cartoon s') (cur_objects s')"
proof -
  obtain opts n v c k r where
    1: "derive_opts (in_controls i) (next_obj s) = (opts, n)" and
    2: "useSceneObjects B (in_scene i) opts (cache s) = (v, c)" and
    3: "useCartoon B (cartoon_deps_of (in_scene i) (in_controls i)) (ribbon s) = (k, r)" and
    4: "MoleculeView B i s =
       \<lparr> next_obj = n, cache = c, ribbon = r, fitc = fit_commit (reload_deps_of i) (fitc s),
         cur_objects = v, cur_cartoon = k, content = displayed (in_controls i) k v \<rparr>"
    by (rule MoleculeViewE)
  from gate_inv_run[of B evs] assms(1)
  have g: "memo_ok B (cache s)" "cartoon_memo_ok (ribbon s)" by (simp_all add: gate_inv_def)
  from 4 assms(2) have f: "cur_objects s' = v" "cur_cartoon s' = k" "cache s' = c" "ribbon s' = r"
    "content s' = displayed (in_controls i) k v" by simp_all
  show ?thesis
    using that[OF 1] useSceneObjects_gating[OF g(1) 2] useSceneObjects_calls[OF 2]
      useCartoon_gating(2,3)[OF g(2) 3] f by simp
qed

lemma requested_atoms:
  "MakeAtoms sc d k r \<in> set (requested scene opts) \<Longrightarrow> atoms opts \<noteq> Off"
  by (cases scene; cases "atoms opts"; cases "backbone opts")
     (auto simp add: requested_def split: prod.splits if_splits)

lemma requested_backbone:
  "MakeBackbone sc col \<in> set (requested scene opts) \<Longrightarrow> backbone opts \<noteq> Off"
  by (cases scene; cases "atoms opts"; cases "backbone opts")
     (auto simp add: requested_def split: prod.splits if_splits)

lemma requested_bonds:
  "(MakeBonds sc \<in> set (requested scene opts)) = (scene = Some sc \<and> bonds opts)"
  by (cases scene; cases "atoms opts"; cases "backbone opts")
     (auto simp add: requested_def split: prod.splits if_splits)

lemma ribbon_requested_nonempty:
  "ribbon_requested (cartoon_deps_of scene c) \<noteq> [] \<Longrightarrow>
   common_representation c = RibbonTube \<or> common_representation c = RibbonFlat"
  by (cases scene) (auto simp add: cartoon_deps_of_def split: if_splits)

subsection \<open>Definitions to unfold when evaluating the examples\<close>

lemmas demo_defs = demo_material_def demo_builders_def demo_controls_def demo_input_def
  demo_ribbon_input_def

lemmas cache_defs = derive_opts_def useSceneObjects_def use_memo_def use_effect_def factory_def
  build_atoms_def build_bonds_def build_backbone_def atoms_args_def
  build_prim_def map_material_def force_white_def same_prims_def cleanup_def
  objects_resources_def prim_resources_def cache_unmount_def cache_init_def

lemmas ribbon_defs = useCartoon_def cartoon_memo_step_def cartoon_effect_step_def
  cartoon_factory_def cartoon_deps_of_def build_group_def cartoon_cleanup_def dispose_tree_def
  dispose_node_def ribbon_unmount_def ribbon_init_def

lemmas fit_defs = fit_commit_def run_reload_def run_initial_def installed_reload_def
  installed_initial_def reload_changed_def initial_changed_def reload_cleanup_def cancel_if_def
  reload_effect_body_def initial_cleanup_def initial_effect_body_def timeout_fire_def frame_def
  dispatch_def run_raf_cb_def raf1_callback_def doFit_def doFit_try_def record_fitted_def
  set_raf3_def set_raf2_def compute_bounds_def bounds_node_def initial_fit_callback_def
  try_catch_def then_do_def api_refresh_fit_def clear_timeout_def set_timeout_def
  cancel_frame_def request_frame_def fit_unmount_def reload_deps_of_def fit_init_def

lemmas view_defs = run_def MoleculeView_def view_init_def displayed_def shown_def
  view_unmount_def

subsection \<open>Representation gating of the build options\<close>

text \<open>
  Claim C8. In a render pass of \<open>MoleculeView\<close>, from any state the view can reach: the
  builder calls the pass adds contain \<open>makeAtomsMesh\<close> or \<open>makeBackboneLines\<close> only when the
  representation is spheres, and \<open>makeBondLines\<close> only when the bonds toggle is on; the ribbon
  builders are called only in the two ribbon representations; the atoms and the backbone the
  pass returns exist only in spheres mode; the ribbon group is \<open>null\<close> unless there is a scene
  and the representation is ribbon-tube or ribbon-flat; whatever the representation, the
  bonds exist exactly when the toggle is on and \<open>makeBondLines\<close> returns them for the scene,
  and a build for a scene calls \<open>makeBondLines\<close> exactly when the toggle is on.
\<close>

theorem representation_gating:
  assumes "s = run B evs view_init" and "s' = MoleculeView B i s"
  shows "\<exists>new newr.
     calls (cache s') = calls (cache s) @ new \<and>
     r_calls (ribbon s') = r_calls (ribbon s) @ newr \<and>
     (\<forall>sc d k r. MakeAtoms sc d k r \<in> set new \<longrightarrow>
        common_representation (in_controls i) = Spheres) \<and>
     (\<forall>sc col. MakeBackbone sc col \<in> set new \<longrightarrow>
        common_representation (in_controls i) = Spheres) \<and>
     (\<forall>sc. MakeBonds sc \<in> set new \<longrightarrow> overlays_bonds (in_controls i)) \<and>
     (newr \<noteq> [] \<longrightarrow>
        common_representation (in_controls i) = RibbonTube \<or>
        common_representation (in_controls i) = RibbonFlat) \<and>
     (obj_atoms (cur_objects s') \<noteq> None \<longrightarrow> common_representation (in_controls i) = Spheres) \<and>
     (obj_backbone (cur_objects s') \<noteq> None \<longrightarrow>
        common_representation (in_controls i) = Spheres) \<and>
     (cur_cartoon s' \<noteq> None \<longrightarrow>
        in_scene i \<noteq> None \<and>
        (common_representation (in_controls i) = RibbonTube \<or>
         common_representation (in_controls i) = RibbonFlat)) \<and>
     (obj_bonds (cur_objects s') \<noteq> None) =
        bonds_built B (in_scene i) (overlays_bonds (in_controls i)) \<and>
     (\<forall>sc n t. (MakeBonds sc \<in> set (calls (snd (factory B (Some sc) (fst (derive_opts (in_controls i) n)) t))))
         = (MakeBonds sc \<in> set (calls t) \<or> overlays_bonds (in_controls i)))"
proof -
  from assms obtain opts n where
    d: "derive_opts (in_controls i) (next_obj s) = (opts, n)" and
    so: "slots_ok B (in_scene i, atoms opts, bonds opts, backbone opts) (cur_objects s')" and
    co: "cartoon_ok (cartoon_deps_of (in_scene i) (in_controls i)) (cur_cartoon s')" and
    ca: "calls (cache s') = calls (cache s) @
       (if memo_hit (in_scene i, atoms opts, bonds opts, backbone opts) (cache s) then []
        else requested (in_scene i) opts)" and
    rc: "r_calls (ribbon s') = r_calls (ribbon s) @
       (if cartoon_hit (cartoon_deps_of (in_scene i) (in_controls i)) (ribbon s) then []
        else ribbon_requested (cartoon_deps_of (in_scene i) (in_controls i)))"
    by (rule render_pass)
  let ?new = "if memo_hit (in_scene i, atoms opts, bonds opts, backbone opts) (cache s) then []
        else requested (in_scene i) opts"
  let ?newr = "if cartoon_hit (cartoon_deps_of (in_scene i) (in_controls i)) (ribbon s) then []
        else ribbon_requested (cartoon_deps_of (in_scene i) (in_controls i))"
  note df = derive_opts_facts[OF d]
  have a: "\<forall>sc d k r. MakeAtoms sc d k r \<in> set ?new \<longrightarrow>
        common_representation (in_controls i) = Spheres"
    using df(1) by (auto dest: requested_atoms)
  have k: "\<forall>sc col. MakeBackbone sc col \<in> set ?new \<longrightarrow>
        common_representation (in_controls i) = Spheres"
    using df(2) by (auto dest: requested_backbone)
  have b: "\<forall>sc. MakeBonds sc \<in> set ?new \<longrightarrow> overlays_bonds (in_controls i)"
    using df(3) by (auto simp add: requested_bonds)
  have r: "?newr \<noteq> [] \<longrightarrow>
        common_representation (in_controls i) = RibbonTube \<or>
        common_representation (in_controls i) = RibbonFlat"
    using ribbon_requested_nonempty[of "in_scene i" "in_controls i"] by auto
  have oa: "obj_atoms (cur_objects s') \<noteq> None \<longrightarrow> common_representation (in_controls i) = Spheres"
    and ok: "obj_backbone (cur_objects s') \<noteq> None \<longrightarrow>
        common_representation (in_controls i) = Spheres"
    and ob: "(obj_bonds (cur_objects s') \<noteq> None) =
        bonds_built B (in_scene i) (overlays_bonds (in_controls i))"
    using so df by auto
  have cc: "cur_cartoon s' \<noteq> None \<longrightarrow>
        in_scene i \<noteq> None \<and>
        (common_representation (in_controls i) = RibbonTube \<or>
         common_representation (in_controls i) = RibbonFlat)"
    using co by (simp add: cartoon_deps_of_def)
  have fb: "\<forall>sc n t. (MakeBonds sc \<in> set (calls (snd (factory B (Some sc) (fst (derive_opts (in_controls i) n)) t))))
         = (MakeBonds sc \<in> set (calls t) \<or> overlays_bonds (in_controls i))"
  proof (intro allI)
    fix sc n t
    obtain o' n' where d': "derive_opts (in_controls i) n = (o', n')"
      by (cases "derive_opts (in_controls i) n")
    obtain v u where f: "factory B (Some sc) o' t = (v, u)" by (cases "factory B (Some sc) o' t")
    from factory_calls[OF f] derive_opts_facts(3)[OF d'] d' f
    show "(MakeBonds sc \<in> set (calls (snd (factory B (Some sc) (fst (derive_opts (in_controls i) n)) t))))
         = (MakeBonds sc \<in> set (calls t) \<or> overlays_bonds (in_controls i))"
      by (simp add: requested_bonds)
  qed
  from ca rc a k b r oa ok ob cc fb show ?thesis by blast
qed

lemma demo_ribbon_pass:
  "cur_cartoon (MoleculeView demo_builders demo_ribbon_input
       (run demo_builders [Render demo_input] view_init)) \<noteq> None"
  "content (MoleculeView demo_builders demo_ribbon_input
       (run demo_builders [Render demo_input] view_init)) =
     [ShowCartoon 0,
      ShowBonds \<lparr> prim_id = 9, geometry = 10, material = demo_material\<lparr>mat_res := 11\<rparr> \<rparr>]"
  by (simp_all add: demo_defs view_defs cache_defs ribbon_defs)

theorem representation_gating_witness:
  "cur_cartoon (MoleculeView demo_builders demo_ribbon_input
       (run demo_builders [Render demo_input] view_init)) \<noteq> None \<and>
   in_scene demo_ribbon_input \<noteq> None \<and>
   (common_representation (in_controls demo_ribbon_input) = RibbonTube \<or>
    common_representation (in_controls demo_ribbon_input) = RibbonFlat)"
proof -
  let ?s = "run demo_builders [Render demo_input] view_init"
  let ?s' = "MoleculeView demo_builders demo_ribbon_input ?s"
  from representation_gating[OF refl refl, where B = demo_builders and evs = "[Render demo_input]"
      and i = demo_ribbon_input]
  have "cur_cartoon ?s' \<noteq> None \<longrightarrow>
        in_scene demo_ribbon_input \<noteq> None \<and>
        (common_representation (in_controls demo_ribbon_input) = RibbonTube \<or>
         common_representation (in_controls demo_ribbon_input) = RibbonFlat)"
    by blast
  with demo_ribbon_pass(1) show ?thesis by blast
qed

lemma build_group_present:
  "build_group c r s = (w, t) \<Longrightarrow> (w \<noteq> None) = (r \<noteq> None)"
  by (cases r) (auto simp add: build_group_def Let_def)

lemma cartoon_factory_present:
  assumes "cartoon_factory B d s = (w, t)"
  shows "(w \<noteq> None) = group_built B d"
proof -
  obtain scene rep kind th where d: "d = (scene, rep, kind, th)" by (cases d)
  show ?thesis
  proof (cases scene)
    case None
    with assms d show ?thesis by (auto simp add: cartoon_factory_def)
  next
    case (Some sc)
    show ?thesis
    proof (cases rep)
      case Spheres
      with assms d Some show ?thesis by (auto simp add: cartoon_factory_def)
    next
      case RibbonTube
      with assms d Some show ?thesis
        by (auto simp add: cartoon_factory_def dest: build_group_present)
    next
      case RibbonFlat
      with assms d Some show ?thesis
        by (auto simp add: cartoon_factory_def dest: build_group_present)
    qed
  qed
qed

lemma useCartoon_exact:
  assumes "cartoon_exact B s" and "useCartoon B d s = (v, s')"
  shows "cartoon_exact B s'" and "(v \<noteq> None) = group_built B d"
proof -
  from assms(2) obtain u where m: "cartoon_memo_step B d s = (v, u)"
    and s': "s' = cartoon_effect_step v u" by (rule useCartoonE)
  have "cartoon_exact B u \<and> (v \<noteq> None) = group_built B d"
  proof (cases "cartoon_hit d s")
    case True
    from cartoon_memo_step_hit[OF True, of B] m
    have "cartoon_memo s = Some (d, v)" and "u = s" by auto
    with assms(1) show ?thesis by (simp add: cartoon_exact_def)
  next
    case False
    obtain w t where f: "cartoon_factory B d s = (w, t)" by (cases "cartoon_factory B d s")
    from cartoon_memo_step_miss[OF False f] m
    have "v = w" "u = t\<lparr>cartoon_memo := Some (d, w)\<rparr>" by auto
    with cartoon_factory_present[OF f] show ?thesis by (simp add: cartoon_exact_def)
  qed
  with s' show "cartoon_exact B s'" and "(v \<noteq> None) = group_built B d"
    by (simp_all add: cartoon_exact_def cartoon_effect_step_fields)
qed

lemma cartoon_exact_step:
  assumes "cartoon_exact B (ribbon s)"
  shows "cartoon_exact B (ribbon (step B e s))"
proof (cases e)
  case (Render i)
  obtain opts n v c k r where
    3: "useCartoon B (cartoon_deps_of (in_scene i) (in_controls i)) (ribbon s) = (k, r)" and
    4: "MoleculeView B i s =
       \<lparr> next_obj = n, cache = c, ribbon = r, fitc = fit_commit (reload_deps_of i) (fitc s),
         cur_objects = v, cur_cartoon = k, content = displayed (in_controls i) k v \<rparr>"
    by (rule MoleculeViewE)
  from useCartoon_exact(1)[OF assms 3] Render 4 show ?thesis by simp
next
  case (Timeout out)
  with assms show ?thesis by simp
next
  case (Frame cur out)
  with assms show ?thesis by simp
qed

lemma cartoon_exact_run: "cartoon_exact B (ribbon (run B evs view_init))"
  by (rule run_induct[where P = "\<lambda>s. cartoon_exact B (ribbon s)"])
     (simp_all add: cartoon_exact_step, simp add: cartoon_exact_def view_init_def ribbon_init_def)

lemma render_pass_group:
  assumes "s = run B evs view_init" and "s' = MoleculeView B i s"
  shows "(cur_cartoon s' \<noteq> None) = group_built B (cartoon_deps_of (in_scene i) (in_controls i))"
proof -
  obtain opts n v c k r where
    3: "useCartoon B (cartoon_deps_of (in_scene i) (in_controls i)) (ribbon s) = (k, r)" and
    4: "MoleculeView B i s =
       \<lparr> next_obj = n, cache = c, ribbon = r, fitc = fit_commit (reload_deps_of i) (fitc s),
         cur_objects = v, cur_cartoon = k, content = displayed (in_controls i) k v \<rparr>"
    by (rule MoleculeViewE)
  from cartoon_exact_run[of B evs] assms(1) have "cartoon_exact B (ribbon s)" by simp
  from useCartoon_exact(2)[OF this 3] 4 assms(2) show ?thesis by simp
qed

lemma displayed_no_group: "common_representation c \<noteq> Spheres \<Longrightarrow> displayed c None v = []"
  by (simp add: displayed_def)

subsection \<open>The overlays in the ribbon representations\<close>

lemma displayed_ribbon:
  assumes "common_representation c \<noteq> Spheres"
  shows "(\<exists>p. ShowBonds p \<in> set (displayed c k v)) =
           (overlays_bonds c \<and> k \<noteq> None \<and> obj_bonds v \<noteq> None)"
    and "(\<exists>p. ShowBackbone p \<in> set (displayed c k v)) =
           (overlays_backbone c \<and> k \<noteq> None \<and> obj_backbone v \<noteq> None)"
    and "\<forall>p. ShowAtoms p \<notin> set (displayed c k v)"
  using assms
  by (cases k; cases "obj_bonds v"; cases "obj_backbone v";
      auto simp add: displayed_def shown_def)+

text \<open>
  Claim C10, as the code has it when the ribbon builder returns no group. The representation
  is ribbon-flat, the bonds toggle is on and the bonds are built, but the ribbon group is
  \<open>null\<close>, the guard of line 247 fails, and nothing is displayed.
\<close>

theorem bonds_hidden_without_ribbon_group:
  "common_representation (in_controls demo_flat_input) = RibbonFlat \<and>
   overlays_bonds (in_controls demo_flat_input) \<and>
   map_option prim_id (obj_bonds (cur_objects
     (MoleculeView demo_builders demo_flat_input view_init))) = Some 0 \<and>
   cur_cartoon (MoleculeView demo_builders demo_flat_input view_init) = None \<and>
   content (MoleculeView demo_builders demo_flat_input view_init) = []"
  by (simp add: demo_flat_input_def demo_defs view_defs cache_defs ribbon_defs)

text \<open>
  Claim C10, amended. In a render pass whose representation is ribbon-tube or ribbon-flat,
  from any state the view can reach and whatever the backbone toggle says: the backbone is
  absent from the returned objects, no \<open>makeBackboneLines\<close> call is added, and no backbone is
  among the displayed children. The bonds are built exactly when the toggle is on and
  \<open>makeBondLines\<close> returns them for the scene, and they are displayed exactly when, in
  addition, the ribbon group exists, which it does exactly when there is a scene and the
  ribbon builder of the representation returns a group for it; without the group nothing
  is displayed.
\<close>

theorem ribbon_mode_overlays:
  assumes "s = run B evs view_init" and "s' = MoleculeView B i s"
    and "common_representation (in_controls i) \<noteq> Spheres"
  shows "obj_backbone (cur_objects s') = None \<and>
     (\<forall>p. ShowBackbone p \<notin> set (content s')) \<and>
     (\<exists>new. calls (cache s') = calls (cache s) @ new \<and>
        (\<forall>sc col. MakeBackbone sc col \<notin> set new)) \<and>
     (obj_bonds (cur_objects s') \<noteq> None) =
        bonds_built B (in_scene i) (overlays_bonds (in_controls i)) \<and>
     (\<exists>p. ShowBonds p \<in> set (content s')) =
        (overlays_bonds (in_controls i) \<and> cur_cartoon s' \<noteq> None \<and>
         obj_bonds (cur_objects s') \<noteq> None) \<and>
     (cur_cartoon s' \<noteq> None) =
        (\<exists>sc. in_scene i = Some sc \<and>
           ((common_representation (in_controls i) = RibbonTube \<and>
             makeRibbonMesh B sc (common_materialKind (in_controls i)) \<noteq> None) \<or>
            (common_representation (in_controls i) = RibbonFlat \<and>
             makeFlatRibbonMesh B sc (common_materialKind (in_controls i))
               (ribbon_thickness (in_controls i)) \<noteq> None))) \<and>
     (cur_cartoon s' = None \<longrightarrow> content s' = []) \<and>
     (\<forall>sc. bonds_built B (Some sc) True = (makeBondLines B sc \<noteq> None)) \<and>
     \<not> bonds_built B None True \<and> (\<forall>sc. \<not> bonds_built B sc False)"
proof -
  from assms(1,2) obtain opts n where
    d: "derive_opts (in_controls i) (next_obj s) = (opts, n)" and
    so: "slots_ok B (in_scene i, atoms opts, bonds opts, backbone opts) (cur_objects s')" and
    ca: "calls (cache s') = calls (cache s) @
       (if memo_hit (in_scene i, atoms opts, bonds opts, backbone opts) (cache s) then []
        else requested (in_scene i) opts)" and
    ct: "content s' = displayed (in_controls i) (cur_cartoon s') (cur_objects s')"
    by (rule render_pass)
  note df = derive_opts_facts[OF d]
  from df(2) assms(3) have off: "backbone opts = Off" by simp
  with so have kb: "obj_backbone (cur_objects s') = None" by auto
  from so df(3) have ob: "(obj_bonds (cur_objects s') \<noteq> None) =
        bonds_built B (in_scene i) (overlays_bonds (in_controls i))" by simp
  from off have nk: "\<forall>sc col. MakeBackbone sc col \<notin> set
       (if memo_hit (in_scene i, atoms opts, bonds opts, backbone opts) (cache s) then []
        else requested (in_scene i) opts)"
    by (auto dest: requested_backbone)
  from displayed_ribbon(2)[OF assms(3), of "cur_cartoon s'" "cur_objects s'"] kb ct
  have sk: "\<forall>p. ShowBackbone p \<notin> set (content s')" by simp
  from displayed_ribbon(1)[OF assms(3), of "cur_cartoon s'" "cur_objects s'"] ct
  have sb: "(\<exists>p. ShowBonds p \<in> set (content s')) =
        (overlays_bonds (in_controls i) \<and> cur_cartoon s' \<noteq> None \<and>
         obj_bonds (cur_objects s') \<noteq> None)" by simp
  have gb: "(cur_cartoon s' \<noteq> None) =
        (\<exists>sc. in_scene i = Some sc \<and>
           ((common_representation (in_controls i) = RibbonTube \<and>
             makeRibbonMesh B sc (common_materialKind (in_controls i)) \<noteq> None) \<or>
            (common_representation (in_controls i) = RibbonFlat \<and>
             makeFlatRibbonMesh B sc (common_materialKind (in_controls i))
               (ribbon_thickness (in_controls i)) \<noteq> None)))"
    using render_pass_group[OF assms(1,2)]
    by (cases "in_scene i") (simp_all add: cartoon_deps_of_def)
  have ng: "cur_cartoon s' = None \<longrightarrow> content s' = []"
    using ct assms(3) by (simp add: displayed_no_group)
  have bb: "(\<forall>sc. bonds_built B (Some sc) True = (makeBondLines B sc \<noteq> None)) \<and>
     \<not> bonds_built B None True \<and> (\<forall>sc. \<not> bonds_built B sc False)"
    by (auto simp add: bonds_built_def split: option.splits)
  from kb sk ca nk ob sb gb ng bb show ?thesis by blast
qed

theorem ribbon_mode_overlays_witness:
  "common_representation (in_controls demo_ribbon_input) \<noteq> Spheres \<and>
   overlays_backbone (in_controls demo_ribbon_input) \<and>
   obj_backbone (cur_objects (MoleculeView demo_builders demo_ribbon_input
       (run demo_builders [Render demo_input] view_init))) = None \<and>
   content (MoleculeView demo_builders demo_ribbon_input
       (run demo_builders [Render demo_input] view_init)) =
     [ShowCartoon 0,
      ShowBonds \<lparr> prim_id = 9, geometry = 10, material = demo_material\<lparr>mat_res := 11\<rparr> \<rparr>]"
proof -
  have h: "common_representation (in_controls demo_ribbon_input) \<noteq> Spheres"
    and t: "overlays_backbone (in_controls demo_ribbon_input)"
    by (simp_all add: demo_defs)
  from ribbon_mode_overlays[OF refl refl h, where B = demo_builders and evs = "[Render demo_input]"]
  have "obj_backbone (cur_objects (MoleculeView demo_builders demo_ribbon_input
       (run demo_builders [Render demo_input] view_init))) = None" by blast
  with h t demo_ribbon_pass(2) show ?thesis by blast
qed

subsection \<open>The white override of the atoms\<close>

text \<open>
  Claim C7. Whenever atoms are enabled and \<open>makeAtomsMesh\<close> returns a mesh, for every scene,
  every option value and hence every material kind, the atom primitive the factory builds
  has \<open>vertexColors\<close> set to false and its colour set to \<open>#ffffff\<close>, each wherever the
  builder's material has that property (every three.js material of kind basic, lambert or
  standard has both); and every atom primitive a render pass returns, cached or new, has
  no per-vertex colours and no colour other than white.
\<close>

theorem atoms_material_forced_white:
  assumes "atoms opts = Obj i ao" and "atoms_args ao = (d, k, r)"
    and "makeAtomsMesh B sc d k r = Some m"
  shows "(\<exists>p. obj_atoms (fst (factory B (Some sc) opts s)) = Some p \<and>
            mat_vertexColors (material p) = map_option (\<lambda>b. False) (mat_vertexColors m) \<and>
            mat_color (material p) = map_option (\<lambda>c. ''#ffffff'') (mat_color m)) \<and>
         (\<forall>evs j p. obj_atoms (cur_objects (MoleculeView B j (run B evs view_init))) = Some p \<longrightarrow>
            mat_vertexColors (material p) \<noteq> Some True \<and>
            (mat_color (material p) = None \<or> mat_color (material p) = Some ''#ffffff''))"
proof
  obtain q t where bp: "build_prim (MakeAtoms sc d k r) (makeAtomsMesh B sc d k r) s = (q, t)"
    by (cases "build_prim (MakeAtoms sc d k r) (makeAtomsMesh B sc d k r) s")
  from build_prim_built(2)[OF bp] assms(3) obtain q' where q: "q = Some q'" by auto
  with bp assms(3) have m: "material q' = m\<lparr>mat_res := next_addr s + 2\<rparr>"
    by (auto simp add: build_prim_def Let_def)
  from bp assms(1,2) have ba: "build_atoms B sc (atoms opts) s =
      (map_option (map_material force_white) q, t)"
    by (simp add: build_atoms_def)
  obtain b s2 where 2: "build_bonds B sc (bonds opts) t = (b, s2)"
    by (cases "build_bonds B sc (bonds opts) t")
  obtain kk s3 where 3: "build_backbone B sc (backbone opts) s2 = (kk, s3)"
    by (cases "build_backbone B sc (backbone opts) s2")
  from ba 2 3 q have "obj_atoms (fst (factory B (Some sc) opts s)) = Some (map_material force_white q')"
    by (simp add: factory_def)
  with m show "\<exists>p. obj_atoms (fst (factory B (Some sc) opts s)) = Some p \<and>
            mat_vertexColors (material p) = map_option (\<lambda>b. False) (mat_vertexColors m) \<and>
            mat_color (material p) = map_option (\<lambda>c. ''#ffffff'') (mat_color m)"
    by (simp add: map_material_def force_white_fields)
next
  show "\<forall>evs j p. obj_atoms (cur_objects (MoleculeView B j (run B evs view_init))) = Some p \<longrightarrow>
            mat_vertexColors (material p) \<noteq> Some True \<and>
            (mat_color (material p) = None \<or> mat_color (material p) = Some ''#ffffff'')"
  proof (intro allI impI)
    fix evs j p
    assume a: "obj_atoms (cur_objects (MoleculeView B j (run B evs view_init))) = Some p"
    obtain opts' :: SceneBuildOptions where
      "slots_ok B (in_scene j, atoms opts', bonds opts', backbone opts')
         (cur_objects (MoleculeView B j (run B evs view_init)))"
      by (rule render_pass[OF refl refl, where B = B and i = j and evs = evs]) blast
    with a show "mat_vertexColors (material p) \<noteq> Some True \<and>
            (mat_color (material p) = None \<or> mat_color (material p) = Some ''#ffffff'')"
      by (simp add: white_ok_def)
  qed
qed

theorem atoms_material_forced_white_witness:
  "atoms (fst (derive_opts demo_controls 0)) =
     Obj 0 \<lparr> sphereDetail = Some 16, materialKind = Some Standard, radiusScale = Some (3 / 10) \<rparr> \<and>
   atoms_args \<lparr> sphereDetail = Some 16, materialKind = Some Standard,
                radiusScale = Some (3 / 10) \<rparr> = (16, Standard, 3 / 10) \<and>
   makeAtomsMesh demo_builders 7 16 Standard (3 / 10) = Some demo_material \<and>
   mat_vertexColors demo_material = Some True \<and>
   (\<exists>p. obj_atoms (fst (factory demo_builders (Some 7) (fst (derive_opts demo_controls 0))
            cache_init)) = Some p \<and>
        mat_vertexColors (material p) = Some False \<and>
        mat_color (material p) = Some ''#ffffff'')"
proof -
  have 1: "atoms (fst (derive_opts demo_controls 0)) =
     Obj 0 \<lparr> sphereDetail = Some 16, materialKind = Some Standard, radiusScale = Some (3 / 10) \<rparr>"
    by (simp add: derive_opts_def demo_controls_def)
  have 2: "atoms_args \<lparr> sphereDetail = Some 16, materialKind = Some Standard,
                radiusScale = Some (3 / 10) \<rparr> = (16, Standard, 3 / 10)"
    by (simp add: atoms_args_def)
  have 3: "makeAtomsMesh demo_builders 7 16 Standard (3 / 10) = Some demo_material"
    by (simp add: demo_builders_def)
  have 4: "mat_vertexColors demo_material = Some True" "mat_color demo_material = Some ''#ff00ff''"
    by (simp_all add: demo_material_def)
  from atoms_material_forced_white[OF 1 2 3, where s = cache_init] 4
  have "\<exists>p. obj_atoms (fst (factory demo_builders (Some 7) (fst (derive_opts demo_controls 0))
            cache_init)) = Some p \<and>
        mat_vertexColors (material p) = Some False \<and>
        mat_color (material p) = Some ''#ffffff''"
    by simp
  with 1 2 3 4 show ?thesis by blast
qed

subsection \<open>Fresh primitives and who holds them\<close>

lemma built_range:
  assumes "built p s s'"
  shows "next_addr s \<le> next_addr s'"
    and "\<forall>a \<in> set (prim_resources p). next_addr s \<le> a \<and> a < next_addr s'"
    and "distinct (prim_resources p)"
    and "case p of None \<Rightarrow> True | Some q \<Rightarrow> next_addr s \<le> prim_id q \<and> prim_id q < next_addr s'"
  using assms by (cases p; simp add: built_def prim_resources_def)+

lemma factory_fresh:
  assumes "factory B scene opts s = (v, s')"
  shows "fresh v s s'"
proof (cases scene)
  case None
  with assms show ?thesis
    by (auto simp add: factory_def fresh_def objects_resources_def prim_resources_def
        prims_from_def prims_below_def)
next
  case (Some sc)
  from assms Some obtain a b k s1 s2 where
    1: "build_atoms B sc (atoms opts) s = (a, s1)" and
    2: "build_bonds B sc (bonds opts) s1 = (b, s2)" and
    3: "build_backbone B sc (backbone opts) s2 = (k, s')" and
    v: "v = \<lparr> obj_atoms = a, obj_bonds = b, obj_backbone = k \<rparr>"
    by (auto elim: factory_SomeE)
  note ba = build_atoms_built(1)[OF 1] and bb = build_bonds_built(1)[OF 2]
    and bk = build_backbone_built(1)[OF 3]
  note ra = built_range[OF ba] and rb = built_range[OF bb] and rk = built_range[OF bk]
  have cells: "memo s' = memo s" "effect s' = effect s" "disposed s' = disposed s"
    using ba bb bk by (simp_all add: built_def)
  have cr: "created s' = created s @ objects_resources v"
    using ba bb bk v by (simp add: built_def objects_resources_def)
  have le: "next_addr s \<le> next_addr s'" using ra(1) rb(1) rk(1) by simp
  have pf: "prims_from (next_addr s) v"
    using ra(1,4) rb(1,4) rk(1,4) v
    by (cases a; cases b; cases k) (auto simp add: prims_from_def)
  have pb: "prims_below (next_addr s') v"
    using ra(1,4) rb(1,4) rk(1,4) v
    by (cases a; cases b; cases k) (auto simp add: prims_below_def)
  have rg: "\<forall>x \<in> set (objects_resources v). next_addr s \<le> x \<and> x < next_addr s'"
    using ra(1,2) rb(1,2) rk(1,2) v by (fastforce simp add: objects_resources_def)
  have di: "distinct (objects_resources v)"
    using ra(2,3) rb(1,2,3) rk(2,3) v by (fastforce simp add: objects_resources_def)
  from cells cr le pf pb rg di show ?thesis by (simp add: fresh_def)
qed

lemma same_prims_refl: "same_prims v v"
  by (simp add: same_prims_def)

lemma fresh_not_shared:
  assumes "prims_below n v0" and "prims_from n v"
  shows "\<not> shares_prim v0 v"
  using assms
  by (cases "obj_atoms v0"; cases "obj_atoms v"; cases "obj_bonds v0"; cases "obj_bonds v";
      cases "obj_backbone v0"; cases "obj_backbone v")
     (auto simp add: shares_prim_def prims_below_def prims_from_def)

lemma same_prims_fresh:
  assumes "prims_below n v0" and "prims_from n v" and "same_prims v0 v"
  shows "v0 = v" and "objects_resources v0 = []"
proof -
  have a: "obj_atoms v0 = None \<and> obj_atoms v = None"
    using assms by (cases "obj_atoms v0"; cases "obj_atoms v")
      (auto simp add: same_prims_def prims_below_def prims_from_def)
  have b: "obj_bonds v0 = None \<and> obj_bonds v = None"
    using assms by (cases "obj_bonds v0"; cases "obj_bonds v")
      (auto simp add: same_prims_def prims_below_def prims_from_def)
  have k: "obj_backbone v0 = None \<and> obj_backbone v = None"
    using assms by (cases "obj_backbone v0"; cases "obj_backbone v")
      (auto simp add: same_prims_def prims_below_def prims_from_def)
  from a b k show "v0 = v" by (cases v0; cases v) simp
  from a b k show "objects_resources v0 = []"
    by (simp add: objects_resources_def prim_resources_def)
qed

lemma prims_below_mono: "prims_below n v \<Longrightarrow> n \<le> m \<Longrightarrow> prims_below m v"
  by (cases "obj_atoms v"; cases "obj_bonds v"; cases "obj_backbone v")
     (auto simp add: prims_below_def)

lemma res_invD:
  assumes "res_inv s"
  shows "effect s = map_option snd (memo s)" and "created s = disposed s @ held s"
    and "distinct (created s)" and "\<forall>a \<in> set (created s). a < next_addr s"
    and "case effect s of None \<Rightarrow> True | Some v \<Rightarrow> prims_below (next_addr s) v"
  using assms unfolding res_inv_def by blast+

lemma res_invI:
  assumes "effect s = map_option snd (memo s)" and "created s = disposed s @ held s"
    and "distinct (created s)" and "\<forall>a \<in> set (created s). a < next_addr s"
    and "case effect s of None \<Rightarrow> True | Some v \<Rightarrow> prims_below (next_addr s) v"
  shows "res_inv s"
  using assms unfolding res_inv_def by blast

lemma freshD:
  assumes "fresh v s s'"
  shows "memo s' = memo s" and "effect s' = effect s" and "disposed s' = disposed s"
    and "created s' = created s @ objects_resources v" and "next_addr s \<le> next_addr s'"
    and "prims_from (next_addr s) v" and "prims_below (next_addr s') v"
    and "\<forall>a \<in> set (objects_resources v). next_addr s \<le> a \<and> a < next_addr s'"
    and "distinct (objects_resources v)"
  using assms unfolding fresh_def by blast+

text \<open>
  The pass that finds the dependencies unchanged under \<open>Object.is\<close>: it returns the held
  objects and changes nothing.
\<close>

lemma useSceneObjects_hit:
  assumes "res_inv s" and "memo_hit (scene, atoms opts, bonds opts, backbone opts) s"
  shows "\<exists>v0. effect s = Some v0 \<and> useSceneObjects B scene opts s = (v0, s)"
proof -
  from use_memo_hit[OF assms(2), of B] obtain d0 v0 where
    m: "memo s = Some (d0, v0)" and u: "use_memo B scene opts s = (v0, s)" by blast
  from res_invD(1)[OF assms(1)] m have e: "effect s = Some v0" by simp
  with u show ?thesis by (simp add: useSceneObjects_def use_effect_def same_prims_refl)
qed

text \<open>The pass that rebuilds.\<close>

lemma useSceneObjects_miss:
  assumes "res_inv s" and "\<not> memo_hit (scene, atoms opts, bonds opts, backbone opts) s"
    and "useSceneObjects B scene opts s = (v, s')"
  shows "res_inv s'" and "effect s' = Some v"
    and "disposed s' = disposed s @ held s"
    and "case effect s of None \<Rightarrow> True | Some v0 \<Rightarrow> \<not> shares_prim v0 v"
proof -
  obtain w t where f: "factory B scene opts s = (w, t)" by (cases "factory B scene opts s")
  let ?d = "(scene, atoms opts, bonds opts, backbone opts)"
  let ?t = "t\<lparr>memo := Some (?d, w)\<rparr>"
  from use_memo_miss[OF assms(2) f] assms(3)
  have vw: "v = w" and s': "s' = use_effect w ?t"
    by (auto simp add: useSceneObjects_def)
  note t = freshD[OF factory_fresh[OF f]]
  note i = res_invD[OF assms(1)]
  have dc: "distinct (created s @ objects_resources w)"
    using i(3,4) t(8,9) by fastforce
  have bd: "\<forall>a \<in> set (created s @ objects_resources w). a < next_addr t"
    using i(4) t(5,8) by fastforce
  show ns: "case effect s of None \<Rightarrow> True | Some v0 \<Rightarrow> \<not> shares_prim v0 v"
    using i(5) t(6) vw by (cases "effect s") (auto dest: fresh_not_shared)
  have "effect s' = Some w \<and> memo s' = Some (?d, w) \<and> next_addr s' = next_addr t \<and>
        created s' = created s @ objects_resources w \<and> disposed s' = disposed s @ held s"
  proof (cases "effect s")
    case None
    with s' t(2) have "s' = ?t\<lparr>effect := Some w\<rparr>" by (simp add: use_effect_def)
    with t(3,4) None show ?thesis by (simp add: held_def)
  next
    case (Some v0)
    with i(5) have pb: "prims_below (next_addr s) v0" by simp
    from Some have h: "held s = objects_resources v0" by (simp add: held_def)
    show ?thesis
    proof (cases "same_prims v0 w")
      case True
      from same_prims_fresh[OF pb t(6) True] have e: "v0 = w" "objects_resources v0 = []" .
      from True Some s' t(2) have "s' = ?t" by (simp add: use_effect_def)
      with t(2,3,4) e Some h show ?thesis by simp
    next
      case False
      with Some s' t(2) have "s' = (cleanup v0 ?t)\<lparr>effect := Some w\<rparr>"
        by (simp add: use_effect_def)
      with t(3,4) h show ?thesis by (simp add: cleanup_def)
    qed
  qed
  then have e: "effect s' = Some w" and m: "memo s' = Some (?d, w)"
    and n: "next_addr s' = next_addr t"
    and c: "created s' = created s @ objects_resources w"
    and d: "disposed s' = disposed s @ held s" by blast+
  from e vw show "effect s' = Some v" by simp
  from d show "disposed s' = disposed s @ held s" .
  show "res_inv s'"
  proof (rule res_invI)
    show "effect s' = map_option snd (memo s')" using e m by simp
    show "created s' = disposed s' @ held s'"
      using c d e i(2) by (simp add: held_def)
    show "distinct (created s')" using c dc by simp
    show "\<forall>a \<in> set (created s'). a < next_addr s'" using c n bd by simp
    show "case effect s' of None \<Rightarrow> True | Some v \<Rightarrow> prims_below (next_addr s') v"
      using e n t(7) by simp
  qed
qed

lemma res_inv_init: "res_inv cache_init"
  by (simp add: res_inv_def cache_init_def held_def)

lemma res_inv_useSceneObjects:
  assumes "res_inv s" and "useSceneObjects B scene opts s = (v, s')"
  shows "res_inv s'" and "effect s' = Some v"
proof -
  have "res_inv s' \<and> effect s' = Some v"
  proof (cases "memo_hit (scene, atoms opts, bonds opts, backbone opts) s")
    case True
    from useSceneObjects_hit[OF assms(1) True, of B] assms show ?thesis by auto
  next
    case False
    from useSceneObjects_miss(1,2)[OF assms(1) False assms(2)] show ?thesis by simp
  qed
  then show "res_inv s'" and "effect s' = Some v" by simp_all
qed

lemma res_inv_unmount:
  assumes "res_inv s"
  shows "disposed (cache_unmount s) = created s" and "distinct (created s)"
    and "distinct (disposed s)" and "set (disposed s) \<subseteq> set (created s)"
proof -
  note i = res_invD[OF assms]
  show "disposed (cache_unmount s) = created s"
    using i(2) by (cases "effect s") (simp_all add: held_def cache_unmount_def cleanup_def)
  show "distinct (created s)" by (rule i(3))
  from i(2,3) have "distinct (disposed s @ held s)" by simp
  then show "distinct (disposed s)" by simp
  from i(2) have "set (created s) = set (disposed s) \<union> set (held s)" by simp
  then show "set (disposed s) \<subseteq> set (created s)" by blast
qed

lemma ribbon_invD:
  assumes "ribbon_inv s"
  shows "cartoon_effect s = map_option snd (cartoon_memo s)"
    and "map (\<lambda>g. (fst g, dispose_tree (snd g))) (r_built s) =
           r_disposed s @ group_release (held_cartoon s)"
    and "distinct (map fst (r_built s))"
    and "\<forall>n \<in> set (map fst (r_built s)). n < next_group s"
  using assms unfolding ribbon_inv_def by blast+

lemma ribbon_invI:
  assumes "cartoon_effect s = map_option snd (cartoon_memo s)"
    and "map (\<lambda>g. (fst g, dispose_tree (snd g))) (r_built s) =
           r_disposed s @ group_release (held_cartoon s)"
    and "distinct (map fst (r_built s))"
    and "\<forall>n \<in> set (map fst (r_built s)). n < next_group s"
  shows "ribbon_inv s"
  using assms unfolding ribbon_inv_def by blast

lemma build_group_res:
  assumes "build_group c r s = (w, t)"
  shows "cartoon_memo t = cartoon_memo s" and "cartoon_effect t = cartoon_effect s"
    and "r_disposed t = r_disposed s"
    and "case w of
           None \<Rightarrow> r_built t = r_built s \<and> next_group t = next_group s
         | Some g \<Rightarrow> fst g = next_group s \<and> r_built t = r_built s @ [g] \<and>
                      next_group t = Suc (next_group s)"
  using assms by (cases r; auto simp add: build_group_def Let_def)+

lemma cartoon_factory_res:
  assumes "cartoon_factory B d s = (w, t)"
  shows "cartoon_memo t = cartoon_memo s" and "cartoon_effect t = cartoon_effect s"
    and "r_disposed t = r_disposed s"
    and "case w of
           None \<Rightarrow> r_built t = r_built s \<and> next_group t = next_group s
         | Some g \<Rightarrow> fst g = next_group s \<and> r_built t = r_built s @ [g] \<and>
                      next_group t = Suc (next_group s)"
proof -
  obtain scene rep kind th where d: "d = (scene, rep, kind, th)" by (cases d)
  have "(w, t) = (None, s) \<or> (\<exists>c r. build_group c r s = (w, t))"
    using assms d by (cases scene) (auto simp add: cartoon_factory_def split: if_splits)
  then show "cartoon_memo t = cartoon_memo s" and "cartoon_effect t = cartoon_effect s"
    and "r_disposed t = r_disposed s"
    and "case w of
           None \<Rightarrow> r_built t = r_built s \<and> next_group t = next_group s
         | Some g \<Rightarrow> fst g = next_group s \<and> r_built t = r_built s @ [g] \<and>
                      next_group t = Suc (next_group s)"
    by (auto dest: build_group_res)
qed

lemma held_group_below:
  assumes "ribbon_inv s" and "cartoon_effect s = Some (Some g)"
  shows "fst g < next_group s"
proof -
  from assms(2) have "group_release (held_cartoon s) = [(fst g, dispose_tree (snd g))]"
    by (cases g) (simp add: group_release_def held_cartoon_def)
  with ribbon_invD(2)[OF assms(1)]
  have "map (\<lambda>g. (fst g, dispose_tree (snd g))) (r_built s) =
          r_disposed s @ [(fst g, dispose_tree (snd g))]" by simp
  then have "map fst (map (\<lambda>g. (fst g, dispose_tree (snd g))) (r_built s)) =
          map fst (r_disposed s) @ [fst g]" by simp
  then have "map fst (r_built s) = map fst (r_disposed s) @ [fst g]" by (simp add: comp_def)
  then have "fst g \<in> set (map fst (r_built s))" by simp
  with ribbon_invD(4)[OF assms(1)] show ?thesis by blast
qed

lemma useCartoon_res:
  assumes "ribbon_inv s" and "useCartoon B d s = (v, s')"
  shows "ribbon_inv s'" and "cartoon_effect s' = Some v"
    and "r_disposed s' = r_disposed s @
           (if map_option fst (held_cartoon s) = map_option fst v then []
            else group_release (held_cartoon s))"
proof -
  from assms(2) obtain u where m: "cartoon_memo_step B d s = (v, u)"
    and s': "s' = cartoon_effect_step v u" by (rule useCartoonE)
  note i = ribbon_invD[OF assms(1)]
  have "ribbon_inv s' \<and> cartoon_effect s' = Some v \<and>
        r_disposed s' = r_disposed s @
           (if map_option fst (held_cartoon s) = map_option fst v then []
            else group_release (held_cartoon s))"
  proof (cases "cartoon_hit d s")
    case True
    from cartoon_memo_step_hit[OF True, of B] m
    have mm: "cartoon_memo s = Some (d, v)" and u: "u = s" by auto
    from i(1) mm have e: "cartoon_effect s = Some v" by simp
    with s' u have "s' = s" by (simp add: cartoon_effect_step_def)
    with e assms(1) show ?thesis by (simp add: held_cartoon_def)
  next
    case False
    obtain w t where f: "cartoon_factory B d s = (w, t)" by (cases "cartoon_factory B d s")
    from cartoon_memo_step_miss[OF False f] m
    have vw: "v = w" and u: "u = t\<lparr>cartoon_memo := Some (d, w)\<rparr>" by auto
    note t = cartoon_factory_res[OF f]
    have bl: "map (\<lambda>g. (fst g, dispose_tree (snd g))) (r_built t) =
              r_disposed s @ group_release (held_cartoon s) @ group_release w"
      using t(4) i(2) by (cases w) (auto simp add: group_release_def)
    have di: "distinct (map fst (r_built t))"
      using t(4) i(3,4) by (cases w) auto
    have bd: "\<forall>n \<in> set (map fst (r_built t)). n < next_group t"
      using t(4) i(4) by (cases w) (auto simp add: less_Suc_eq)
    have "cartoon_effect s' = Some w \<and> cartoon_memo s' = Some (d, w) \<and>
          r_built s' = r_built t \<and> next_group s' = next_group t \<and>
          r_disposed s' = r_disposed s @
           (if map_option fst (held_cartoon s) = map_option fst w then []
            else group_release (held_cartoon s)) \<and>
          (map_option fst (held_cartoon s) = map_option fst w \<longrightarrow>
             group_release (held_cartoon s) = [])"
    proof (cases "cartoon_effect s")
      case None
      with s' u t(2) vw have "s' = (t\<lparr>cartoon_memo := Some (d, w)\<rparr>)\<lparr>cartoon_effect := Some w\<rparr>"
        by (simp add: cartoon_effect_step_def)
      with t(3) None show ?thesis by (simp add: held_cartoon_def group_release_def)
    next
      case (Some v0)
      then have h: "held_cartoon s = v0" by (simp add: held_cartoon_def)
      show ?thesis
      proof (cases "map_option fst v0 = map_option fst w")
        case True
        have "v0 = None \<and> w = None"
        proof (cases v0)
          case None
          with True show ?thesis by simp
        next
          case (Some g)
          with \<open>cartoon_effect s = Some v0\<close> assms(1) have "fst g < next_group s"
            by (auto dest: held_group_below)
          moreover from True Some obtain g' where "w = Some g'" "fst g' = fst g"
            by (cases w) auto
          moreover from this t(4) have "fst g' = next_group s" by simp
          ultimately show ?thesis by simp
        qed
        moreover from True Some s' u t(2) vw have "s' = t\<lparr>cartoon_memo := Some (d, w)\<rparr>"
          by (simp add: cartoon_effect_step_def)
        ultimately show ?thesis using t(2,3) Some h by (simp add: group_release_def)
      next
        case False
        with Some s' u t(2) vw
        have "s' = (cartoon_cleanup v0 (t\<lparr>cartoon_memo := Some (d, w)\<rparr>))\<lparr>cartoon_effect := Some w\<rparr>"
          by (simp add: cartoon_effect_step_def)
        with t(3) h False show ?thesis
          by (cases v0) (auto simp add: cartoon_cleanup_def group_release_def)
      qed
    qed
    then have e: "cartoon_effect s' = Some w" and mm: "cartoon_memo s' = Some (d, w)"
      and b: "r_built s' = r_built t" and n: "next_group s' = next_group t"
      and ds: "r_disposed s' = r_disposed s @
           (if map_option fst (held_cartoon s) = map_option fst w then []
            else group_release (held_cartoon s))"
      and em': "map_option fst (held_cartoon s) = map_option fst w \<longrightarrow>
             group_release (held_cartoon s) = []" by simp_all
    have "ribbon_inv s'"
    proof (rule ribbon_invI)
      show "cartoon_effect s' = map_option snd (cartoon_memo s')" using e mm by simp
      show "map (\<lambda>g. (fst g, dispose_tree (snd g))) (r_built s') =
              r_disposed s' @ group_release (held_cartoon s')"
        using b bl ds e em' by (simp add: held_cartoon_def)
      show "distinct (map fst (r_built s'))" using b di by simp
      show "\<forall>n \<in> set (map fst (r_built s')). n < next_group s'" using b n bd by simp
    qed
    with e ds vw show ?thesis by simp
  qed
  then show "ribbon_inv s'" and "cartoon_effect s' = Some v"
    and "r_disposed s' = r_disposed s @
           (if map_option fst (held_cartoon s) = map_option fst v then []
            else group_release (held_cartoon s))" by blast+
qed

lemma ribbon_inv_init: "ribbon_inv ribbon_init"
  by (simp add: ribbon_inv_def ribbon_init_def held_cartoon_def group_release_def)

lemma ribbon_inv_unmount:
  assumes "ribbon_inv s"
  shows "r_disposed (ribbon_unmount s) = r_disposed s @ group_release (held_cartoon s)"
    and "r_disposed (ribbon_unmount s) = map (\<lambda>g. (fst g, dispose_tree (snd g))) (r_built s)"
    and "distinct (map fst (r_built s))"
proof -
  show 1: "r_disposed (ribbon_unmount s) = r_disposed s @ group_release (held_cartoon s)"
    by (cases "cartoon_effect s"; cases "held_cartoon s")
       (auto simp add: ribbon_unmount_def cartoon_cleanup_def group_release_def held_cartoon_def)
  with ribbon_invD(2)[OF assms]
  show "r_disposed (ribbon_unmount s) = map (\<lambda>g. (fst g, dispose_tree (snd g))) (r_built s)"
    by simp
  show "distinct (map fst (r_built s))" by (rule ribbon_invD(3)[OF assms])
qed

lemma same_not_shared_empty:
  assumes "same_prims v0 v" and "\<not> shares_prim v0 v"
  shows "objects_resources v0 = []"
  using assms
  by (cases "obj_atoms v0"; cases "obj_atoms v"; cases "obj_bonds v0"; cases "obj_bonds v";
      cases "obj_backbone v0"; cases "obj_backbone v")
     (auto simp add: same_prims_def shares_prim_def objects_resources_def prim_resources_def)

lemma held_objects_resources: "objects_resources (held_objects s) = held s"
  by (cases "effect s")
     (simp_all add: held_objects_def held_def objects_resources_def prim_resources_def)

lemma useSceneObjects_release:
  assumes "res_inv s" and "useSceneObjects B scene opts s = (v, s')"
  shows "\<not> same_prims (held_objects s) v \<longrightarrow>
           disposed s' = disposed s @ objects_resources (held_objects s)"
    and "same_prims (held_objects s) v \<longrightarrow> disposed s' = disposed s"
    and "shares_prim (held_objects s) v \<longrightarrow> disposed s' = disposed s"
proof -
  have "(\<not> same_prims (held_objects s) v \<longrightarrow>
           disposed s' = disposed s @ objects_resources (held_objects s)) \<and>
        (same_prims (held_objects s) v \<longrightarrow> disposed s' = disposed s) \<and>
        (shares_prim (held_objects s) v \<longrightarrow> disposed s' = disposed s)"
  proof (cases "memo_hit (scene, atoms opts, bonds opts, backbone opts) s")
    case True
    from useSceneObjects_hit[OF assms(1) True, of B] assms(2)
    have "effect s = Some v" "s' = s" by auto
    then show ?thesis by (simp add: held_objects_def same_prims_refl)
  next
    case False
    note m = useSceneObjects_miss(3,4)[OF assms(1) False assms(2)]
    have ns: "\<not> shares_prim (held_objects s) v"
      using m(2) by (cases "effect s") (simp_all add: held_objects_def shares_prim_def)
    from m(1) have d: "disposed s' = disposed s @ objects_resources (held_objects s)"
      by (simp add: held_objects_resources)
    from same_not_shared_empty[OF _ ns] d show ?thesis using ns by auto
  qed
  then show "\<not> same_prims (held_objects s) v \<longrightarrow>
           disposed s' = disposed s @ objects_resources (held_objects s)"
    and "same_prims (held_objects s) v \<longrightarrow> disposed s' = disposed s"
    and "shares_prim (held_objects s) v \<longrightarrow> disposed s' = disposed s" by simp_all
qed

lemma own_inv_init: "own_inv view_init"
  using res_inv_init ribbon_inv_init
  by (simp add: own_inv_def view_init_def held_objects_def held_cartoon_def)
     (simp add: cache_init_def ribbon_init_def)

lemma own_inv_step:
  assumes "own_inv s"
  shows "own_inv (step B e s)"
proof (cases e)
  case (Render i)
  obtain opts n v c k r where
    2: "useSceneObjects B (in_scene i) opts (cache s) = (v, c)" and
    3: "useCartoon B (cartoon_deps_of (in_scene i) (in_controls i)) (ribbon s) = (k, r)" and
    4: "MoleculeView B i s =
       \<lparr> next_obj = n, cache = c, ribbon = r, fitc = fit_commit (reload_deps_of i) (fitc s),
         cur_objects = v, cur_cartoon = k, content = displayed (in_controls i) k v \<rparr>"
    by (rule MoleculeViewE)
  from assms have "res_inv (cache s)" "ribbon_inv (ribbon s)" by (simp_all add: own_inv_def)
  with res_inv_useSceneObjects[OF _ 2] useCartoon_res(1,2)[OF _ 3] Render 4
  show ?thesis by (simp add: own_inv_def held_objects_def held_cartoon_def)
next
  case (Timeout out)
  with assms show ?thesis by (simp add: own_inv_def)
next
  case (Frame cur out)
  with assms show ?thesis by (simp add: own_inv_def)
qed

lemma own_inv_run: "own_inv (run B evs view_init)"
  by (rule run_induct) (simp_all add: own_inv_init own_inv_step)

lemma dispose_tree_covers:
  assumes "node \<in> set (traverse t)" and "mesh_of node = Some (g, ms)"
  shows "g \<in> set (dispose_tree t)" and "set (mats_list ms) \<subseteq> set (dispose_tree t)"
proof -
  from assms(2) have "dispose_node node = g # mats_list ms" by (simp add: dispose_node_def)
  with assms(1) have "set (g # mats_list ms) \<subseteq> set (dispose_tree t)"
    unfolding dispose_tree_def by (metis UN_upper image_eqI list.set_map set_concat)
  then show "g \<in> set (dispose_tree t)" and "set (mats_list ms) \<subseteq> set (dispose_tree t)"
    by simp_all
qed

lemma traverse_child:
  assumes "c \<in> set cs"
  shows "set (traverse c) \<subseteq> set (traverse (Obj3d m cs))"
  using assms by auto

lemma concat_map_concat:
  "concat (map f (concat xss)) = concat (map (\<lambda>xs. concat (map f xs)) xss)"
  by (induction xss) simp_all

lemma dispose_tree_unfold:
  "dispose_tree (Obj3d m cs) = dispose_node (Obj3d m cs) @ concat (map dispose_tree cs)"
proof -
  have "dispose_tree (Obj3d m cs) =
        dispose_node (Obj3d m cs) @ concat (map dispose_node (concat (map traverse cs)))"
    by (simp add: dispose_tree_def)
  also have "concat (map dispose_node (concat (map traverse cs))) =
        concat (map (\<lambda>xs. concat (map dispose_node xs)) (map traverse cs))"
    by (rule concat_map_concat)
  also have "\<dots> = concat (map dispose_tree cs)"
    unfolding dispose_tree_def by (simp add: comp_def)
  finally show ?thesis .
qed

lemma dispose_tree_cases:
  "dispose_tree (Obj3d None cs) = concat (map dispose_tree cs)"
  "dispose_tree (Obj3d (Some (g, Single a)) cs) = g # a # concat (map dispose_tree cs)"
  "dispose_tree (Obj3d (Some (g, Multi xs)) cs) = g # xs @ concat (map dispose_tree cs)"
  by (simp_all add: dispose_tree_unfold dispose_node_def)

lemma traverse_self: "t \<in> set (traverse t)"
  by (cases t) simp

lemma cartoon_effect_step_built: "r_built (cartoon_effect_step v s) = r_built s"
  by (auto simp add: cartoon_effect_step_def cartoon_cleanup_def split: option.splits)

lemma useCartoon_built:
  assumes "ribbon_inv s"
    and "\<forall>g. held_cartoon s = Some g \<longrightarrow> g \<in> set (r_built s)"
    and "useCartoon B d s = (v, s')"
  shows "\<forall>g. v = Some g \<longrightarrow> g \<in> set (r_built s')"
proof -
  from assms(3) obtain u where m: "cartoon_memo_step B d s = (v, u)"
    and s': "s' = cartoon_effect_step v u" by (rule useCartoonE)
  show ?thesis
  proof (cases "cartoon_hit d s")
    case True
    from cartoon_memo_step_hit[OF True, of B] m
    have mm: "cartoon_memo s = Some (d, v)" and u: "u = s" by auto
    from ribbon_invD(1)[OF assms(1)] mm have "held_cartoon s = v" by (simp add: held_cartoon_def)
    with assms(2) s' u show ?thesis by (simp add: cartoon_effect_step_built)
  next
    case False
    obtain w t where f: "cartoon_factory B d s = (w, t)" by (cases "cartoon_factory B d s")
    from cartoon_memo_step_miss[OF False f] m
    have vw: "v = w" and u: "u = t\<lparr>cartoon_memo := Some (d, w)\<rparr>" by auto
    from cartoon_factory_res(4)[OF f] vw s' u show ?thesis
      by (cases w) (auto simp add: cartoon_effect_step_built)
  qed
qed

lemma group_kept_step:
  assumes "own_inv s" and "group_kept s"
  shows "group_kept (step B e s)"
proof (cases e)
  case (Render i)
  obtain opts n v c k r where
    3: "useCartoon B (cartoon_deps_of (in_scene i) (in_controls i)) (ribbon s) = (k, r)" and
    4: "MoleculeView B i s =
       \<lparr> next_obj = n, cache = c, ribbon = r, fitc = fit_commit (reload_deps_of i) (fitc s),
         cur_objects = v, cur_cartoon = k, content = displayed (in_controls i) k v \<rparr>"
    by (rule MoleculeViewE)
  from assms have bi: "ribbon_inv (ribbon s)"
    and h: "\<forall>g. held_cartoon (ribbon s) = Some g \<longrightarrow> g \<in> set (r_built (ribbon s))"
    by (simp_all add: own_inv_def group_kept_def)
  from useCartoon_built[OF bi h 3] Render 4 show ?thesis by (simp add: group_kept_def)
next
  case (Timeout out)
  with assms(2) show ?thesis by (simp add: group_kept_def)
next
  case (Frame cur out)
  with assms(2) show ?thesis by (simp add: group_kept_def)
qed

lemma group_kept_run: "group_kept (run B evs view_init)"
proof -
  have "own_inv (run B evs view_init) \<and> group_kept (run B evs view_init)"
    by (rule run_induct[where P = "\<lambda>s. own_inv s \<and> group_kept s"])
       (simp_all add: own_inv_init own_inv_step group_kept_step,
        simp add: group_kept_def view_init_def)
  then show ?thesis by simp
qed

lemma group_release_eq:
  "group_release k = (case k of None \<Rightarrow> [] | Some g \<Rightarrow> [(fst g, dispose_tree (snd g))])"
  by (cases k) (auto simp add: group_release_def)

subsection \<open>Release of the resources\<close>

text \<open>
  Claim C2. Take any state the view can reach and any further render pass. If the pass
  changes the identity of a returned primitive, the geometry and the material of every
  primitive held before are disposed, in one cleanup; if it changes none, nothing is
  disposed, and nothing is disposed either when some primitive keeps its identity.
  Unmounting disposes what is held. Over the whole life of the view every resource created
  is disposed exactly once: the disposals at unmount are the creations, in order and
  without repetition.

  The ribbon group follows the same contract. A pass that changes the identity of the
  group runs the cleanup of the group held before, and a pass that keeps it runs none;
  unmounting runs the cleanup of the group held; every group a pass returns is among the
  groups built, and at unmount the cleanups run are those of the groups built, one each and
  in order, so that the resources released are those of the built groups, as often as the
  builders put them there: once each when no builder shares a resource. The cleanup of a
  group releases, node by node from the group itself down through every child, the
  geometry of each mesh followed by its material or by every material of its array.
\<close>

theorem resources_released_exactly_once:
  assumes "s = run B evs view_init" and "s' = MoleculeView B i s"
  shows "(\<not> same_prims (cur_objects s) (cur_objects s') \<longrightarrow>
            disposed (cache s') = disposed (cache s) @ objects_resources (cur_objects s)) \<and>
         (same_prims (cur_objects s) (cur_objects s') \<longrightarrow>
            disposed (cache s') = disposed (cache s)) \<and>
         (shares_prim (cur_objects s) (cur_objects s') \<longrightarrow>
            disposed (cache s') = disposed (cache s)) \<and>
         disposed (cache (view_unmount s)) =
            disposed (cache s) @ objects_resources (cur_objects s) \<and>
         disposed (cache (view_unmount s)) = created (cache s) \<and>
         distinct (created (cache s)) \<and>
         r_disposed (ribbon s') = r_disposed (ribbon s) @
            (if map_option fst (cur_cartoon s) = map_option fst (cur_cartoon s') then []
             else (case cur_cartoon s of None \<Rightarrow> []
                   | Some g \<Rightarrow> [(fst g, dispose_tree (snd g))])) \<and>
         r_disposed (ribbon (view_unmount s)) =
            r_disposed (ribbon s) @
            (case cur_cartoon s of None \<Rightarrow> [] | Some g \<Rightarrow> [(fst g, dispose_tree (snd g))]) \<and>
         r_disposed (ribbon (view_unmount s)) =
            map (\<lambda>g. (fst g, dispose_tree (snd g))) (r_built (ribbon s)) \<and>
         distinct (map fst (r_built (ribbon s))) \<and>
         (\<forall>g. cur_cartoon s' = Some g \<longrightarrow> g \<in> set (r_built (ribbon s'))) \<and>
         concat (map snd (r_disposed (ribbon (view_unmount s)))) =
            concat (map (\<lambda>g. dispose_tree (snd g)) (r_built (ribbon s))) \<and>
         (distinct (concat (map (\<lambda>g. dispose_tree (snd g)) (r_built (ribbon s)))) \<longrightarrow>
            distinct (concat (map snd (r_disposed (ribbon (view_unmount s)))))) \<and>
         (\<forall>cs. dispose_tree (Obj3d None cs) = concat (map dispose_tree cs)) \<and>
         (\<forall>g a cs. dispose_tree (Obj3d (Some (g, Single a)) cs) =
            g # a # concat (map dispose_tree cs)) \<and>
         (\<forall>g xs cs. dispose_tree (Obj3d (Some (g, Multi xs)) cs) =
            g # xs @ concat (map dispose_tree cs)) \<and>
         (\<forall>t. t \<in> set (traverse t)) \<and>
         (\<forall>t node g ms. node \<in> set (traverse t) \<and> mesh_of node = Some (g, ms) \<longrightarrow>
            g \<in> set (dispose_tree t) \<and> set (mats_list ms) \<subseteq> set (dispose_tree t)) \<and>
         (\<forall>m cs c. c \<in> set cs \<longrightarrow> set (traverse c) \<subseteq> set (traverse (Obj3d m cs)))"
proof -
  from own_inv_run[of B evs] assms(1)
  have oi: "own_inv s" and ri: "res_inv (cache s)" and bi: "ribbon_inv (ribbon s)"
    and co: "cur_objects s = held_objects (cache s)"
    and cc: "cur_cartoon s = held_cartoon (ribbon s)" by (simp_all add: own_inv_def)
  from group_kept_run[of B evs] assms(1) have gk: "group_kept s" by simp
  obtain opts n v c k r where
    2: "useSceneObjects B (in_scene i) opts (cache s) = (v, c)" and
    3: "useCartoon B (cartoon_deps_of (in_scene i) (in_controls i)) (ribbon s) = (k, r)" and
    4: "MoleculeView B i s =
       \<lparr> next_obj = n, cache = c, ribbon = r, fitc = fit_commit (reload_deps_of i) (fitc s),
         cur_objects = v, cur_cartoon = k, content = displayed (in_controls i) k v \<rparr>"
    by (rule MoleculeViewE)
  from 4 assms(2) have f: "cur_objects s' = v" "cur_cartoon s' = k" "cache s' = c" "ribbon s' = r"
    by simp_all
  note rel = useSceneObjects_release[OF ri 2]
  note un = res_inv_unmount(1,2)[OF ri]
  note rr = useCartoon_res(3)[OF bi 3]
  note ru = ribbon_inv_unmount[OF bi]
  have u1: "disposed (cache (view_unmount s)) =
            disposed (cache s) @ objects_resources (cur_objects s)"
    using co res_invD(2)[OF ri] un(1)
    by (simp add: view_unmount_def held_objects_resources)
  have u2: "disposed (cache (view_unmount s)) = created (cache s)"
    using un(1) by (simp add: view_unmount_def)
  have r1: "r_disposed (ribbon s') = r_disposed (ribbon s) @
            (if map_option fst (cur_cartoon s) = map_option fst (cur_cartoon s') then []
             else (case cur_cartoon s of None \<Rightarrow> []
                   | Some g \<Rightarrow> [(fst g, dispose_tree (snd g))]))"
    using rr f cc by (simp add: group_release_eq)
  have u3: "r_disposed (ribbon (view_unmount s)) =
            r_disposed (ribbon s) @
            (case cur_cartoon s of None \<Rightarrow> [] | Some g \<Rightarrow> [(fst g, dispose_tree (snd g))])"
    using ru(1) cc by (simp add: view_unmount_def group_release_eq)
  have u4: "r_disposed (ribbon (view_unmount s)) =
            map (\<lambda>g. (fst g, dispose_tree (snd g))) (r_built (ribbon s))"
    using ru(2) by (simp add: view_unmount_def)
  have u5: "concat (map snd (r_disposed (ribbon (view_unmount s)))) =
            concat (map (\<lambda>g. dispose_tree (snd g)) (r_built (ribbon s)))"
    by (simp add: u4 comp_def)
  have kp: "\<forall>g. cur_cartoon s' = Some g \<longrightarrow> g \<in> set (r_built (ribbon s'))"
    using group_kept_step[OF oi gk, of B "Render i"] assms(2) by (simp add: group_kept_def)
  have cv: "\<forall>t node g ms. node \<in> set (traverse t) \<and> mesh_of node = Some (g, ms) \<longrightarrow>
            g \<in> set (dispose_tree t) \<and> set (mats_list ms) \<subseteq> set (dispose_tree t)"
    using dispose_tree_covers by blast
  have tc: "\<forall>m cs c. c \<in> set cs \<longrightarrow> set (traverse c) \<subseteq> set (traverse (Obj3d m cs))"
    using traverse_child by blast
  have ts: "\<forall>t. t \<in> set (traverse t)" by (simp add: traverse_self)
  note dc = dispose_tree_cases
  from rel f co have p123: "(\<not> same_prims (cur_objects s) (cur_objects s') \<longrightarrow>
            disposed (cache s') = disposed (cache s) @ objects_resources (cur_objects s)) \<and>
         (same_prims (cur_objects s) (cur_objects s') \<longrightarrow>
            disposed (cache s') = disposed (cache s)) \<and>
         (shares_prim (cur_objects s) (cur_objects s') \<longrightarrow>
            disposed (cache s') = disposed (cache s))" by simp
  from p123 u1 u2 un(2) r1 u3 u4 ru(3) kp u5 dc ts cv tc show ?thesis by simp
qed

lemma demo_leave_ribbon:
  "map_option fst (cur_cartoon (run demo_builders [Render demo_ribbon_input] view_init)) \<noteq>
   map_option fst (cur_cartoon (MoleculeView demo_builders demo_input
      (run demo_builders [Render demo_ribbon_input] view_init)))"
  "r_disposed (ribbon (run demo_builders [Render demo_ribbon_input] view_init)) = []"
  "(case cur_cartoon (run demo_builders [Render demo_ribbon_input] view_init) of None \<Rightarrow> []
    | Some g \<Rightarrow> [(fst g, dispose_tree (snd g))]) = [(0, [100, 101, 102, 103, 104])]"
  "\<not> same_prims (cur_objects (run demo_builders [Render demo_ribbon_input] view_init))
       (cur_objects (MoleculeView demo_builders demo_input
          (run demo_builders [Render demo_ribbon_input] view_init)))"
  "disposed (cache (run demo_builders [Render demo_ribbon_input] view_init)) = []"
  "objects_resources (cur_objects (run demo_builders [Render demo_ribbon_input] view_init)) =
     [1, 2]"
  by (simp_all add: demo_defs view_defs cache_defs ribbon_defs)

theorem resources_released_exactly_once_witness:
  "\<not> same_prims (cur_objects (run demo_builders [Render demo_ribbon_input] view_init))
       (cur_objects (MoleculeView demo_builders demo_input
          (run demo_builders [Render demo_ribbon_input] view_init))) \<and>
   disposed (cache (MoleculeView demo_builders demo_input
          (run demo_builders [Render demo_ribbon_input] view_init))) = [1, 2] \<and>
   map_option fst (cur_cartoon (run demo_builders [Render demo_ribbon_input] view_init)) \<noteq>
   map_option fst (cur_cartoon (MoleculeView demo_builders demo_input
      (run demo_builders [Render demo_ribbon_input] view_init))) \<and>
   r_disposed (ribbon (MoleculeView demo_builders demo_input
          (run demo_builders [Render demo_ribbon_input] view_init))) =
     [(0, [100, 101, 102, 103, 104])]"
proof -
  let ?s = "run demo_builders [Render demo_ribbon_input] view_init"
  let ?s' = "MoleculeView demo_builders demo_input ?s"
  note t = resources_released_exactly_once[OF refl refl, where B = demo_builders
      and evs = "[Render demo_ribbon_input]" and i = demo_input]
  from t have a: "\<not> same_prims (cur_objects ?s) (cur_objects ?s') \<longrightarrow>
          disposed (cache ?s') = disposed (cache ?s) @ objects_resources (cur_objects ?s)"
    by blast
  from t have b: "r_disposed (ribbon ?s') = r_disposed (ribbon ?s) @
            (if map_option fst (cur_cartoon ?s) = map_option fst (cur_cartoon ?s') then []
             else (case cur_cartoon ?s of None \<Rightarrow> []
                   | Some g \<Rightarrow> [(fst g, dispose_tree (snd g))]))"
    by blast
  from a demo_leave_ribbon(4,5,6) have 1: "disposed (cache ?s') = [1, 2]" by simp
  from b demo_leave_ribbon(1,2,3) have 2: "r_disposed (ribbon ?s') = [(0, [100, 101, 102, 103, 104])]"
    by simp
  from 1 2 demo_leave_ribbon(1,4) show ?thesis by blast
qed

subsection \<open>Memoization across render passes\<close>

text \<open>
  Claim C1, at a concrete input. Two consecutive render passes read the same scene and the
  same controls, so the memoization tuple is equal by value; but lines 116 to 120 evaluate
  the atoms and backbone option objects anew in each pass, and \<open>useMemo\<close> compares them by
  reference. The second pass calls all three builders again, disposes the six resources
  of the first pass, and returns an atom primitive of another identity.
\<close>

theorem rerender_rebuilds:
  "value_eq (atoms (fst (derive_opts demo_controls 0))) (atoms (fst (derive_opts demo_controls 2))) \<and>
   value_eq (backbone (fst (derive_opts demo_controls 0)))
     (backbone (fst (derive_opts demo_controls 2))) \<and>
   calls (cache (run demo_builders [Render demo_input] view_init)) =
     [MakeAtoms 7 16 Standard (3 / 10), MakeBonds 7, MakeBackbone 7 16777215] \<and>
   calls (cache (run demo_builders [Render demo_input, Render demo_input] view_init)) =
     [MakeAtoms 7 16 Standard (3 / 10), MakeBonds 7, MakeBackbone 7 16777215,
      MakeAtoms 7 16 Standard (3 / 10), MakeBonds 7, MakeBackbone 7 16777215] \<and>
   disposed (cache (run demo_builders [Render demo_input] view_init)) = [] \<and>
   disposed (cache (run demo_builders [Render demo_input, Render demo_input] view_init)) =
     [1, 2, 4, 5, 7, 8] \<and>
   map_option prim_id (obj_atoms (cur_objects
     (run demo_builders [Render demo_input] view_init))) = Some 0 \<and>
   map_option prim_id (obj_atoms (cur_objects
     (run demo_builders [Render demo_input, Render demo_input] view_init))) = Some 9"
  by (simp add: demo_defs view_defs cache_defs ribbon_defs)

subsection \<open>The invariant of the fit controller\<close>

lemma frame_empty: "rafs s = [] \<Longrightarrow> frame cur out s = s"
  by (simp add: frame_def)

lemma frame_single:
  "rafs s = [(h, cb)] \<Longrightarrow> frame cur out s = dispatch (run_raf_cb cur out cb (s\<lparr>rafs := []\<rparr>))"
  by (simp add: frame_def)

lemma timeout_fire_empty: "timeouts s = [] \<Longrightarrow> timeout_fire out s = s"
  by (simp add: timeout_fire_def)

lemma timeout_fire_single:
  "timeouts s = [t] \<Longrightarrow>
   timeout_fire out s = dispatch (initial_fit_callback out (s\<lparr>timeouts := []\<rparr>))"
  by (simp add: timeout_fire_def)

text \<open>The callbacks, in closed form: none lets an exception out.\<close>

lemma initial_fit_callback_eq:
  "initial_fit_callback out s =
     (Returned, s\<lparr> camera := (case out of FitThrows \<Rightarrow> camera s | FitOk p \<Rightarrow> p),
                   fit_log := fit_log s @ [Fit Initial Whole out], did := True \<rparr>)"
  by (cases out) (simp_all add: initial_fit_callback_def then_do_def try_catch_def api_refresh_fit_def)

lemma raf1_callback_eq:
  "raf1_callback g s =
     (Returned, s\<lparr> rafs := rafs s @ [(next_handle s, DoFit g)],
                   next_handle := next_handle s + 1,
                   envs := (envs s)(g := (envs s g)\<lparr>raf2 := next_handle s\<rparr>) \<rparr>)"
  by (simp add: raf1_callback_def request_frame_def set_raf2_def Let_def)

lemma doFit_empty_eq:
  "children r = [] \<Longrightarrow>
   doFit g (Some r) out s =
     (Returned, s\<lparr> rafs := rafs s @ [(next_handle s, DoFit g)],
                   next_handle := next_handle s + 1,
                   envs := (envs s)(g := (envs s g)\<lparr>raf3 := next_handle s\<rparr>) \<rparr>)"
  by (simp add: doFit_def doFit_try_def try_catch_def request_frame_def set_raf3_def Let_def)

lemma doFit_content_eq:
  "children r \<noteq> [] \<Longrightarrow>
   doFit g (Some r) out s =
     (Returned, s\<lparr> camera := (case out of FitThrows \<Rightarrow> camera s | FitOk p \<Rightarrow> p),
                   fit_log := fit_log s @ concat (map bounds_node (traverse r))
                                @ [Fit Reload Content out],
                   lastFittedSource := (case out of FitThrows \<Rightarrow> lastFittedSource s
                                        | FitOk p \<Rightarrow> Some (env_sourceUrl (envs s g))) \<rparr>)"
  by (cases out)
     (simp_all add: doFit_def doFit_try_def try_catch_def then_do_def api_refresh_fit_def
       compute_bounds_def record_fitted_def)

lemma doFit_null_eq:
  "doFit g None out s =
     (Returned, s\<lparr> camera := (case out of FitThrows \<Rightarrow> camera s | FitOk p \<Rightarrow> p),
                   fit_log := fit_log s @ [Fit Reload Whole out],
                   lastFittedSource := (case out of FitThrows \<Rightarrow> lastFittedSource s
                                        | FitOk p \<Rightarrow> Some (env_sourceUrl (envs s g))) \<rparr>)"
  by (cases out)
     (simp_all add: doFit_def doFit_try_def try_catch_def then_do_def api_refresh_fit_def
       record_fitted_def)

lemma doFit_returns: "fst (doFit g cur out s) = Returned"
proof (cases cur)
  case None
  then show ?thesis by (simp add: doFit_null_eq)
next
  case (Some r)
  then show ?thesis by (cases "children r = []") (simp_all add: doFit_empty_eq doFit_content_eq)
qed

lemma run_raf_cb_returns: "fst (run_raf_cb cur out cb s) = Returned"
  by (cases cb) (simp_all add: run_raf_cb_def raf1_callback_eq doFit_returns)

lemma dispatch_returned: "fst r = Returned \<Longrightarrow> dispatch r = snd r"
  by (cases r) (simp add: dispatch_def)

lemma run_initial_eq:
  "run_initial a s =
     (if did s then s\<lparr>initial_effect := Some (a, None)\<rparr>
      else s\<lparr> timeouts := timeouts s @ [next_handle s], next_handle := next_handle s + 1,
              initial_effect := Some (a, Some (next_handle s)) \<rparr>)"
  by (simp add: run_initial_def initial_effect_body_def set_timeout_def Let_def)

lemma run_reload_eq:
  "run_reload d s =
     (if fit_wanted d s then
        s\<lparr> envs := (envs s)(next_env s := \<lparr> raf1 = next_handle s, raf2 = 0, raf3 = 0,
                                             env_sourceUrl = fst (snd d) \<rparr>),
           next_env := next_env s + 1,
           rafs := rafs s @ [(next_handle s, Raf1 (next_env s))],
           next_handle := next_handle s + 1,
           reload_effect := Some (d, Some (next_env s)) \<rparr>
      else s\<lparr>reload_effect := Some (d, None)\<rparr>)"
  by (cases d)
     (auto simp add: run_reload_def reload_effect_body_def request_frame_def fit_wanted_def
       Let_def)

lemma initial_cleanup_eq:
  "initial_cleanup cl s =
     (case cl of None \<Rightarrow> s | Some t \<Rightarrow> s\<lparr>timeouts := filter (\<lambda>h. h \<noteq> t) (timeouts s)\<rparr>)"
  by (simp add: initial_cleanup_def clear_timeout_def split: option.splits)

lemma reload_cleanup_eq:
  "reload_cleanup cl s =
     (case cl of
        None \<Rightarrow> s
      | Some g \<Rightarrow> s\<lparr>rafs := filter (\<lambda>p. \<not> cancelled (envs s g) (fst p)) (rafs s)\<rparr>)"
proof (cases cl)
  case None
  then show ?thesis by (simp add: reload_cleanup_def)
next
  case (Some g)
  have "filter (\<lambda>p. \<not> cancelled (envs s g) (fst p)) (rafs s) =
        filter (\<lambda>p. raf3 (envs s g) = 0 \<or> fst p \<noteq> raf3 (envs s g))
          (filter (\<lambda>p. raf2 (envs s g) = 0 \<or> fst p \<noteq> raf2 (envs s g))
             (filter (\<lambda>p. raf1 (envs s g) = 0 \<or> fst p \<noteq> raf1 (envs s g)) (rafs s)))"
    by (auto simp add: cancelled_def intro: filter_cong)
  moreover have "\<And>h t. cancel_if h t = t\<lparr>rafs := filter (\<lambda>p. h = 0 \<or> fst p \<noteq> h) (rafs t)\<rparr>"
    by (simp add: cancel_if_def cancel_frame_def)
  ultimately show ?thesis using Some by (simp add: reload_cleanup_def)
qed

lemma count_initial_append [simp]:
  "count_initial (xs @ ys) = count_initial xs + count_initial ys"
  by (simp add: count_initial_def)

lemma count_initial_bounds [simp]:
  "count_initial (concat (map bounds_node ns)) = 0"
  by (induction ns) (auto simp add: count_initial_def bounds_node_def split: option.splits)

lemma count_initial_single [simp]:
  "count_initial [Fit og sc out] = (if og = Initial then 1 else 0)"
  by (simp add: count_initial_def)

lemma count_initial_Nil [simp]: "count_initial [] = 0"
  by (simp add: count_initial_def)

lemma fit_invD:
  assumes "fit_inv s"
  shows "timeout_ok s" and "raf_ok s" and "0 < next_handle s" and "uncaught s = 0"
  using assms unfolding fit_inv_def by blast+

lemma fit_inv_frame:
  assumes "fit_inv s"
  shows "fit_inv (frame cur out s)"
proof (cases "rafs s")
  case Nil
  with assms show ?thesis by (simp add: frame_empty)
next
  case (Cons p ps)
  note i = fit_invD[OF assms]
  from Cons i(2) obtain h cb where r: "rafs s = [(h, cb)]" and h: "h \<noteq> 0" "h < next_handle s"
    and g: "installed_reload s = Some (cb_env cb)"
    and hh: "handle_held cb (envs s (cb_env cb)) h"
    and src: "env_sourceUrl (envs s (cb_env cb)) = current_source s"
    and lf: "lastFittedSource s \<noteq> Some (current_source s)"
    by (auto simp add: raf_ok_def)
  let ?s0 = "s\<lparr>rafs := []\<rparr>"
  have f: "frame cur out s = snd (run_raf_cb cur out cb ?s0)"
    by (simp add: frame_single[OF r] dispatch_returned run_raf_cb_returns)
  have to: "timeout_ok s" by (rule i(1))
  show ?thesis
  proof (cases cb)
    case (Raf1 e)
    with f have "frame cur out s = s\<lparr> rafs := [(next_handle s, DoFit e)],
                   next_handle := next_handle s + 1,
                   envs := (envs s)(e := (envs s e)\<lparr>raf2 := next_handle s\<rparr>) \<rparr>"
      by (simp add: run_raf_cb_def raf1_callback_eq)
    with to i(3,4) g src lf Raf1 show ?thesis
      by (auto simp add: fit_inv_def timeout_ok_def raf_ok_def installed_initial_def
          installed_reload_def current_source_def)
  next
    case (DoFit e)
    show ?thesis
    proof (cases cur)
      case None
      with f DoFit have "frame cur out s = s\<lparr> rafs := [],
           camera := (case out of FitThrows \<Rightarrow> camera s | FitOk p \<Rightarrow> p),
           fit_log := fit_log s @ [Fit Reload Whole out],
           lastFittedSource := (case out of FitThrows \<Rightarrow> lastFittedSource s
                                | FitOk p \<Rightarrow> Some (env_sourceUrl (envs s e))) \<rparr>"
        by (cases out) (simp_all add: run_raf_cb_def doFit_null_eq)
      with to i(3,4) show ?thesis
        by (auto simp add: fit_inv_def timeout_ok_def raf_ok_def installed_initial_def)
    next
      case (Some r)
      show ?thesis
      proof (cases "children r = []")
        case True
        with f DoFit Some have "frame cur out s = s\<lparr> rafs := [(next_handle s, DoFit e)],
                   next_handle := next_handle s + 1,
                   envs := (envs s)(e := (envs s e)\<lparr>raf3 := next_handle s\<rparr>) \<rparr>"
          by (simp add: run_raf_cb_def doFit_empty_eq)
        with to i(3,4) g src lf DoFit show ?thesis
          by (auto simp add: fit_inv_def timeout_ok_def raf_ok_def installed_initial_def
              installed_reload_def current_source_def)
      next
        case False
        with f DoFit Some have "frame cur out s = s\<lparr> rafs := [],
           camera := (case out of FitThrows \<Rightarrow> camera s | FitOk p \<Rightarrow> p),
           fit_log := fit_log s @ concat (map bounds_node (traverse r))
                        @ [Fit Reload Content out],
           lastFittedSource := (case out of FitThrows \<Rightarrow> lastFittedSource s
                                | FitOk p \<Rightarrow> Some (env_sourceUrl (envs s e))) \<rparr>"
          by (cases out) (simp_all add: run_raf_cb_def doFit_content_eq)
        with to i(3,4) show ?thesis
          by (auto simp add: fit_inv_def timeout_ok_def raf_ok_def installed_initial_def)
      qed
    qed
  qed
qed

lemma fit_inv_timeout:
  assumes "fit_inv s"
  shows "fit_inv (timeout_fire out s)"
proof (cases "timeouts s")
  case Nil
  with assms show ?thesis by (simp add: timeout_fire_empty)
next
  case (Cons t ts)
  note i = fit_invD[OF assms]
  from Cons i(1) have t: "timeouts s = [t]" and nd: "\<not> did s"
    and c: "count_initial (fit_log s) = 0"
    by (auto simp add: timeout_ok_def split: if_splits)
  have "timeout_fire out s = s\<lparr> timeouts := [],
          camera := (case out of FitThrows \<Rightarrow> camera s | FitOk p \<Rightarrow> p),
          fit_log := fit_log s @ [Fit Initial Whole out], did := True \<rparr>"
    by (cases out) (simp_all add: timeout_fire_single[OF t] initial_fit_callback_eq dispatch_def)
  with i(2,3,4) c show ?thesis
    by (auto simp add: fit_inv_def timeout_ok_def raf_ok_def installed_reload_def
        current_source_def)
qed

lemma cleanup_initial_clears:
  assumes "timeout_ok s"
  shows "initial_cleanup (installed_initial s) s = s\<lparr>timeouts := []\<rparr>"
proof (cases "timeouts s")
  case Nil
  then have "s\<lparr>timeouts := []\<rparr> = s" by simp
  with Nil show ?thesis by (simp add: initial_cleanup_eq split: option.splits)
next
  case (Cons t ts)
  with assms have "installed_initial s = Some t" "timeouts s = [t]"
    by (auto simp add: timeout_ok_def)
  then show ?thesis by (simp add: initial_cleanup_eq)
qed

lemma cleanup_reload_clears:
  assumes "raf_ok s"
  shows "reload_cleanup (installed_reload s) s = s\<lparr>rafs := []\<rparr>"
proof (cases "rafs s")
  case Nil
  then have "s\<lparr>rafs := []\<rparr> = s" by simp
  with Nil show ?thesis by (simp add: reload_cleanup_eq split: option.splits)
next
  case (Cons p ps)
  with assms obtain h cb where r: "rafs s = [(h, cb)]" and h: "h \<noteq> 0"
    and g: "installed_reload s = Some (cb_env cb)"
    and hh: "handle_held cb (envs s (cb_env cb)) h"
    by (auto simp add: raf_ok_def)
  from h hh have "cancelled (envs s (cb_env cb)) h"
    by (cases cb) (auto simp add: cancelled_def)
  with r g show ?thesis by (simp add: reload_cleanup_eq)
qed

lemma fit_inv_clear_timeouts: "fit_inv s \<Longrightarrow> fit_inv (s\<lparr>timeouts := []\<rparr>)"
  by (auto simp add: fit_inv_def timeout_ok_def raf_ok_def installed_reload_def
      installed_initial_def current_source_def)

lemma fit_inv_clear_rafs: "fit_inv s \<Longrightarrow> fit_inv (s\<lparr>rafs := []\<rparr>)"
  by (auto simp add: fit_inv_def timeout_ok_def raf_ok_def installed_initial_def)

lemma fit_inv_run_initial:
  assumes "fit_inv s" and "timeouts s = []"
  shows "fit_inv (run_initial a s)"
proof -
  note i = fit_invD[OF assms(1)]
  from i(1) assms(2) have c: "count_initial (fit_log s) = (if did s then 1 else 0)"
    by (simp add: timeout_ok_def)
  have r: "raf_ok (run_initial a s)"
    using i(2)
    by (auto simp add: run_initial_eq raf_ok_def installed_reload_def current_source_def)
  have t: "timeout_ok (run_initial a s)"
    using c assms(2) by (simp add: run_initial_eq timeout_ok_def installed_initial_def)
  from r t i(3,4) show ?thesis by (simp add: fit_inv_def run_initial_eq)
qed

lemma fit_inv_run_reload:
  assumes "fit_inv s" and "rafs s = []"
  shows "fit_inv (run_reload d s)"
proof -
  note i = fit_invD[OF assms(1)]
  have t: "timeout_ok (run_reload d s)"
    using i(1)
    by (auto simp add: run_reload_eq timeout_ok_def installed_initial_def)
  have r: "raf_ok (run_reload d s)"
    using assms(2) i(3)
    by (simp add: run_reload_eq raf_ok_def installed_reload_def current_source_def
        fit_wanted_def)
  from r t i(3,4) show ?thesis by (simp add: fit_inv_def run_reload_eq)
qed

text \<open>A commit, in closed form, from a state that satisfies the invariant.\<close>

lemma fit_commit_eq:
  assumes "fit_inv s"
  shows "fit_commit d s =
     (let a = snd (snd (snd d));
          s1 = (if initial_changed a s then s\<lparr>timeouts := []\<rparr> else s);
          s2 = (if reload_changed d s then s1\<lparr>rafs := []\<rparr> else s1);
          s3 = (if initial_changed a s then run_initial a s2 else s2)
      in (if reload_changed d s then run_reload d s3 else s3))"
proof -
  note i = fit_invD[OF assms]
  let ?a = "snd (snd (snd d))"
  let ?s1 = "if initial_changed ?a s then s\<lparr>timeouts := []\<rparr> else s"
  have 1: "(if initial_changed ?a s then initial_cleanup (installed_initial s) s else s) = ?s1"
    using cleanup_initial_clears[OF i(1)] by simp
  have "fit_inv ?s1" using assms by (simp add: fit_inv_clear_timeouts)
  then have "raf_ok ?s1" by (rule fit_invD(2))
  from cleanup_reload_clears[OF this]
  have 2: "(if reload_changed d s then reload_cleanup (installed_reload ?s1) ?s1 else ?s1) =
           (if reload_changed d s then ?s1\<lparr>rafs := []\<rparr> else ?s1)" by simp
  show ?thesis unfolding fit_commit_def Let_def 1 2 ..
qed

lemma fit_inv_commit:
  assumes "fit_inv s"
  shows "fit_inv (fit_commit d s)"
proof -
  let ?a = "snd (snd (snd d))"
  let ?s1 = "if initial_changed ?a s then s\<lparr>timeouts := []\<rparr> else s"
  let ?s2 = "if reload_changed d s then ?s1\<lparr>rafs := []\<rparr> else ?s1"
  let ?s3 = "if initial_changed ?a s then run_initial ?a ?s2 else ?s2"
  have 1: "fit_inv ?s1" using assms by (simp add: fit_inv_clear_timeouts)
  have 2: "fit_inv ?s2" using 1 by (simp add: fit_inv_clear_rafs)
  have t2: "initial_changed ?a s \<longrightarrow> timeouts ?s2 = []" by simp
  have 3: "fit_inv ?s3" using 2 t2 by (auto intro: fit_inv_run_initial)
  have r3: "reload_changed d s \<longrightarrow> rafs ?s3 = []" by (simp add: run_initial_eq)
  have "fit_inv (if reload_changed d s then run_reload d ?s3 else ?s3)"
    using 3 r3 by (auto intro: fit_inv_run_reload)
  then show ?thesis by (simp add: fit_commit_eq[OF assms] Let_def)
qed

lemma fit_inv_init: "fit_inv fit_init"
  by (simp add: fit_inv_def fit_init_def timeout_ok_def raf_ok_def)

lemma fit_inv_step:
  assumes "fit_inv (fitc s)"
  shows "fit_inv (fitc (step B e s))"
proof (cases e)
  case (Render i)
  obtain opts n v c k r where
    "MoleculeView B i s =
       \<lparr> next_obj = n, cache = c, ribbon = r, fitc = fit_commit (reload_deps_of i) (fitc s),
         cur_objects = v, cur_cartoon = k, content = displayed (in_controls i) k v \<rparr>"
    by (rule MoleculeViewE)
  with Render assms show ?thesis by (simp add: fit_inv_commit)
next
  case (Timeout out)
  with assms show ?thesis by (simp add: fit_inv_timeout)
next
  case (Frame cur out)
  with assms show ?thesis by (simp add: fit_inv_frame)
qed

lemma fit_inv_run: "fit_inv (fitc (run B evs view_init))"
  by (rule run_induct[where P = "\<lambda>s. fit_inv (fitc s)"])
     (simp_all add: view_init_def fit_inv_init fit_inv_step)

lemma not_reload_changed:
  "\<not> reload_changed d s \<Longrightarrow> \<exists>cl. reload_effect s = Some (d, cl)"
  by (auto simp add: reload_changed_def split: option.splits)

lemma fit_commit_fields:
  assumes "fit_inv s"
  shows "fit_log (fit_commit d s) = fit_log s" and "camera (fit_commit d s) = camera s"
    and "did (fit_commit d s) = did s"
    and "lastFittedSource (fit_commit d s) = lastFittedSource s"
    and "timeouts (fit_commit d s) =
           (if initial_changed (snd (snd (snd d))) s
            then (if did s then [] else [next_handle s]) else timeouts s)"
    and "rafs (fit_commit d s) =
           (if reload_changed d s
            then (if fit_wanted d s
                  then [(next_handle s +
                          (if initial_changed (snd (snd (snd d))) s \<and> \<not> did s then 1 else 0),
                         Raf1 (next_env s))]
                  else [])
            else rafs s)"
    and "\<exists>cl. reload_effect (fit_commit d s) = Some (d, cl)"
    and "next_handle s \<le> next_handle (fit_commit d s)"
proof -
  note e = fit_commit_eq[OF assms, of d]
  show "fit_log (fit_commit d s) = fit_log s" and "camera (fit_commit d s) = camera s"
    and "did (fit_commit d s) = did s"
    and "lastFittedSource (fit_commit d s) = lastFittedSource s"
    and "next_handle s \<le> next_handle (fit_commit d s)"
    by (simp_all add: e Let_def run_initial_eq run_reload_eq)
  show "timeouts (fit_commit d s) =
           (if initial_changed (snd (snd (snd d))) s
            then (if did s then [] else [next_handle s]) else timeouts s)"
    by (simp add: e Let_def run_initial_eq run_reload_eq)
  show "rafs (fit_commit d s) =
           (if reload_changed d s
            then (if fit_wanted d s
                  then [(next_handle s +
                          (if initial_changed (snd (snd (snd d))) s \<and> \<not> did s then 1 else 0),
                         Raf1 (next_env s))]
                  else [])
            else rafs s)"
    by (simp add: e Let_def run_initial_eq run_reload_eq fit_wanted_def)
  show "\<exists>cl. reload_effect (fit_commit d s) = Some (d, cl)"
    using not_reload_changed[of d s]
    by (auto simp add: e Let_def run_initial_eq run_reload_eq)
qed

lemma fit_unmount_clears:
  assumes "fit_inv s"
  shows "rafs (fit_unmount s) = []" and "timeouts (fit_unmount s) = []"
proof -
  note i = fit_invD[OF assms]
  let ?s1 = "s\<lparr>timeouts := []\<rparr>"
  have "raf_ok ?s1" using fit_inv_clear_timeouts[OF assms] by (rule fit_invD(2))
  from cleanup_reload_clears[OF this]
  have "reload_cleanup (installed_reload s) ?s1 = ?s1\<lparr>rafs := []\<rparr>"
    by (simp add: installed_reload_def)
  then have "fit_unmount s = ?s1\<lparr>rafs := [], initial_effect := None, reload_effect := None\<rparr>"
    by (simp add: fit_unmount_def cleanup_initial_clears[OF i(1)])
  then show "rafs (fit_unmount s) = []" and "timeouts (fit_unmount s) = []" by simp_all
qed

lemma pending_owned:
  assumes "fit_inv s"
  shows "\<forall>p \<in> set (rafs s). fst p < next_handle s \<and> installed_reload s = Some (cb_env (snd p))"
    and "\<forall>t \<in> set (timeouts s). t < next_handle s \<and> installed_initial s = Some t"
  using fit_invD(1,2)[OF assms] by (auto simp add: raf_ok_def timeout_ok_def)

lemma fitc_Render:
  "fitc (step B (Render j) s) = fit_commit (reload_deps_of j) (fitc s)"
proof -
  obtain opts n v c k r where
    "MoleculeView B j s =
       \<lparr> next_obj = n, cache = c, ribbon = r, fitc = fit_commit (reload_deps_of j) (fitc s),
         cur_objects = v, cur_cartoon = k, content = displayed (in_controls j) k v \<rparr>"
    by (rule MoleculeViewE)
  then show ?thesis by simp
qed

lemma fitc_MoleculeView:
  "fitc (MoleculeView B j s) = fit_commit (reload_deps_of j) (fitc s)"
  using fitc_Render[of B j s] by simp

lemma reload_changed_iff:
  "reload_changed d s = (\<forall>d0 cl. reload_effect s = Some (d0, cl) \<longrightarrow> d0 \<noteq> d)"
  by (auto simp add: reload_changed_def split: option.splits)

lemma initial_changed_iff:
  "initial_changed a s = (\<forall>a0 cl. initial_effect s = Some (a0, cl) \<longrightarrow> a0 \<noteq> a)"
  by (auto simp add: initial_changed_def split: option.splits)

lemma fit_commit_initial_cell:
  assumes "fit_inv s"
  shows "\<exists>cl. initial_effect (fit_commit d s) = Some (snd (snd (snd d)), cl)"
proof -
  have "\<not> initial_changed (snd (snd (snd d))) s \<Longrightarrow>
        \<exists>cl. initial_effect s = Some (snd (snd (snd d)), cl)"
    by (auto simp add: initial_changed_def split: option.splits)
  then show ?thesis
    by (auto simp add: fit_commit_eq[OF assms] Let_def run_initial_eq run_reload_eq)
qed

subsection \<open>Cancellation of pending fit callbacks\<close>

text \<open>
  Claim C5, as the code has it for the timeout of the initial fit. The first pass sets the
  timeout. The next pass has a new scene, a new source and another loading state, but the
  same bounds api: the timeout is still pending afterwards, and when it fires the initial
  fit is attempted.
\<close>

theorem initial_timeout_survives_new_source:
  "timeouts (fitc (run demo_builders [Render demo_input] view_init)) = [1] \<and>
   in_scene demo_input = Some 7 \<and> in_scene demo_reload_input = Some 8 \<and>
   in_sourceUrl demo_input = ''/models/1IGY.pdb'' \<and>
   in_sourceUrl demo_reload_input = ''/models/other.pdb'' \<and>
   in_loading demo_input = False \<and> in_loading demo_reload_input = True \<and>
   in_api demo_input = 1 \<and> in_api demo_reload_input = 1 \<and>
   timeouts (fitc (run demo_builders [Render demo_input, Render demo_reload_input] view_init)) =
     [1] \<and>
   fit_log (fitc (run demo_builders
     [Render demo_input, Render demo_reload_input, Timeout (FitOk 4)] view_init)) =
     [Fit Initial Whole (FitOk 4)]"
  by (simp add: demo_reload_input_def demo_defs view_defs cache_defs ribbon_defs fit_defs)

text \<open>
  Claim C5, amended. In every state the view can reach, each pending animation-frame
  callback and each pending timeout was scheduled by the effect run whose cleanup is
  installed. The reload effect runs again, after its cleanup, exactly when the scene, the
  source, the loading flag or the bounds api differs from the pass before; a commit in
  which it does leaves pending only frame callbacks requested by that commit, so that the
  first frame's callback, the second's and the retry of the child check are all cancelled,
  and a commit in which it does not leaves the pending callback alone. The initial-fit
  effect depends on the bounds api only: a commit in which the api differs leaves pending
  only a timeout set by that commit, while a commit with the same api leaves the pending
  timeout alone, whatever the scene, the source and the loading flag. Unmounting leaves
  nothing pending.
\<close>

theorem stale_callbacks_cancelled:
  assumes "s = fitc (run B evs view_init)"
  shows "(\<forall>p \<in> set (rafs s).
            fst p < next_handle s \<and> installed_reload s = Some (cb_env (snd p))) \<and>
         (\<forall>t \<in> set (timeouts s). t < next_handle s \<and> installed_initial s = Some t) \<and>
         (reload_changed d s \<longrightarrow>
            (\<forall>p \<in> set (rafs (fit_commit d s)). next_handle s \<le> fst p)) \<and>
         (initial_changed (snd (snd (snd d))) s \<longrightarrow>
            (\<forall>t \<in> set (timeouts (fit_commit d s)). next_handle s \<le> t)) \<and>
         rafs (fit_unmount s) = [] \<and> timeouts (fit_unmount s) = [] \<and>
         (\<not> reload_changed d s \<longrightarrow> rafs (fit_commit d s) = rafs s) \<and>
         (\<not> initial_changed (snd (snd (snd d))) s \<longrightarrow>
            timeouts (fit_commit d s) = timeouts s) \<and>
         reload_changed d s = (\<forall>d0 cl. reload_effect s = Some (d0, cl) \<longrightarrow> d0 \<noteq> d) \<and>
         initial_changed a s = (\<forall>a0 cl. initial_effect s = Some (a0, cl) \<longrightarrow> a0 \<noteq> a) \<and>
         (\<exists>cl. reload_effect (fit_commit d s) = Some (d, cl)) \<and>
         (\<exists>cl. initial_effect (fit_commit d s) = Some (snd (snd (snd d)), cl)) \<and>
         fitc (MoleculeView B i (run B evs view_init)) =
           fit_commit (in_scene i, in_sourceUrl i, in_loading i, in_api i) s"
proof -
  from assms have i: "fit_inv s" by (simp add: fit_inv_run)
  note f = fit_commit_fields(5,6)[OF i, of d]
  have m: "fitc (MoleculeView B i (run B evs view_init)) =
           fit_commit (in_scene i, in_sourceUrl i, in_loading i, in_api i) s"
    using assms by (simp add: fitc_MoleculeView reload_deps_of_def)
  have k1: "\<not> reload_changed d s \<longrightarrow> rafs (fit_commit d s) = rafs s"
    using f(2) by simp
  have k2: "\<not> initial_changed (snd (snd (snd d))) s \<longrightarrow> timeouts (fit_commit d s) = timeouts s"
    using f(1) by simp
  have c1: "reload_changed d s \<longrightarrow>
            (\<forall>p \<in> set (rafs (fit_commit d s)). next_handle s \<le> fst p)"
    using f(2) by simp
  have c2: "initial_changed (snd (snd (snd d))) s \<longrightarrow>
            (\<forall>t \<in> set (timeouts (fit_commit d s)). next_handle s \<le> t)"
    using f(1) by simp
  note po = pending_owned[OF i] and uc = fit_unmount_clears[OF i]
    and rc = fit_commit_fields(7)[OF i, of d] and ic = fit_commit_initial_cell[OF i, of d]
    and r1 = reload_changed_iff[of d s] and r2 = initial_changed_iff[of a s]
  show ?thesis
    apply (intro conjI)
    apply (rule po(1))
    apply (rule po(2))
    apply (rule c1)
    apply (rule c2)
    apply (rule uc(1))
    apply (rule uc(2))
    apply (rule k1)
    apply (rule k2)
    apply (rule r1)
    apply (rule r2)
    apply (rule rc)
    apply (rule ic)
    apply (rule m)
    done
qed

lemma demo_first_pass:
  "rafs (fitc (run demo_builders [Render demo_input] view_init)) = [(2, Raf1 0)]"
  "timeouts (fitc (run demo_builders [Render demo_input] view_init)) = [1]"
  "next_handle (fitc (run demo_builders [Render demo_input] view_init)) = 3"
  "reload_changed demo_other_deps (fitc (run demo_builders [Render demo_input] view_init))"
  "rafs (fit_commit demo_other_deps (fitc (run demo_builders [Render demo_input] view_init))) =
     [(3, Raf1 1)]"
  by (simp_all add: demo_defs view_defs cache_defs ribbon_defs fit_defs demo_other_deps_def)

lemma demo_same_api:
  "\<not> initial_changed (snd (snd (snd demo_other_deps)))
       (fitc (run demo_builders [Render demo_input] view_init))"
  "timeouts (fitc (run demo_builders [Render demo_input] view_init)) = [1]"
  by (simp_all add: demo_other_deps_def demo_defs view_defs cache_defs ribbon_defs fit_defs)

theorem stale_callbacks_cancelled_witness:
  "reload_changed demo_other_deps (fitc (run demo_builders [Render demo_input] view_init)) \<and>
   rafs (fitc (run demo_builders [Render demo_input] view_init)) = [(2, Raf1 0)] \<and>
   rafs (fit_commit demo_other_deps (fitc (run demo_builders [Render demo_input] view_init))) =
     [(3, Raf1 1)] \<and>
   \<not> initial_changed (snd (snd (snd demo_other_deps)))
       (fitc (run demo_builders [Render demo_input] view_init)) \<and>
   timeouts (fit_commit demo_other_deps
     (fitc (run demo_builders [Render demo_input] view_init))) = [1] \<and>
   rafs (fit_unmount (fitc (run demo_builders [Render demo_input] view_init))) = [] \<and>
   timeouts (fit_unmount (fitc (run demo_builders [Render demo_input] view_init))) = []"
proof -
  let ?s = "fitc (run demo_builders [Render demo_input] view_init)"
  note t = stale_callbacks_cancelled[OF refl, where B = demo_builders
      and evs = "[Render demo_input]" and d = demo_other_deps]
  note u1 = t[THEN conjunct2, THEN conjunct2, THEN conjunct2, THEN conjunct2, THEN conjunct1] and u2 = t[THEN conjunct2, THEN conjunct2, THEN conjunct2, THEN conjunct2, THEN conjunct2, THEN conjunct1] and k2 = t[THEN conjunct2, THEN conjunct2, THEN conjunct2, THEN conjunct2, THEN conjunct2, THEN conjunct2, THEN conjunct2, THEN conjunct1]
  have k: "timeouts (fit_commit demo_other_deps ?s) = [1]"
    using k2[THEN mp, OF demo_same_api(1)] unfolding demo_same_api(2) .
  show ?thesis
    by (intro conjI demo_first_pass(4) demo_first_pass(1) demo_first_pass(5)
        demo_same_api(1) k u1 u2)
qed

lemma doFit_throws:
  "camera (snd (doFit g cur FitThrows s)) = camera s"
  "lastFittedSource (snd (doFit g cur FitThrows s)) = lastFittedSource s"
proof -
  have "camera (snd (doFit g cur FitThrows s)) = camera s \<and>
        lastFittedSource (snd (doFit g cur FitThrows s)) = lastFittedSource s"
  proof (cases cur)
    case None
    then show ?thesis by (simp add: doFit_null_eq)
  next
    case (Some r)
    then show ?thesis by (cases "children r = []") (simp_all add: doFit_empty_eq doFit_content_eq)
  qed
  then show "camera (snd (doFit g cur FitThrows s)) = camera s"
    and "lastFittedSource (snd (doFit g cur FitThrows s)) = lastFittedSource s" by simp_all
qed

lemma run_raf_cb_did: "did (snd (run_raf_cb cur out cb s)) = did s"
proof (cases cb)
  case (Raf1 g)
  then show ?thesis by (simp add: run_raf_cb_def raf1_callback_eq)
next
  case (DoFit g)
  show ?thesis
  proof (cases cur)
    case None
    with DoFit show ?thesis by (simp add: run_raf_cb_def doFit_null_eq)
  next
    case (Some r)
    with DoFit show ?thesis
      by (cases "children r = []") (simp_all add: run_raf_cb_def doFit_empty_eq doFit_content_eq)
  qed
qed

lemma frame_did:
  assumes "fit_inv s"
  shows "did (frame cur out s) = did s"
proof (cases "rafs s")
  case Nil
  then show ?thesis by (simp add: frame_empty)
next
  case (Cons p ps)
  with fit_invD(2)[OF assms] obtain h cb where r: "rafs s = [(h, cb)]"
    by (auto simp add: raf_ok_def)
  then show ?thesis
    by (simp add: frame_single[OF r] dispatch_returned run_raf_cb_returns run_raf_cb_did)
qed

lemma frame_throws_camera:
  assumes "fit_inv s"
  shows "camera (frame cur FitThrows s) = camera s"
proof (cases "rafs s")
  case Nil
  then show ?thesis by (simp add: frame_empty)
next
  case (Cons p ps)
  with fit_invD(2)[OF assms] obtain h cb where r: "rafs s = [(h, cb)]"
    by (auto simp add: raf_ok_def)
  have "camera (snd (run_raf_cb cur FitThrows cb (s\<lparr>rafs := []\<rparr>))) = camera s"
    by (cases cb) (simp_all add: run_raf_cb_def raf1_callback_eq doFit_throws)
  then show ?thesis
    by (simp add: frame_single[OF r] dispatch_returned run_raf_cb_returns)
qed

lemma timeout_throws_camera:
  assumes "fit_inv s"
  shows "camera (timeout_fire FitThrows s) = camera s"
proof (cases "timeouts s")
  case Nil
  then show ?thesis by (simp add: timeout_fire_empty)
next
  case (Cons t ts)
  with fit_invD(1)[OF assms] have "timeouts s = [t]" by (auto simp add: timeout_ok_def)
  then show ?thesis by (simp add: timeout_fire_single initial_fit_callback_eq dispatch_def)
qed

lemma did_no_timeout:
  assumes "fit_inv (fitc s)" and "did (fitc s)"
  shows "timeouts (fitc s) = []" and "timeouts (fitc (step B e s)) = []"
proof -
  from fit_invD(1)[OF assms(1)] assms(2) show t0: "timeouts (fitc s) = []"
    by (simp add: timeout_ok_def)
  have "did (fitc (step B e s))"
  proof (cases e)
    case (Render j)
    with assms show ?thesis by (simp only: fitc_Render fit_commit_fields(3))
  next
    case (Timeout out)
    with t0 assms(2) show ?thesis by (simp add: timeout_fire_empty)
  next
    case (Frame cur out)
    with assms show ?thesis by (simp add: frame_did)
  qed
  with fit_invD(1)[OF fit_inv_step[OF assms(1), of B e]]
  show "timeouts (fitc (step B e s)) = []" by (simp add: timeout_ok_def)
qed

subsection \<open>Errors of a fit attempt\<close>

text \<open>
  Claim C6. The body of a fit attempt can throw, but \<open>doFit\<close> and the callback of the
  initial fit always return: the exception is caught inside them. Along every trace of
  events no exception ever leaves a callback. A fit that throws leaves the camera pose as
  it was. The initial fit is attempted at most once per mount: in every reachable state the
  log holds at most one initial fit, and once \<open>did\<close> is set (also after a failure) no
  timeout is pending and none is set again.
\<close>

theorem fit_errors_swallowed:
  "fst (doFit_try g None FitThrows s) = Threw \<and>
   fst (doFit g cur out s) = Returned \<and>
   fst (initial_fit_callback out s) = Returned \<and>
   camera (snd (doFit g cur FitThrows s)) = camera s \<and>
   camera (snd (initial_fit_callback FitThrows s)) = camera s \<and>
   did (snd (initial_fit_callback FitThrows s)) \<and>
   uncaught (fitc (run B evs view_init)) = 0 \<and>
   camera (fitc (step B (Frame cur FitThrows) (run B evs view_init))) =
     camera (fitc (run B evs view_init)) \<and>
   camera (fitc (step B (Timeout FitThrows) (run B evs view_init))) =
     camera (fitc (run B evs view_init)) \<and>
   count_initial (fit_log (fitc (run B evs view_init))) \<le> 1 \<and>
   (did (fitc (run B evs view_init)) \<longrightarrow>
      timeouts (fitc (run B evs view_init)) = [] \<and>
      timeouts (fitc (step B e (run B evs view_init))) = [])"
proof -
  let ?t = "fitc (run B evs view_init)"
  have i: "fit_inv ?t" by (rule fit_inv_run)
  note d = fit_invD[OF i]
  have 1: "fst (doFit_try g None FitThrows s) = Threw"
    by (simp add: doFit_try_def then_do_def api_refresh_fit_def)
  have 3: "camera (fitc (step B (Frame cur FitThrows) (run B evs view_init))) = camera ?t"
    by (simp add: frame_throws_camera[OF i])
  have 4: "camera (fitc (step B (Timeout FitThrows) (run B evs view_init))) = camera ?t"
    by (simp add: timeout_throws_camera[OF i])
  have 5: "count_initial (fit_log ?t) \<le> 1" using d(1) by (simp add: timeout_ok_def)
  have 6: "did ?t \<longrightarrow> timeouts ?t = [] \<and> timeouts (fitc (step B e (run B evs view_init))) = []"
    using did_no_timeout[OF i] by blast
  from 1 3 4 5 6 d(4) show ?thesis
    by (simp add: doFit_returns doFit_throws initial_fit_callback_eq)
qed

lemma demo_failed_initial:
  "did (fitc (run demo_builders [Render demo_input, Timeout FitThrows] view_init))"
  "fit_log (fitc (run demo_builders [Render demo_input, Timeout FitThrows] view_init)) =
     [Fit Initial Whole FitThrows]"
  "camera (fitc (run demo_builders [Render demo_input, Timeout FitThrows] view_init)) = 0"
  by (simp_all add: demo_defs view_defs cache_defs ribbon_defs fit_defs)

theorem fit_errors_swallowed_witness:
  "did (fitc (run demo_builders [Render demo_input, Timeout FitThrows] view_init)) \<and>
   fit_log (fitc (run demo_builders [Render demo_input, Timeout FitThrows] view_init)) =
     [Fit Initial Whole FitThrows] \<and>
   camera (fitc (run demo_builders [Render demo_input, Timeout FitThrows] view_init)) = 0 \<and>
   timeouts (fitc (step demo_builders (Render (demo_input\<lparr>in_api := 2\<rparr>))
     (run demo_builders [Render demo_input, Timeout FitThrows] view_init))) = []"
proof -
  from fit_errors_swallowed[where B = demo_builders
      and evs = "[Render demo_input, Timeout FitThrows]"
      and e = "Render (demo_input\<lparr>in_api := 2\<rparr>)"]
  have "did (fitc (run demo_builders [Render demo_input, Timeout FitThrows] view_init)) \<longrightarrow>
        timeouts (fitc (step demo_builders (Render (demo_input\<lparr>in_api := 2\<rparr>))
          (run demo_builders [Render demo_input, Timeout FitThrows] view_init))) = []"
    by blast
  with demo_failed_initial show ?thesis by blast
qed

lemma frame_throws_lastFitted:
  assumes "fit_inv s"
  shows "lastFittedSource (frame cur FitThrows s) = lastFittedSource s"
proof (cases "rafs s")
  case Nil
  then show ?thesis by (simp add: frame_empty)
next
  case (Cons p ps)
  with fit_invD(2)[OF assms] obtain h cb where r: "rafs s = [(h, cb)]"
    by (auto simp add: raf_ok_def)
  have "lastFittedSource (snd (run_raf_cb cur FitThrows cb (s\<lparr>rafs := []\<rparr>))) =
        lastFittedSource s"
    by (cases cb) (simp_all add: run_raf_cb_def raf1_callback_eq doFit_throws)
  then show ?thesis
    by (simp add: frame_single[OF r] dispatch_returned run_raf_cb_returns)
qed

subsection \<open>The two fit paths after an error\<close>

text \<open>
  Claim C9. A reload fit that throws leaves \<open>lastFittedSource\<close> as it was, whereas one that
  succeeds records the source of its closure; so after a failure the three conditions of
  the reload effect still hold, and the next commit in which the effect's dependencies
  change (with a scene, not loading) schedules the fit again, while a commit with unchanged
  dependencies schedules nothing. The callback of the initial fit sets \<open>did\<close> whatever the
  outcome, and in every reachable state the log holds at most one initial fit.
\<close>

theorem fit_error_asymmetry:
  assumes "t = fitc (run B evs view_init)"
  shows "lastFittedSource (snd (doFit g cur FitThrows s)) = lastFittedSource s \<and>
         (children r \<noteq> [] \<longrightarrow>
            lastFittedSource (snd (doFit g (Some r) (FitOk p) s)) =
              Some (env_sourceUrl (envs s g))) \<and>
         lastFittedSource (snd (doFit g None (FitOk p) s)) = Some (env_sourceUrl (envs s g)) \<and>
         lastFittedSource (frame cur FitThrows t) = lastFittedSource t \<and>
         did (snd (initial_fit_callback out s)) \<and>
         (reload_changed (Some sc, src, False, a) t \<and> lastFittedSource t \<noteq> Some src \<longrightarrow>
            (\<exists>h e. rafs (fit_commit (Some sc, src, False, a) t) = [(h, Raf1 e)])) \<and>
         (\<not> reload_changed d t \<longrightarrow> rafs (fit_commit d t) = rafs t) \<and>
         count_initial (fit_log t) \<le> 1"
proof -
  from assms have i: "fit_inv t" by (simp add: fit_inv_run)
  have 1: "children r \<noteq> [] \<longrightarrow>
            lastFittedSource (snd (doFit g (Some r) (FitOk p) s)) =
              Some (env_sourceUrl (envs s g))"
    by (simp add: doFit_content_eq)
  have 2: "reload_changed (Some sc, src, False, a) t \<and> lastFittedSource t \<noteq> Some src \<longrightarrow>
            (\<exists>h e. rafs (fit_commit (Some sc, src, False, a) t) = [(h, Raf1 e)])"
    by (simp add: fit_commit_fields(6)[OF i] fit_wanted_def)
  have 3: "\<not> reload_changed d t \<longrightarrow> rafs (fit_commit d t) = rafs t"
    by (simp add: fit_commit_fields(6)[OF i])
  have 4: "count_initial (fit_log t) \<le> 1"
    using fit_invD(1)[OF i] by (simp add: timeout_ok_def)
  from 1 2 3 4 show ?thesis
    by (simp add: doFit_throws doFit_null_eq initial_fit_callback_eq frame_throws_lastFitted[OF i])
qed

lemma demo_failed_reload:
  "lastFittedSource (fitc (run demo_builders
      [Render demo_input, Frame None FitThrows, Frame None FitThrows] view_init)) = None"
  "fit_log (fitc (run demo_builders
      [Render demo_input, Frame None FitThrows, Frame None FitThrows] view_init)) =
     [Fit Reload Whole FitThrows]"
  "reload_changed (Some 8, ''/models/other.pdb'', False, 1) (fitc (run demo_builders
      [Render demo_input, Frame None FitThrows, Frame None FitThrows] view_init))"
  by (simp_all add: demo_defs view_defs cache_defs ribbon_defs fit_defs)

theorem fit_error_asymmetry_witness:
  "reload_changed (Some 8, ''/models/other.pdb'', False, 1) (fitc (run demo_builders
      [Render demo_input, Frame None FitThrows, Frame None FitThrows] view_init)) \<and>
   lastFittedSource (fitc (run demo_builders
      [Render demo_input, Frame None FitThrows, Frame None FitThrows] view_init)) = None \<and>
   fit_log (fitc (run demo_builders
      [Render demo_input, Frame None FitThrows, Frame None FitThrows] view_init)) =
     [Fit Reload Whole FitThrows] \<and>
   (\<exists>h e. rafs (fit_commit (Some 8, ''/models/other.pdb'', False, 1) (fitc (run demo_builders
      [Render demo_input, Frame None FitThrows, Frame None FitThrows] view_init))) =
        [(h, Raf1 e)])"
proof -
  let ?t = "fitc (run demo_builders
      [Render demo_input, Frame None FitThrows, Frame None FitThrows] view_init)"
  from fit_error_asymmetry[OF refl, where B = demo_builders
      and evs = "[Render demo_input, Frame None FitThrows, Frame None FitThrows]"
      and sc = 8 and src = "''/models/other.pdb''" and a = 1]
  have "reload_changed (Some 8, ''/models/other.pdb'', False, 1) ?t \<and>
        lastFittedSource ?t \<noteq> Some ''/models/other.pdb'' \<longrightarrow>
        (\<exists>h e. rafs (fit_commit (Some 8, ''/models/other.pdb'', False, 1) ?t) = [(h, Raf1 e)])"
    by blast
  with demo_failed_reload show ?thesis by simp
qed

lemma reload_effect_body_eq:
  "reload_effect_body d s =
     (if fit_wanted d s then
        (s\<lparr> envs := (envs s)(next_env s := \<lparr> raf1 = next_handle s, raf2 = 0, raf3 = 0,
                                              env_sourceUrl = fst (snd d) \<rparr>),
            next_env := next_env s + 1,
            rafs := rafs s @ [(next_handle s, Raf1 (next_env s))],
            next_handle := next_handle s + 1 \<rparr>, Some (next_env s))
      else (s, None))"
  by (cases d)
     (auto simp add: reload_effect_body_def request_frame_def fit_wanted_def Let_def)

lemma settled_step:
  assumes "settled src (fitc s)" and "keeps_source src e"
  shows "settled src (fitc (step B e s))"
    and "fit_log (fitc (step B e s)) = fit_log (fitc s)"
    and "camera (fitc (step B e s)) = camera (fitc s)"
proof -
  from assms(1) have i: "fit_inv (fitc s)" and d: "did (fitc s)"
    and l: "lastFittedSource (fitc s) = Some src"
    and t: "timeouts (fitc s) = []" and r: "rafs (fitc s) = []"
    by (simp_all add: settled_def)
  have "settled src (fitc (step B e s)) \<and> fit_log (fitc (step B e s)) = fit_log (fitc s) \<and>
        camera (fitc (step B e s)) = camera (fitc s)"
  proof (cases e)
    case (Render j)
    with assms(2) have src: "fst (snd (reload_deps_of j)) = src" by (simp add: reload_deps_of_def)
    note f = fit_commit_fields[OF i, of "reload_deps_of j"]
    from src l have nw: "\<not> fit_wanted (reload_deps_of j) (fitc s)" by (simp add: fit_wanted_def)
    from f(5) d t have "timeouts (fit_commit (reload_deps_of j) (fitc s)) = []" by simp
    moreover from f(6) nw r have "rafs (fit_commit (reload_deps_of j) (fitc s)) = []" by simp
    ultimately show ?thesis
      using Render f(1,2,3,4) d l fit_inv_commit[OF i, of "reload_deps_of j"]
      by (simp add: fitc_MoleculeView settled_def)
  next
    case (Timeout out)
    with assms(1) t show ?thesis by (simp add: timeout_fire_empty)
  next
    case (Frame cur out)
    with assms(1) r show ?thesis by (simp add: frame_empty)
  qed
  then show "settled src (fitc (step B e s))"
    and "fit_log (fitc (step B e s)) = fit_log (fitc s)"
    and "camera (fitc (step B e s)) = camera (fitc s)" by simp_all
qed

lemma settled_run:
  assumes "settled src (fitc s)" and "\<forall>e \<in> set evs. keeps_source src e"
  shows "settled src (fitc (run B evs s)) \<and>
         fit_log (fitc (run B evs s)) = fit_log (fitc s) \<and>
         camera (fitc (run B evs s)) = camera (fitc s)"
  using assms
proof (induction evs arbitrary: s)
  case Nil
  then show ?case by (simp add: run_def)
next
  case (Cons e evs)
  from Cons.prems have k: "keeps_source src e" and ks: "\<forall>x \<in> set evs. keeps_source src x"
    by simp_all
  note st = settled_step[OF Cons.prems(1) k, of B]
  from Cons.IH[OF st(1) ks] st(2,3) show ?case by (simp add: run_def)
qed

lemma settled_reached:
  assumes "fit_inv s" and "did s" and "lastFittedSource s = Some src"
    and "reload_effect s = Some ((sc, src, l, a), cl)"
  shows "settled src s"
proof -
  from assms(4) have "current_source s = src" by (simp add: current_source_def)
  with fit_invD(2)[OF assms(1)] assms(3) have "rafs s = []" by (auto simp add: raf_ok_def)
  moreover from fit_invD(1)[OF assms(1)] assms(2) have "timeouts s = []"
    by (simp add: timeout_ok_def)
  ultimately show ?thesis using assms(1,2,3) by (simp add: settled_def)
qed

subsection \<open>When the reload fit is scheduled\<close>

text \<open>
  Claim C3, as the code has it after a fit that threw. The reload fit was scheduled and its
  attempt threw, so the source is still unfitted and nothing is pending. The next render
  pass changes only the representation: a scene is available, loading has completed and
  the source differs from the last source fitted, yet the pass schedules nothing, because
  the dependencies of the effect are those of the pass before and the effect does not run.
\<close>

theorem reload_fit_not_rescheduled:
  "in_scene demo_ribbon_input = Some 7 \<and>
   in_loading demo_ribbon_input = False \<and>
   in_sourceUrl demo_ribbon_input = ''/models/1IGY.pdb'' \<and>
   lastFittedSource (fitc (run demo_builders demo_failed view_init)) = None \<and>
   rafs (fitc (run demo_builders demo_failed view_init)) = [] \<and>
   rafs (fitc (step demo_builders (Render demo_ribbon_input)
     (run demo_builders demo_failed view_init))) = []"
  by (simp add: demo_failed_def demo_defs view_defs cache_defs ribbon_defs fit_defs)

text \<open>
  Claim C3, amended. The reload effect runs in the first committed pass and in every later
  pass in which the scene, the source, the loading flag or the bounds api differs from the
  pass before; the effect cell holds these four of the last pass. A pass in which the
  effect runs schedules the fit (one pending callback for the first frame, requested by
  this pass) exactly when a scene is available, loading has completed and the source
  differs from the last source fitted, and otherwise leaves nothing pending; a pass in which
  the effect does not run schedules nothing and leaves pending what was pending. The body
  of the effect itself schedules exactly under the three conditions. Once the initial fit
  has fired and the current source has been fitted, no sequence of render passes that keep
  the source (whatever the controls, so in particular any option-only changes), frames and
  timeouts invokes a fit again: the log of fits and the camera stay as they are, and
  nothing is pending.
\<close>

theorem reload_fit_trigger:
  assumes "t = run B evs view_init"
  shows "(snd (reload_effect_body (scene, u, loading, b) s) \<noteq> None) =
           (scene \<noteq> None \<and> \<not> loading \<and> lastFittedSource s \<noteq> Some u) \<and>
         rafs (fst (reload_effect_body (scene, u, loading, b) s)) =
           rafs s @ (if scene \<noteq> None \<and> \<not> loading \<and> lastFittedSource s \<noteq> Some u
                     then [(next_handle s, Raf1 (next_env s))] else []) \<and>
         fitc (MoleculeView B i t) =
           fit_commit (in_scene i, in_sourceUrl i, in_loading i, in_api i) (fitc t) \<and>
         (\<exists>cl. reload_effect (fitc (MoleculeView B i t)) =
            Some ((in_scene i, in_sourceUrl i, in_loading i, in_api i), cl)) \<and>
         ((\<forall>d0 cl. reload_effect (fitc t) = Some (d0, cl) \<longrightarrow> d0 \<noteq> (scene, u, loading, b)) \<and>
          scene \<noteq> None \<and> \<not> loading \<and> lastFittedSource (fitc t) \<noteq> Some u \<longrightarrow>
            (\<exists>h. rafs (fit_commit (scene, u, loading, b) (fitc t)) =
                   [(h, Raf1 (next_env (fitc t)))] \<and> next_handle (fitc t) \<le> h)) \<and>
         ((\<forall>d0 cl. reload_effect (fitc t) = Some (d0, cl) \<longrightarrow> d0 \<noteq> (scene, u, loading, b)) \<and>
          \<not> (scene \<noteq> None \<and> \<not> loading \<and> lastFittedSource (fitc t) \<noteq> Some u) \<longrightarrow>
            rafs (fit_commit (scene, u, loading, b) (fitc t)) = []) \<and>
         ((\<exists>cl. reload_effect (fitc t) = Some ((scene, u, loading, b), cl)) \<longrightarrow>
            rafs (fit_commit (scene, u, loading, b) (fitc t)) = rafs (fitc t)) \<and>
         (\<forall>p \<in> set (rafs (fit_commit (scene, u, loading, b) (fitc t))).
            p \<notin> set (rafs (fitc t)) \<longrightarrow>
            scene \<noteq> None \<and> \<not> loading \<and> lastFittedSource (fitc t) \<noteq> Some u) \<and>
         (did (fitc t) \<and> lastFittedSource (fitc t) = Some src \<and>
          (\<exists>sc l a cl. reload_effect (fitc t) = Some ((sc, src, l, a), cl)) \<and>
          (\<forall>e \<in> set evs'. keeps_source src e) \<longrightarrow>
            fit_log (fitc (run B evs' t)) = fit_log (fitc t) \<and>
            camera (fitc (run B evs' t)) = camera (fitc t) \<and>
            rafs (fitc (run B evs' t)) = [] \<and> timeouts (fitc (run B evs' t)) = [])"
proof -
  from assms have i: "fit_inv (fitc t)" by (simp add: fit_inv_run)
  let ?d = "(scene, u, loading, b)"
  note f = fit_commit_fields(6)[OF i, of ?d]
  have w: "fit_wanted ?d (fitc t) =
           (scene \<noteq> None \<and> \<not> loading \<and> lastFittedSource (fitc t) \<noteq> Some u)"
    by (simp add: fit_wanted_def)
  have 1: "(snd (reload_effect_body (scene, u, loading, b) s) \<noteq> None) =
           (scene \<noteq> None \<and> \<not> loading \<and> lastFittedSource s \<noteq> Some u)"
    by (simp add: reload_effect_body_eq fit_wanted_def)
  have 2: "rafs (fst (reload_effect_body (scene, u, loading, b) s)) =
           rafs s @ (if scene \<noteq> None \<and> \<not> loading \<and> lastFittedSource s \<noteq> Some u
                     then [(next_handle s, Raf1 (next_env s))] else [])"
    by (simp add: reload_effect_body_eq fit_wanted_def)
  have m: "fitc (MoleculeView B i t) =
           fit_commit (in_scene i, in_sourceUrl i, in_loading i, in_api i) (fitc t)"
    by (simp add: fitc_MoleculeView reload_deps_of_def)
  have c: "\<exists>cl. reload_effect (fitc (MoleculeView B i t)) =
            Some ((in_scene i, in_sourceUrl i, in_loading i, in_api i), cl)"
    unfolding m by (rule fit_commit_fields(7)[OF i])
  have b1: "(\<forall>d0 cl. reload_effect (fitc t) = Some (d0, cl) \<longrightarrow> d0 \<noteq> ?d) \<and>
          scene \<noteq> None \<and> \<not> loading \<and> lastFittedSource (fitc t) \<noteq> Some u \<longrightarrow>
            (\<exists>h. rafs (fit_commit ?d (fitc t)) =
                   [(h, Raf1 (next_env (fitc t)))] \<and> next_handle (fitc t) \<le> h)"
  proof (intro impI, elim conjE)
    assume "\<forall>d0 cl. reload_effect (fitc t) = Some (d0, cl) \<longrightarrow> d0 \<noteq> ?d"
      and "scene \<noteq> None" and "\<not> loading" and "lastFittedSource (fitc t) \<noteq> Some u"
    then have "reload_changed ?d (fitc t)" and "fit_wanted ?d (fitc t)"
      unfolding reload_changed_iff w by blast+
    with f have "rafs (fit_commit ?d (fitc t)) =
        [(next_handle (fitc t) +
            (if initial_changed (snd (snd (snd ?d))) (fitc t) \<and> \<not> did (fitc t) then 1 else 0),
          Raf1 (next_env (fitc t)))]" by (simp only: if_True)
    then show "\<exists>h. rafs (fit_commit ?d (fitc t)) =
                   [(h, Raf1 (next_env (fitc t)))] \<and> next_handle (fitc t) \<le> h"
      by (intro exI[of _ "next_handle (fitc t) +
            (if initial_changed (snd (snd (snd ?d))) (fitc t) \<and> \<not> did (fitc t) then 1 else 0)"])
         simp
  qed
  have b2: "(\<forall>d0 cl. reload_effect (fitc t) = Some (d0, cl) \<longrightarrow> d0 \<noteq> ?d) \<and>
          \<not> (scene \<noteq> None \<and> \<not> loading \<and> lastFittedSource (fitc t) \<noteq> Some u) \<longrightarrow>
            rafs (fit_commit ?d (fitc t)) = []"
  proof (intro impI, elim conjE)
    assume "\<forall>d0 cl. reload_effect (fitc t) = Some (d0, cl) \<longrightarrow> d0 \<noteq> ?d"
      and "\<not> (scene \<noteq> None \<and> \<not> loading \<and> lastFittedSource (fitc t) \<noteq> Some u)"
    then have "reload_changed ?d (fitc t)" and "\<not> fit_wanted ?d (fitc t)"
      unfolding reload_changed_iff w by blast+
    with f show "rafs (fit_commit ?d (fitc t)) = []" by (simp only: if_True if_False)
  qed
  have b3: "(\<exists>cl. reload_effect (fitc t) = Some (?d, cl)) \<longrightarrow>
            rafs (fit_commit ?d (fitc t)) = rafs (fitc t)"
  proof
    assume "\<exists>cl. reload_effect (fitc t) = Some (?d, cl)"
    then have "\<not> reload_changed ?d (fitc t)" unfolding reload_changed_iff by blast
    with f show "rafs (fit_commit ?d (fitc t)) = rafs (fitc t)" by (simp only: if_False)
  qed
  have 3: "\<forall>p \<in> set (rafs (fit_commit ?d (fitc t))).
            p \<notin> set (rafs (fitc t)) \<longrightarrow>
            scene \<noteq> None \<and> \<not> loading \<and> lastFittedSource (fitc t) \<noteq> Some u"
    by (auto simp add: f fit_wanted_def split: if_splits)
  have 4: "did (fitc t) \<and> lastFittedSource (fitc t) = Some src \<and>
          (\<exists>sc l a cl. reload_effect (fitc t) = Some ((sc, src, l, a), cl)) \<and>
          (\<forall>e \<in> set evs'. keeps_source src e) \<longrightarrow>
            fit_log (fitc (run B evs' t)) = fit_log (fitc t) \<and>
            camera (fitc (run B evs' t)) = camera (fitc t) \<and>
            rafs (fitc (run B evs' t)) = [] \<and> timeouts (fitc (run B evs' t)) = []"
  proof (intro impI, elim conjE exE)
    fix sc l a cl
    assume d: "did (fitc t)" and lf: "lastFittedSource (fitc t) = Some src"
      and re: "reload_effect (fitc t) = Some ((sc, src, l, a), cl)"
      and ks: "\<forall>e \<in> set evs'. keeps_source src e"
    from settled_run[OF settled_reached[OF i d lf re] ks, of B]
    show "fit_log (fitc (run B evs' t)) = fit_log (fitc t) \<and>
            camera (fitc (run B evs' t)) = camera (fitc t) \<and>
            rafs (fitc (run B evs' t)) = [] \<and> timeouts (fitc (run B evs' t)) = []"
      by (simp add: settled_def)
  qed
  from 1 2 m c b1 b2 b3 3 4 show ?thesis by blast
qed

lemma demo_fitted_state:
  "did (fitc (run demo_builders demo_fitted view_init))"
  "lastFittedSource (fitc (run demo_builders demo_fitted view_init)) = Some ''/models/1IGY.pdb''"
  "reload_effect (fitc (run demo_builders demo_fitted view_init)) =
     Some ((Some 7, ''/models/1IGY.pdb'', False, 1), Some 0)"
  "fit_log (fitc (run demo_builders demo_fitted view_init)) =
     [Fit Initial Whole (FitOk 1), ComputeBoundingBox 1, ComputeBoundingSphere 1,
      Fit Reload Content (FitOk 2)]"
  "camera (fitc (run demo_builders demo_fitted view_init)) = 2"
  by (simp_all add: demo_fitted_def demo_content_def demo_defs view_defs cache_defs ribbon_defs
      fit_defs)

lemma demo_load_completes:
  "reload_effect (fitc (run demo_builders [Render demo_loading_input] view_init)) =
     Some ((None, ''/models/1IGY.pdb'', True, 1), None)"
  "lastFittedSource (fitc (run demo_builders [Render demo_loading_input] view_init)) = None"
  "rafs (fitc (run demo_builders [Render demo_loading_input] view_init)) = []"
  "next_env (fitc (run demo_builders [Render demo_loading_input] view_init)) = 0"
  by (simp_all add: demo_loading_input_def demo_defs view_defs cache_defs ribbon_defs fit_defs)

theorem reload_fit_trigger_witness:
  "rafs (fitc (run demo_builders [Render demo_loading_input] view_init)) = [] \<and>
   (\<exists>h. rafs (fit_commit (Some 7, ''/models/1IGY.pdb'', False, 1)
            (fitc (run demo_builders [Render demo_loading_input] view_init))) = [(h, Raf1 0)]) \<and>
   did (fitc (run demo_builders demo_fitted view_init)) \<and>
   lastFittedSource (fitc (run demo_builders demo_fitted view_init)) =
     Some ''/models/1IGY.pdb'' \<and>
   list_all (keeps_source ''/models/1IGY.pdb'') demo_option_changes \<and>
   fit_log (fitc (run demo_builders demo_option_changes
       (run demo_builders demo_fitted view_init))) =
     [Fit Initial Whole (FitOk 1), ComputeBoundingBox 1, ComputeBoundingSphere 1,
      Fit Reload Content (FitOk 2)] \<and>
   camera (fitc (run demo_builders demo_option_changes
       (run demo_builders demo_fitted view_init))) = 2"
proof -
  let ?t = "run demo_builders demo_fitted view_init"
  let ?l = "run demo_builders [Render demo_loading_input] view_init"
  have k: "list_all (keeps_source ''/models/1IGY.pdb'') demo_option_changes"
    by (simp add: demo_option_changes_def demo_defs)
  then have k': "\<forall>e \<in> set demo_option_changes. keeps_source ''/models/1IGY.pdb'' e"
    by (simp add: list_all_iff)
  from demo_fitted_state(3)
  have r: "\<exists>sc l a cl. reload_effect (fitc ?t) = Some ((sc, ''/models/1IGY.pdb'', l, a), cl)"
    by blast
  note kept = reload_fit_trigger[OF refl, where B = demo_builders and evs = demo_fitted
      and src = "''/models/1IGY.pdb''" and evs' = demo_option_changes, THEN conjunct2, THEN conjunct2, THEN conjunct2, THEN conjunct2, THEN conjunct2, THEN conjunct2, THEN conjunct2, THEN conjunct2]
  have "fit_log (fitc (run demo_builders demo_option_changes ?t)) = fit_log (fitc ?t) \<and>
        camera (fitc (run demo_builders demo_option_changes ?t)) = camera (fitc ?t) \<and>
        rafs (fitc (run demo_builders demo_option_changes ?t)) = [] \<and>
        timeouts (fitc (run demo_builders demo_option_changes ?t)) = []"
    by (rule kept[THEN mp]) (intro conjI demo_fitted_state(1,2) r k')
  then have a: "fit_log (fitc (run demo_builders demo_option_changes ?t)) = fit_log (fitc ?t)"
    "camera (fitc (run demo_builders demo_option_changes ?t)) = camera (fitc ?t)"
    by simp_all
  note sched = reload_fit_trigger[OF refl, where B = demo_builders
      and evs = "[Render demo_loading_input]" and scene = "Some 7"
      and u = "''/models/1IGY.pdb''" and loading = False and b = 1, THEN conjunct2, THEN conjunct2, THEN conjunct2, THEN conjunct2, THEN conjunct1]
  have "\<exists>h. rafs (fit_commit (Some 7, ''/models/1IGY.pdb'', False, 1) (fitc ?l)) =
              [(h, Raf1 (next_env (fitc ?l)))] \<and> next_handle (fitc ?l) \<le> h"
    apply (rule sched[THEN mp])
    apply (intro conjI)
       apply (simp add: demo_load_completes(1))
      apply simp
     apply simp
    apply (simp add: demo_load_completes(2))
    done
  then obtain h where "rafs (fit_commit (Some 7, ''/models/1IGY.pdb'', False, 1) (fitc ?l)) =
              [(h, Raf1 (next_env (fitc ?l)))]"
    by blast
  then have b: "\<exists>h. rafs (fit_commit (Some 7, ''/models/1IGY.pdb'', False, 1) (fitc ?l)) =
              [(h, Raf1 0)]"
    unfolding demo_load_completes(4) by (rule exI)
  have f: "fit_log (fitc (run demo_builders demo_option_changes ?t)) =
     [Fit Initial Whole (FitOk 1), ComputeBoundingBox 1, ComputeBoundingSphere 1,
      Fit Reload Content (FitOk 2)]"
    unfolding a(1) by (rule demo_fitted_state(4))
  have g: "camera (fitc (run demo_builders demo_option_changes ?t)) = 2"
    unfolding a(2) by (rule demo_fitted_state(5))
  show ?thesis
    by (intro conjI demo_load_completes(3) b demo_fitted_state(1,2) k f g)
qed

subsection \<open>The reload fit procedure\<close>

lemma bounds_covers:
  assumes "node \<in> set (traverse r)" and "mesh_of node = Some (g, ms)"
  shows "ComputeBoundingBox g \<in> set (concat (map bounds_node (traverse r)))"
    and "ComputeBoundingSphere g \<in> set (concat (map bounds_node (traverse r)))"
proof -
  from assms(2) have "bounds_node node = [ComputeBoundingBox g, ComputeBoundingSphere g]"
    by (simp add: bounds_node_def)
  with assms(1) have "set [ComputeBoundingBox g, ComputeBoundingSphere g] \<subseteq>
      set (concat (map bounds_node (traverse r)))"
    by (metis UN_upper image_eqI list.set_map set_concat)
  then show "ComputeBoundingBox g \<in> set (concat (map bounds_node (traverse r)))"
    and "ComputeBoundingSphere g \<in> set (concat (map bounds_node (traverse r)))"
    by simp_all
qed

text \<open>
  Claim C4, as the code has it when the content group is not attached. The reload fit is
  scheduled, two frames pass with \<open>contentRef.current\<close> null, and the second performs the
  fit: unscoped, with no check for children and no bounds recomputed, and it records the
  source.
\<close>

theorem reload_fit_without_content_group:
  "fit_log (fitc (run demo_builders
      [Render demo_input, Frame None FitThrows, Frame None (FitOk 5)] view_init)) =
     [Fit Reload Whole (FitOk 5)] \<and>
   lastFittedSource (fitc (run demo_builders
      [Render demo_input, Frame None FitThrows, Frame None (FitOk 5)] view_init)) =
     Some ''/models/1IGY.pdb'' \<and>
   rafs (fitc (run demo_builders
      [Render demo_input, Frame None FitThrows, Frame None (FitOk 5)] view_init)) = []"
  by (simp add: demo_defs view_defs cache_defs ribbon_defs fit_defs)

text \<open>
  Claim C4, amended. A scheduled reload fit has its first frame callback pending; the first
  frame only requests the second, whose callback is \<open>doFit\<close>, so the attempt waits two
  frames. When \<open>doFit\<close> runs and the content group is attached: if the group has no child
  it requests another frame for \<open>doFit\<close> and does nothing else; otherwise it computes the
  bounding box and the bounding sphere of each mesh of the subtree, refreshes and fits
  scoped to the group and, when the fit returns, records the source of its closure. When the
  content group is not attached it fits unscoped at once, with no check for children, and
  records the source when the fit returns. A fit that throws records nothing.
\<close>

theorem reload_fit_procedure:
  "(fst d \<noteq> None \<and> \<not> fst (snd (snd d)) \<and> lastFittedSource s \<noteq> Some (fst (snd d)) \<longrightarrow>
      rafs (run_reload d s) = rafs s @ [(next_handle s, Raf1 (next_env s))] \<and>
      env_sourceUrl (envs (run_reload d s) (next_env s)) = fst (snd d) \<and>
      fit_log (run_reload d s) = fit_log s) \<and>
   (rafs s = [(h, Raf1 g)] \<longrightarrow>
      frame cur out s =
        s\<lparr> rafs := [(next_handle s, DoFit g)], next_handle := next_handle s + 1,
           envs := (envs s)(g := (envs s g)\<lparr>raf2 := next_handle s\<rparr>) \<rparr>) \<and>
   (rafs s = [(h, DoFit g)] \<and> children r = [] \<longrightarrow>
      frame (Some r) out s =
        s\<lparr> rafs := [(next_handle s, DoFit g)], next_handle := next_handle s + 1,
           envs := (envs s)(g := (envs s g)\<lparr>raf3 := next_handle s\<rparr>) \<rparr>) \<and>
   (rafs s = [(h, DoFit g)] \<and> children r \<noteq> [] \<longrightarrow>
      frame (Some r) out s =
        s\<lparr> rafs := [],
           camera := (case out of FitThrows \<Rightarrow> camera s | FitOk p \<Rightarrow> p),
           fit_log := fit_log s @ concat (map bounds_node (traverse r))
                        @ [Fit Reload Content out],
           lastFittedSource := (case out of FitThrows \<Rightarrow> lastFittedSource s
                                | FitOk p \<Rightarrow> Some (env_sourceUrl (envs s g))) \<rparr>) \<and>
   (rafs s = [(h, DoFit g)] \<longrightarrow>
      frame None out s =
        s\<lparr> rafs := [],
           camera := (case out of FitThrows \<Rightarrow> camera s | FitOk p \<Rightarrow> p),
           fit_log := fit_log s @ [Fit Reload Whole out],
           lastFittedSource := (case out of FitThrows \<Rightarrow> lastFittedSource s
                                | FitOk p \<Rightarrow> Some (env_sourceUrl (envs s g))) \<rparr>) \<and>
   (\<forall>node e ms. node \<in> set (traverse r) \<and> mesh_of node = Some (e, ms) \<longrightarrow>
      ComputeBoundingBox e \<in> set (concat (map bounds_node (traverse r))) \<and>
      ComputeBoundingSphere e \<in> set (concat (map bounds_node (traverse r))))"
proof -
  have 1: "fst d \<noteq> None \<and> \<not> fst (snd (snd d)) \<and> lastFittedSource s \<noteq> Some (fst (snd d)) \<longrightarrow>
      rafs (run_reload d s) = rafs s @ [(next_handle s, Raf1 (next_env s))] \<and>
      env_sourceUrl (envs (run_reload d s) (next_env s)) = fst (snd d) \<and>
      fit_log (run_reload d s) = fit_log s"
    by (simp add: run_reload_eq fit_wanted_def)
  have 2: "rafs s = [(h, Raf1 g)] \<longrightarrow>
      frame cur out s =
        s\<lparr> rafs := [(next_handle s, DoFit g)], next_handle := next_handle s + 1,
           envs := (envs s)(g := (envs s g)\<lparr>raf2 := next_handle s\<rparr>) \<rparr>"
    by (simp add: frame_single run_raf_cb_def raf1_callback_eq dispatch_def)
  have 3: "rafs s = [(h, DoFit g)] \<and> children r = [] \<longrightarrow>
      frame (Some r) out s =
        s\<lparr> rafs := [(next_handle s, DoFit g)], next_handle := next_handle s + 1,
           envs := (envs s)(g := (envs s g)\<lparr>raf3 := next_handle s\<rparr>) \<rparr>"
    by (simp add: frame_single run_raf_cb_def doFit_empty_eq dispatch_def)
  have 4: "rafs s = [(h, DoFit g)] \<and> children r \<noteq> [] \<longrightarrow>
      frame (Some r) out s =
        s\<lparr> rafs := [],
           camera := (case out of FitThrows \<Rightarrow> camera s | FitOk p \<Rightarrow> p),
           fit_log := fit_log s @ concat (map bounds_node (traverse r))
                        @ [Fit Reload Content out],
           lastFittedSource := (case out of FitThrows \<Rightarrow> lastFittedSource s
                                | FitOk p \<Rightarrow> Some (env_sourceUrl (envs s g))) \<rparr>"
    by (cases out) (simp_all add: frame_single run_raf_cb_def doFit_content_eq dispatch_def)
  have 5: "rafs s = [(h, DoFit g)] \<longrightarrow>
      frame None out s =
        s\<lparr> rafs := [],
           camera := (case out of FitThrows \<Rightarrow> camera s | FitOk p \<Rightarrow> p),
           fit_log := fit_log s @ [Fit Reload Whole out],
           lastFittedSource := (case out of FitThrows \<Rightarrow> lastFittedSource s
                                | FitOk p \<Rightarrow> Some (env_sourceUrl (envs s g))) \<rparr>"
    by (cases out) (simp_all add: frame_single run_raf_cb_def doFit_null_eq dispatch_def)
  have 6: "\<forall>node e ms. node \<in> set (traverse r) \<and> mesh_of node = Some (e, ms) \<longrightarrow>
      ComputeBoundingBox e \<in> set (concat (map bounds_node (traverse r))) \<and>
      ComputeBoundingSphere e \<in> set (concat (map bounds_node (traverse r)))"
    using bounds_covers by blast
  from 1 2 3 4 5 6 show ?thesis by blast
qed

lemma demo_waiting_state:
  "rafs (fitc (run demo_builders demo_waiting view_init)) = [(3, DoFit 0)]"
  "next_handle (fitc (run demo_builders demo_waiting view_init)) = 4"
  "fit_log (fitc (run demo_builders demo_waiting view_init)) = []"
  "env_sourceUrl (envs (fitc (run demo_builders demo_waiting view_init)) 0) =
     ''/models/1IGY.pdb''"
  "children demo_content \<noteq> []"
  "concat (map bounds_node (traverse demo_content)) =
     [ComputeBoundingBox 1, ComputeBoundingSphere 1]"
  by (simp_all add: demo_waiting_def demo_content_def demo_defs view_defs cache_defs ribbon_defs
      fit_defs)

theorem reload_fit_procedure_witness:
  "rafs (fitc (run demo_builders demo_waiting view_init)) = [(3, DoFit 0)] \<and>
   children (Obj3d None []) = [] \<and>
   rafs (frame (Some (Obj3d None [])) (FitOk 2) (fitc (run demo_builders demo_waiting view_init))) =
     [(4, DoFit 0)] \<and>
   fit_log (frame (Some (Obj3d None [])) (FitOk 2)
     (fitc (run demo_builders demo_waiting view_init))) = [] \<and>
   children demo_content \<noteq> [] \<and>
   fit_log (frame (Some demo_content) (FitOk 2) (fitc (run demo_builders demo_waiting view_init))) =
     [ComputeBoundingBox 1, ComputeBoundingSphere 1, Fit Reload Content (FitOk 2)] \<and>
   lastFittedSource (frame (Some demo_content) (FitOk 2)
     (fitc (run demo_builders demo_waiting view_init))) = Some ''/models/1IGY.pdb''"
proof -
  let ?s = "fitc (run demo_builders demo_waiting view_init)"
  note w = demo_waiting_state
  have e: "children (Obj3d None []) = []" by simp
  from reload_fit_procedure[where s = ?s and h = 3 and g = 0 and r = "Obj3d None []"
      and out = "FitOk 2"] w(1) e
  have a: "frame (Some (Obj3d None [])) (FitOk 2) ?s =
        ?s\<lparr> rafs := [(next_handle ?s, DoFit 0)], next_handle := next_handle ?s + 1,
           envs := (envs ?s)(0 := (envs ?s 0)\<lparr>raf3 := next_handle ?s\<rparr>) \<rparr>"
    by blast
  from reload_fit_procedure[where s = ?s and h = 3 and g = 0 and r = demo_content
      and out = "FitOk 2"] w(1,5)
  have b: "frame (Some demo_content) (FitOk 2) ?s =
        ?s\<lparr> rafs := [],
           camera := (case FitOk 2 of FitThrows \<Rightarrow> camera ?s | FitOk p \<Rightarrow> p),
           fit_log := fit_log ?s @ concat (map bounds_node (traverse demo_content))
                        @ [Fit Reload Content (FitOk 2)],
           lastFittedSource := (case FitOk 2 of FitThrows \<Rightarrow> lastFittedSource ?s
                                | FitOk p \<Rightarrow> Some (env_sourceUrl (envs ?s 0))) \<rparr>"
    by blast
  show ?thesis unfolding a b using w by simp
qed

end
